(* ===== verification/Bridge_Prelude.thy ===== *)
theory Bridge_Prelude
  imports Main "HOL-Library.Word" "HOL-Library.Sublist" "HOL-Library.AList"
begin

text \<open>
  What every component shares: the run-time panics of Go as values, the bind of computations that
  may panic, reads of a slice, the two functions of the standard library that split and print
  strings, and the generic facts about lists the component proofs use.
\<close>

section \<open>Panics\<close>

text \<open>
  A Go function either returns or panics. \<open>'a go\<close> is the result of a computation: \<open>Inl p\<close> when it
  panics with \<open>p\<close>, \<open>Inr x\<close> when it returns \<open>x\<close>. \<open>StackOverflow\<close> is the fatal error of a recursion
  that does not end.
\<close>

datatype go_panic =
    IndexOutOfRange
  | NilDereference
  | DivideByZero
  | SendOnClosedChannel
  | CloseOfClosedChannel
  | StackOverflow

type_synonym 'a go = "go_panic + 'a"
type_synonym u64 = "64 word"
type_synonym go_error = string

definition bind_go :: "'a go \<Rightarrow> ('a \<Rightarrow> 'b go) \<Rightarrow> 'b go" where
  "bind_go m f = (case m of Inl p \<Rightarrow> Inl p | Inr x \<Rightarrow> f x)"

lemma bind_go_Inl [simp]: "bind_go (Inl p) f = Inl p"
  by (simp add: bind_go_def)

lemma bind_go_Inr [simp]: "bind_go (Inr x) f = f x"
  by (simp add: bind_go_def)

lemma map_Some_the: "None \<notin> set xs \<Longrightarrow> map Some (map the xs) = xs"
  by (induction xs) auto

lemma bind_go_eq_Inr: "bind_go m f = Inr y \<longleftrightarrow> (\<exists>x. m = Inr x \<and> f x = Inr y)"
  by (cases m) auto

lemma bind_go_eq_Inl: "bind_go m f = Inl p \<longleftrightarrow> m = Inl p \<or> (\<exists>x. m = Inr x \<and> f x = Inl p)"
  by (cases m) simp_all

lemma bind_go_assoc [simp]: "bind_go (bind_go m f) g = bind_go m (\<lambda>x. bind_go (f x) g)"
  by (cases m) auto

lemma bind_go_cong [fundef_cong]:
  "m = m' \<Longrightarrow> (\<And>x. m' = Inr x \<Longrightarrow> f x = f' x) \<Longrightarrow> bind_go m f = bind_go m' f'"
  by (cases m') (auto simp: bind_go_def)

text \<open>A slice read \<open>xs[i]\<close>, and the read through a slice of pointers that may hold nil.\<close>

definition go_index :: "'a list \<Rightarrow> nat \<Rightarrow> 'a go" where
  "go_index xs i = (if i < length xs then Inr (xs ! i) else Inl IndexOutOfRange)"

definition go_deref :: "'a option \<Rightarrow> 'a go" where
  "go_deref x = (case x of None \<Rightarrow> Inl NilDereference | Some v \<Rightarrow> Inr v)"

lemma go_deref_simps [simp]:
  "go_deref None = Inl NilDereference"
  "go_deref (Some v) = Inr v"
  by (simp_all add: go_deref_def)

lemma go_index_in [simp]: "i < length xs \<Longrightarrow> go_index xs i = Inr (xs ! i)"
  by (simp add: go_index_def)

lemma go_index_out [simp]: "length xs \<le> i \<Longrightarrow> go_index xs i = Inl IndexOutOfRange"
  by (simp add: go_index_def)

section \<open>Loops over slices\<close>

text \<open>
  \<open>for _, x := range xs { s = body(s, x) }\<close> where the body may panic: the state is threaded through
  the elements in order and the first panic ends the loop.
\<close>

fun fold_go :: "('s \<Rightarrow> 'a \<Rightarrow> 's go) \<Rightarrow> 's \<Rightarrow> 'a list \<Rightarrow> 's go" where
  "fold_go f s [] = Inr s"
| "fold_go f s (x # xs) = bind_go (f s x) (\<lambda>s'. fold_go f s' xs)"

lemma fold_go_map: "fold_go f s (map g xs) = fold_go (\<lambda>s x. f s (g x)) s xs"
  by (induction xs arbitrary: s) (simp_all cong: bind_go_cong)

lemma fold_go_append: "fold_go f s (xs @ ys) = bind_go (fold_go f s xs) (\<lambda>s'. fold_go f s' ys)"
  by (induction xs arbitrary: s) simp_all

text \<open>
  The invariant rule of such a loop: if every step from a state related to what has been done
  returns and keeps the relation, so does the whole loop.
\<close>

lemma fold_go_rule:
  assumes init: "R s a"
    and step: "\<And>s a x. x \<in> set xs \<Longrightarrow> R s a \<Longrightarrow> \<exists>s'. f s x = Inr s' \<and> R s' (g a x)"
  shows "\<exists>s'. fold_go f s xs = Inr s' \<and> R s' (foldl g a xs)"
  using assms
proof (induction xs arbitrary: s a)
  case Nil
  then show ?case by simp
next
  case (Cons x xs)
  from Cons.prems(2)[of x s a] Cons.prems(1) obtain s1 where s1: "f s x = Inr s1" "R s1 (g a x)"
    by auto
  have "\<exists>s'. fold_go f s1 xs = Inr s' \<and> R s' (foldl g (g a x) xs)"
    by (rule Cons.IH) (use s1 Cons.prems(2) in auto)
  with s1 show ?case by simp
qed

text \<open>
  \<open>range\<close> over a map visits every entry once, in an order chosen at run time. A map that is ranged
  over is kept as the list of its entries and the choice is a function \<open>rng\<close> on lists; a choice that
  is not a permutation of the entries counts as the order of the list.
\<close>

definition go_range :: "('a list \<Rightarrow> 'a list) \<Rightarrow> 'a list \<Rightarrow> 'a list" where
  "go_range rng xs =
     (if length (rng xs) = length xs \<and> set (rng xs) = set xs then rng xs else xs)"

lemma set_go_range [simp]: "set (go_range rng xs) = set xs"
  by (simp add: go_range_def)

lemma length_go_range [simp]: "length (go_range rng xs) = length xs"
  by (simp add: go_range_def)

lemma distinct_go_range [simp]: "distinct (go_range rng xs) = distinct xs"
  using card_distinct distinct_card set_go_range length_go_range by metis

lemma distinct_map_go_range: "distinct (map f xs) \<Longrightarrow> distinct (map f (go_range rng xs))"
  by (auto simp: distinct_map)

lemma map_of_go_range: "distinct (map fst xs) \<Longrightarrow> map_of (go_range rng xs) = map_of xs"
  by (intro map_of_inject_set [THEN iffD2] distinct_map_go_range) simp_all

section \<open>Errors\<close>

text \<open>
  A function that returns a value or an error: \<open>if err != nil { return err }\<close> is \<open>bind_err\<close>, a loop
  whose body may return an error is \<open>fold_err\<close>.
\<close>

definition bind_err :: "(go_error + 'a) \<Rightarrow> ('a \<Rightarrow> go_error + 'b) \<Rightarrow> go_error + 'b" where
  "bind_err m f = (case m of Inl e \<Rightarrow> Inl e | Inr x \<Rightarrow> f x)"

lemma bind_err_simps [simp]: "bind_err (Inl e) f = Inl e" "bind_err (Inr x) f = f x"
  by (simp_all add: bind_err_def)

fun fold_err :: "('s \<Rightarrow> 'a \<Rightarrow> go_error + 's) \<Rightarrow> 's \<Rightarrow> 'a list \<Rightarrow> go_error + 's" where
  "fold_err f s [] = Inr s"
| "fold_err f s (x # xs) = bind_err (f s x) (\<lambda>s'. fold_err f s' xs)"

lemma fold_err_foldl:
  "(\<And>s x. x \<in> set xs \<Longrightarrow> f s x = Inr (g s x)) \<Longrightarrow> fold_err f s xs = Inr (foldl g s xs)"
  by (induction xs arbitrary: s) simp_all

lemma fold_err_error:
  "f s0 x = Inl e \<Longrightarrow> fold_err f s xs = Inr s0 \<Longrightarrow> fold_err f s (xs @ x # ys) = Inl e"
  by (induction xs arbitrary: s) (auto simp: bind_err_def split: sum.splits)

section \<open>Strings\<close>

text \<open>\<open>strings.Split(s, sep)\<close> for a separator of one byte: at least one part, split at each one.\<close>

fun go_split :: "char \<Rightarrow> string \<Rightarrow> string list" where
  "go_split sep [] = [[]]"
| "go_split sep (c # cs) =
     (if c = sep then [] # go_split sep cs
      else (case go_split sep cs of [] \<Rightarrow> [[c]] | p # ps \<Rightarrow> (c # p) # ps))"

lemma go_split_nonempty [simp]: "go_split sep s \<noteq> []"
  by (induction s) (auto split: list.splits)

lemma go_split_no_sep: "sep \<notin> set s \<Longrightarrow> go_split sep s = [s]"
  by (induction s) auto

lemma go_split_first: "sep \<notin> set p \<Longrightarrow> go_split sep (p @ sep # s) = p # go_split sep s"
  by (induction p) auto

lemma length_go_split: "length (go_split sep s) = Suc (count_list s sep)"
  by (induction s) (auto split: list.splits)

text \<open>\<open>strconv.Itoa\<close> on the natural numbers (counts and indexes are never negative).\<close>

definition digit :: "nat \<Rightarrow> char" where
  "digit d = char_of (48 + d)"

fun itoa :: "nat \<Rightarrow> string" where
  "itoa n = (if n < 10 then [digit n] else itoa (n div 10) @ [digit (n mod 10)])"

declare itoa.simps [simp del]

definition is_digit :: "char \<Rightarrow> bool" where
  "is_digit c \<longleftrightarrow> 48 \<le> (of_char c :: nat) \<and> (of_char c :: nat) \<le> 57"

definition digits_value :: "string \<Rightarrow> nat" where
  "digits_value ds = foldl (\<lambda>n c. 10 * n + (of_char c - 48)) 0 ds"

lemma of_char_digit [simp]: "d < 10 \<Longrightarrow> (of_char (digit d) :: nat) = 48 + d"
  by (simp add: digit_def)

lemma is_digit_digit [simp]: "d < 10 \<Longrightarrow> is_digit (digit d)"
  by (simp add: is_digit_def)

lemma itoa_digits: "c \<in> set (itoa n) \<Longrightarrow> is_digit c"
proof (induction n rule: itoa.induct)
  case (1 n)
  then show ?case
    by (cases "n < 10") (auto simp: itoa.simps [of n])
qed

lemma itoa_nonempty [simp]: "itoa n \<noteq> []"
  by (simp add: itoa.simps [of n])

lemma digits_value_snoc: "digits_value (ds @ [c]) = 10 * digits_value ds + (of_char c - 48)"
  by (simp add: digits_value_def)

text \<open>Printing a number and reading its digits back gives the number.\<close>

lemma digits_value_itoa [simp]: "digits_value (itoa n) = n"
proof (induction n rule: itoa.induct)
  case (1 n)
  show ?case
  proof (cases "n < 10")
    case True
    then show ?thesis by (simp add: itoa.simps [of n] digits_value_def)
  next
    case False
    with "1.IH" show ?thesis by (simp add: itoa.simps [of n] digits_value_snoc)
  qed
qed

section \<open>Machines\<close>

text \<open>
  A machine is a step function on events: \<open>None\<close> when the event is not enabled, a panic or the next
  state otherwise. An invariant is established at the start and kept by every step, which also says
  that no step of it panics.
\<close>

fun run_steps :: "('e \<Rightarrow> 's \<Rightarrow> 's go option) \<Rightarrow> 'e list \<Rightarrow> 's \<Rightarrow> 's go option" where
  "run_steps step [] s = Some (Inr s)"
| "run_steps step (e # es) s =
     (case step e s of
        None \<Rightarrow> None
      | Some (Inl p) \<Rightarrow> Some (Inl p)
      | Some (Inr s') \<Rightarrow> run_steps step es s')"

lemma run_steps_append:
  "run_steps step xs s = Some (Inr t) \<Longrightarrow> run_steps step (xs @ ys) s = run_steps step ys t"
  by (induction xs arbitrary: s) (auto split: option.splits sum.splits)

locale step_invariant =
  fixes initial :: "'s \<Rightarrow> bool"
    and step :: "'e \<Rightarrow> 's \<Rightarrow> 's go option"
    and inv :: "'s \<Rightarrow> bool"
  assumes initial_inv: "initial s \<Longrightarrow> inv s"
    and step_inv: "inv s \<Longrightarrow> step e s = Some r \<Longrightarrow> \<exists>t. r = Inr t \<and> inv t"
begin

lemma step_keeps: "inv s \<Longrightarrow> step e s = Some (Inr t) \<Longrightarrow> inv t"
  using step_inv by fastforce

lemma run_inv: "inv s \<Longrightarrow> run_steps step es s = Some r \<Longrightarrow> \<exists>t. r = Inr t \<and> inv t"
proof (induction es arbitrary: s)
  case Nil
  then show ?case by auto
next
  case (Cons e es)
  then obtain x where x: "step e s = Some x" by (auto split: option.splits)
  with step_inv Cons.prems(1) obtain t where "x = Inr t" "inv t" by blast
  with x Cons show ?case by simp
qed

lemma initial_run_inv: "initial s \<Longrightarrow> run_steps step es s = Some r \<Longrightarrow> \<exists>t. r = Inr t \<and> inv t"
  by (rule run_inv [OF initial_inv])

end

end
