(* ===== verification/Bundles.thy ===== *)
theory Bundles
  imports Bridge_Prelude
begin

text \<open>
  The data the bridge handles (\<open>pkg/bundle\<close>, \<open>pkg/transport\<close>, \<open>pkg/helpers\<close>): the four concrete
  bundles, the objects they carry, their generations and the name of their concrete type. The
  objects' own types come from other repositories; the records hold the fields the bridge reads.
  A bundle carries pointers to its objects, so an object may be nil.
\<close>

section \<open>Objects\<close>

text \<open>A managed cluster: its name, its resource version and the rest of the Kubernetes object.\<close>

record managed_cluster =
  mc_name :: string
  mc_resourceVersion :: string
  mc_body :: string

record clusters_per_policy =
  cpp_PolicyID :: string
  cpp_Clusters :: "string list"

record policy_compliance_status =
  pcs_PolicyID :: string
  pcs_NonCompliantClusters :: "string list"
  pcs_UnknownComplianceClusters :: "string list"

record minimal_policy_compliance_status =
  mpc_PolicyID :: string
  mpc_AppliedClusters :: int
  mpc_NonCompliantClusters :: int

text \<open>The dynamic type and the pointer behind an \<open>interface{}\<close> that \<open>GetObjects\<close> returns.\<close>

datatype bundle_object =
    ObjManagedCluster "managed_cluster option"
  | ObjClustersPerPolicy "clusters_per_policy option"
  | ObjPolicyComplianceStatus "policy_compliance_status option"
  | ObjMinimalPolicyComplianceStatus "minimal_policy_compliance_status option"

section \<open>Bundles\<close>

record managed_clusters_status_bundle =
  mcb_Objects :: "managed_cluster option list"
  mcb_LeafHubName :: string
  mcb_Generation :: u64

record clusters_per_policy_bundle =
  cpb_Objects :: "clusters_per_policy option list"
  cpb_LeafHubName :: string
  cpb_Generation :: u64

record compliance_status_bundle =
  csb_Objects :: "policy_compliance_status option list"
  csb_LeafHubName :: string
  csb_BaseBundleGeneration :: u64
  csb_Generation :: u64

record minimal_compliance_status_bundle =
  msb_Objects :: "minimal_policy_compliance_status option list"
  msb_LeafHubName :: string
  msb_Generation :: u64

text \<open>A value of the interface \<open>bundle.Bundle\<close>: one of the four types that implement it.\<close>

datatype status_bundle =
    ManagedClustersStatusBundle managed_clusters_status_bundle
  | ClustersPerPolicyBundle clusters_per_policy_bundle
  | ComplianceStatusBundle compliance_status_bundle
  | MinimalComplianceStatusBundle minimal_compliance_status_bundle

definition NewManagedClustersStatusBundle :: status_bundle where
  "NewManagedClustersStatusBundle = ManagedClustersStatusBundle
     \<lparr>mcb_Objects = [], mcb_LeafHubName = [], mcb_Generation = 0\<rparr>"

definition NewClustersPerPolicyBundle :: status_bundle where
  "NewClustersPerPolicyBundle = ClustersPerPolicyBundle
     \<lparr>cpb_Objects = [], cpb_LeafHubName = [], cpb_Generation = 0\<rparr>"

definition NewComplianceStatusBundle :: status_bundle where
  "NewComplianceStatusBundle = ComplianceStatusBundle
     \<lparr>csb_Objects = [], csb_LeafHubName = [], csb_BaseBundleGeneration = 0, csb_Generation = 0\<rparr>"

definition NewMinimalComplianceStatusBundle :: status_bundle where
  "NewMinimalComplianceStatusBundle = MinimalComplianceStatusBundle
     \<lparr>msb_Objects = [], msb_LeafHubName = [], msb_Generation = 0\<rparr>"

fun GetLeafHubName :: "status_bundle \<Rightarrow> string" where
  "GetLeafHubName (ManagedClustersStatusBundle b) = mcb_LeafHubName b"
| "GetLeafHubName (ClustersPerPolicyBundle b) = cpb_LeafHubName b"
| "GetLeafHubName (ComplianceStatusBundle b) = csb_LeafHubName b"
| "GetLeafHubName (MinimalComplianceStatusBundle b) = msb_LeafHubName b"

fun GetObjects :: "status_bundle \<Rightarrow> bundle_object list" where
  "GetObjects (ManagedClustersStatusBundle b) = map ObjManagedCluster (mcb_Objects b)"
| "GetObjects (ClustersPerPolicyBundle b) = map ObjClustersPerPolicy (cpb_Objects b)"
| "GetObjects (ComplianceStatusBundle b) = map ObjPolicyComplianceStatus (csb_Objects b)"
| "GetObjects (MinimalComplianceStatusBundle b) =
     map ObjMinimalPolicyComplianceStatus (msb_Objects b)"

fun GetGeneration :: "status_bundle \<Rightarrow> u64" where
  "GetGeneration (ManagedClustersStatusBundle b) = mcb_Generation b"
| "GetGeneration (ClustersPerPolicyBundle b) = cpb_Generation b"
| "GetGeneration (ComplianceStatusBundle b) = csb_Generation b"
| "GetGeneration (MinimalComplianceStatusBundle b) = msb_Generation b"

text \<open>
  The type assertion \<open>b.(bundle.DependantBundle)\<close> followed by \<open>GetDependencyGeneration\<close>: only the
  compliance status bundle has that method, the assertion fails (\<open>None\<close>) on the others.
\<close>

fun GetDependencyGeneration :: "status_bundle \<Rightarrow> u64 option" where
  "GetDependencyGeneration (ComplianceStatusBundle b) = Some (csb_BaseBundleGeneration b)"
| "GetDependencyGeneration _ = None"

section \<open>Type names\<close>

text \<open>What \<open>fmt.Sprintf("%T", b)\<close> prints for the pointer to each of the four structs.\<close>

fun go_type_name :: "status_bundle \<Rightarrow> string" where
  "go_type_name (ManagedClustersStatusBundle _) = ''*bundle.ManagedClustersStatusBundle''"
| "go_type_name (ClustersPerPolicyBundle _) = ''*bundle.ClustersPerPolicyBundle''"
| "go_type_name (ComplianceStatusBundle _) = ''*bundle.ComplianceStatusBundle''"
| "go_type_name (MinimalComplianceStatusBundle _) = ''*bundle.MinimalComplianceStatusBundle''"

text \<open>\<open>array[len(array)-1]\<close>: the split has at least one part, so the index is in range.\<close>

definition GetBundleType :: "status_bundle \<Rightarrow> string" where
  "GetBundleType b = (let parts = go_split CHR ''.'' (go_type_name b) in parts ! (length parts - 1))"

lemma GetBundleType_simps [simp]:
  "GetBundleType (ManagedClustersStatusBundle m) = ''ManagedClustersStatusBundle''"
  "GetBundleType (ClustersPerPolicyBundle c) = ''ClustersPerPolicyBundle''"
  "GetBundleType (ComplianceStatusBundle s) = ''ComplianceStatusBundle''"
  "GetBundleType (MinimalComplianceStatusBundle n) = ''MinimalComplianceStatusBundle''"
  by (simp_all add: GetBundleType_def Let_def)

section \<open>Transport metadata\<close>

text \<open>
  The metadata of a bundle in the transport: the sync service hands over its object metadata, of
  which the bridge reads the object id.
\<close>

record object_meta_data =
  omd_ObjectID :: string

end
