(* ===== verification/Batch_Builder.thy ===== *)
theory Batch_Builder
  imports Bundles
begin

text \<open>
  The batch builders (\<open>pkg/db/postgresql/batch\<close>): they turn row operations into a few SQL statements
  with numbered arguments. The batch itself belongs to the database driver; the field \<open>bb_batch\<close> is
  the sequence of \<open>Queue\<close> calls made on it, each the statement's text and its arguments.
\<close>

section \<open>The base builder\<close>

text \<open>An argument of a statement: a string, the payload of a cluster or a count.\<close>

datatype db_arg = ArgString string | ArgCluster managed_cluster | ArgInt int

type_synonym queued = "string \<times> db_arg list"

text \<open>The function set by \<open>setUpdateStatementFunc\<close>: nil, or a method value of one of the builders.\<close>

datatype generate_statement_func =
    NoStatementFunc
  | ManagedClustersUpdateStatement
  | PolicyComplianceUpdateStatement

record base_batch_builder =
  bb_batch :: "queued list"
  bb_schema :: string
  bb_tableName :: string
  bb_tableSpecialColumns :: "nat \<rightharpoonup> string"
  bb_leafHubName :: string
  bb_insertArgs :: "db_arg list"
  bb_insertRowsCount :: nat
  bb_updateArgs :: "db_arg list"
  bb_updateRowsCount :: nat
  bb_generateUpdateStatement :: generate_statement_func
  bb_deleteArgs :: "db_arg list"
  bb_deleteRowsCount :: nat
  bb_deleteRowKey :: string

definition maxArgsInStatement :: nat where
  "maxArgsInStatement = 50000"

definition deleteStartingIndex :: nat where
  "deleteStartingIndex = 2"

definition newBaseBatchBuilder ::
  "string \<Rightarrow> string \<Rightarrow> (nat \<rightharpoonup> string) \<Rightarrow> string \<Rightarrow> string \<Rightarrow> base_batch_builder" where
  "newBaseBatchBuilder schema tableName special leafHubName deleteRowKey =
     \<lparr>bb_batch = [], bb_schema = schema, bb_tableName = tableName, bb_tableSpecialColumns = special,
      bb_leafHubName = leafHubName, bb_insertArgs = [], bb_insertRowsCount = 0, bb_updateArgs = [],
      bb_updateRowsCount = 0, bb_generateUpdateStatement = NoStatementFunc,
      bb_deleteArgs = [ArgString leafHubName], bb_deleteRowsCount = 0,
      bb_deleteRowKey = deleteRowKey\<rparr>"

definition setUpdateStatementFunc ::
  "generate_statement_func \<Rightarrow> base_batch_builder \<Rightarrow> base_batch_builder" where
  "setUpdateStatementFunc f b = b\<lparr>bb_generateUpdateStatement := f\<rparr>"

section \<open>Argument lists\<close>

definition generateArg :: "nat \<Rightarrow> nat \<Rightarrow> (nat \<rightharpoonup> string) \<Rightarrow> nat \<Rightarrow> string" where
  "generateArg argsCount startingIndex special i =
     ''$'' @ itoa (i + startingIndex) @
     (case special (i + 1) of None \<Rightarrow> '''' | Some t \<Rightarrow> ''::'' @ t) @
     (if i < argsCount - 1 then '', '' else '''')"

definition generateArgsList :: "nat \<Rightarrow> nat \<Rightarrow> (nat \<rightharpoonup> string) \<Rightarrow> string" where
  "generateArgsList argsCount startingIndex special =
     concat (map (generateArg argsCount startingIndex special) [0..<argsCount])"

definition generateInsertOrUpdateArgs :: "nat \<Rightarrow> nat \<Rightarrow> (nat \<rightharpoonup> string) \<Rightarrow> string" where
  "generateInsertOrUpdateArgs rowsCount columnsCount special =
     concat (map (\<lambda>i. ''('' @ generateArgsList columnsCount (i * columnsCount + 1) special @ '')'' @
                      (if i < rowsCount - 1 then '', '' else ''''))
                 [0..<rowsCount])"

text \<open>A division of counts, with the panic of Go on zero.\<close>

definition go_div :: "nat \<Rightarrow> nat \<Rightarrow> nat go" where
  "go_div a b = (if b = 0 then Inl DivideByZero else Inr (a div b))"

lemma go_div_pos [simp]: "0 < b \<Longrightarrow> go_div a b = Inr (a div b)"
  by (simp add: go_div_def)

section \<open>Statements\<close>

definition insert_sql :: "string \<Rightarrow> string \<Rightarrow> (nat \<rightharpoonup> string) \<Rightarrow> nat \<Rightarrow> nat \<Rightarrow> string" where
  "insert_sql schema tableName special rows columns =
     ''INSERT into '' @ schema @ ''.'' @ tableName @ '' values '' @
     generateInsertOrUpdateArgs rows columns special"

definition generateInsertStatement :: "base_batch_builder \<Rightarrow> string go" where
  "generateInsertStatement b =
     bind_go (go_div (length (bb_insertArgs b)) (bb_insertRowsCount b)) (\<lambda>columnsCount.
       Inr (insert_sql (bb_schema b) (bb_tableName b) (bb_tableSpecialColumns b)
              (bb_insertRowsCount b) columnsCount))"

definition delete_sql :: "string \<Rightarrow> string \<Rightarrow> string \<Rightarrow> nat \<Rightarrow> string" where
  "delete_sql schema tableName key rows =
     ''DELETE from '' @ schema @ ''.'' @ tableName @ '' WHERE leaf_hub_name=$1 AND '' @ key @
     '' IN ('' @ generateArgsList rows deleteStartingIndex Map.empty @ '')''"

definition generateDeleteStatement :: "base_batch_builder \<Rightarrow> string" where
  "generateDeleteStatement b =
     delete_sql (bb_schema b) (bb_tableName b) (bb_deleteRowKey b) (bb_deleteRowsCount b)"

text \<open>\<open>ManagedClustersBatchBuilder.generateUpdateStatement\<close>\<close>

definition mc_update_sql :: "string \<Rightarrow> string \<Rightarrow> (nat \<rightharpoonup> string) \<Rightarrow> nat \<Rightarrow> nat \<Rightarrow> string" where
  "mc_update_sql schema tableName special rows columns =
     ''UPDATE '' @ schema @ ''.'' @ tableName @ '' AS old SET payload=new.payload FROM (values '' @
     generateInsertOrUpdateArgs rows columns special @
     '') AS new(leaf_hub_name,payload,cluster_name) '' @
     ''WHERE old.leaf_hub_name=new.leaf_hub_name '' @
     ''AND old.payload->'' @ [CHR 0x27] @ ''metadata'' @ [CHR 0x27] @ ''->>'' @ [CHR 0x27] @ ''name'' @
     [CHR 0x27] @ ''=new.cluster_name''"

definition mc_generateUpdateStatement :: "base_batch_builder \<Rightarrow> string go" where
  "mc_generateUpdateStatement b =
     bind_go (go_div (length (bb_updateArgs b)) (bb_updateRowsCount b)) (\<lambda>numberOfColumns.
       Inr (mc_update_sql (bb_schema b) (bb_tableName b) (bb_tableSpecialColumns b)
              (bb_updateRowsCount b) numberOfColumns))"

definition policyUUIDColumnIndex :: nat where "policyUUIDColumnIndex = 1"
definition updatePolicyComplianceTypeColumnIndex :: nat where "updatePolicyComplianceTypeColumnIndex = 3"
definition updateClusterComplianceTypeColumnIndex :: nat where "updateClusterComplianceTypeColumnIndex = 4"
definition deleteClusterCompliancePrefixArgsCount :: nat where "deleteClusterCompliancePrefixArgsCount = 2"

text \<open>\<open>db.UUID\<close>, \<open>db.Jsonb\<close> and \<open>db.StatusComplianceType\<close>\<close>

definition UUID :: string where "UUID = ''uuid''"
definition Jsonb :: string where "Jsonb = ''jsonb''"
definition StatusComplianceType :: string where "StatusComplianceType = ''status.compliance_type''"

text \<open>\<open>PoliciesBatchBuilder.generateUpdatePolicyComplianceStatement\<close>\<close>

definition policy_update_sql :: "string \<Rightarrow> string \<Rightarrow> nat \<Rightarrow> nat \<Rightarrow> string" where
  "policy_update_sql schema tableName rows columns =
     ''UPDATE '' @ schema @ ''.'' @ tableName @ '' AS old SET compliance=new.compliance FROM (values '' @
     generateInsertOrUpdateArgs rows columns
       [policyUUIDColumnIndex \<mapsto> UUID, updatePolicyComplianceTypeColumnIndex \<mapsto> StatusComplianceType] @
     '') AS new(id,leaf_hub_name,compliance) '' @
     ''WHERE old.leaf_hub_name=new.leaf_hub_name AND old.id=new.id''"

definition generateUpdatePolicyComplianceStatement :: "base_batch_builder \<Rightarrow> string go" where
  "generateUpdatePolicyComplianceStatement b =
     bind_go (go_div (length (bb_updateArgs b)) (bb_updateRowsCount b)) (\<lambda>numberOfColumns.
       Inr (policy_update_sql (bb_schema b) (bb_tableName b) (bb_updateRowsCount b) numberOfColumns))"

definition call_generateUpdateStatement :: "base_batch_builder \<Rightarrow> string go" where
  "call_generateUpdateStatement b =
     (case bb_generateUpdateStatement b of
        NoStatementFunc \<Rightarrow> Inl NilDereference
      | ManagedClustersUpdateStatement \<Rightarrow> mc_generateUpdateStatement b
      | PolicyComplianceUpdateStatement \<Rightarrow> generateUpdatePolicyComplianceStatement b)"

section \<open>Row operations of the base builder\<close>

definition batch_queue :: "base_batch_builder \<Rightarrow> string \<Rightarrow> db_arg list \<Rightarrow> base_batch_builder" where
  "batch_queue b sql args = b\<lparr>bb_batch := bb_batch b @ [(sql, args)]\<rparr>"

definition base_insert :: "db_arg list \<Rightarrow> base_batch_builder \<Rightarrow> base_batch_builder go" where
  "base_insert insertArgs b0 =
     (let b = b0\<lparr>bb_insertArgs := bb_insertArgs b0 @ insertArgs,
                 bb_insertRowsCount := bb_insertRowsCount b0 + 1\<rparr>
      in if length (bb_insertArgs b) > maxArgsInStatement
         then bind_go (generateInsertStatement b) (\<lambda>sql.
                Inr ((batch_queue b sql (bb_insertArgs b))\<lparr>bb_insertArgs := [], bb_insertRowsCount := 0\<rparr>))
         else Inr b)"

definition base_update :: "db_arg list \<Rightarrow> base_batch_builder \<Rightarrow> base_batch_builder go" where
  "base_update updateArgs b0 =
     (let b = b0\<lparr>bb_updateArgs := bb_updateArgs b0 @ updateArgs,
                 bb_updateRowsCount := bb_updateRowsCount b0 + 1\<rparr>
      in if length (bb_updateArgs b) > maxArgsInStatement
         then bind_go (call_generateUpdateStatement b) (\<lambda>sql.
                Inr ((batch_queue b sql (bb_updateArgs b))\<lparr>bb_updateArgs := [], bb_updateRowsCount := 0\<rparr>))
         else Inr b)"

definition base_delete :: "db_arg list \<Rightarrow> base_batch_builder \<Rightarrow> base_batch_builder" where
  "base_delete deleteArgs b0 =
     (let b = b0\<lparr>bb_deleteArgs := bb_deleteArgs b0 @ deleteArgs,
                 bb_deleteRowsCount := bb_deleteRowsCount b0 + 1\<rparr>
      in if length (bb_deleteArgs b) > maxArgsInStatement
         then (batch_queue b (generateDeleteStatement b) (bb_deleteArgs b))
                \<lparr>bb_deleteArgs := [ArgString (bb_leafHubName b)], bb_deleteRowsCount := 0\<rparr>
         else b)"

definition base_build :: "base_batch_builder \<Rightarrow> base_batch_builder go" where
  "base_build b0 =
     bind_go (if bb_insertRowsCount b0 > 0
              then bind_go (generateInsertStatement b0) (\<lambda>sql. Inr (batch_queue b0 sql (bb_insertArgs b0)))
              else Inr b0) (\<lambda>b1.
     bind_go (if bb_updateRowsCount b1 > 0
              then bind_go (call_generateUpdateStatement b1) (\<lambda>sql. Inr (batch_queue b1 sql (bb_updateArgs b1)))
              else Inr b1) (\<lambda>b2.
     Inr (if bb_deleteRowsCount b2 > 0
          then batch_queue b2 (generateDeleteStatement b2) (bb_deleteArgs b2)
          else b2)))"

section \<open>The managed clusters builder\<close>

definition managedClustersJsonbColumnIndex :: nat where "managedClustersJsonbColumnIndex = 2"

definition managedClustersDeleteRowKey :: string where
  "managedClustersDeleteRowKey =
     ''payload->'' @ [CHR 0x27] @ ''metadata'' @ [CHR 0x27] @ ''->>'' @ [CHR 0x27] @ ''name'' @ [CHR 0x27]"

definition NewManagedClustersBatchBuilder :: "string \<Rightarrow> string \<Rightarrow> string \<Rightarrow> base_batch_builder" where
  "NewManagedClustersBatchBuilder schema tableName leafHubName =
     setUpdateStatementFunc ManagedClustersUpdateStatement
       (newBaseBatchBuilder schema tableName [managedClustersJsonbColumnIndex \<mapsto> Jsonb] leafHubName
          managedClustersDeleteRowKey)"

definition mc_Insert :: "managed_cluster \<Rightarrow> string \<Rightarrow> base_batch_builder \<Rightarrow> base_batch_builder go" where
  "mc_Insert payload errorString b =
     base_insert [ArgString (bb_leafHubName b), ArgCluster payload, ArgString errorString] b"

definition mc_Update :: "string \<Rightarrow> managed_cluster \<Rightarrow> base_batch_builder \<Rightarrow> base_batch_builder go" where
  "mc_Update clusterName payload b =
     base_update [ArgString (bb_leafHubName b), ArgCluster payload, ArgString clusterName] b"

definition mc_Delete :: "string \<Rightarrow> base_batch_builder \<Rightarrow> base_batch_builder go" where
  "mc_Delete clusterName b = Inr (base_delete [ArgString clusterName] b)"

definition mc_Build :: "base_batch_builder \<Rightarrow> queued list go" where
  "mc_Build b = bind_go (base_build b) (\<lambda>b'. Inr (bb_batch b'))"

section \<open>The policies builder\<close>

text \<open>
  \<open>pb_deleteClusterComplianceArgs\<close> is a Go map, kept as an association list; the order in which
  \<open>range\<close> visits it is chosen at run time and is the argument \<open>rng\<close> of \<open>Build\<close>.
\<close>

record policies_batch_builder =
  pb_base :: base_batch_builder
  pb_updateClusterComplianceArgs :: "db_arg list"
  pb_updateClusterComplianceRowsCount :: nat
  pb_deleteClusterComplianceArgs :: "(string \<times> db_arg list) list"

definition policyDeleteRowKey :: string where "policyDeleteRowKey = ''id''"

definition NewPoliciesBatchBuilder :: "string \<Rightarrow> string \<Rightarrow> string \<Rightarrow> policies_batch_builder" where
  "NewPoliciesBatchBuilder schema tableName leafHubName =
     \<lparr>pb_base = setUpdateStatementFunc PolicyComplianceUpdateStatement
        (newBaseBatchBuilder schema tableName [policyUUIDColumnIndex \<mapsto> UUID] leafHubName policyDeleteRowKey),
      pb_updateClusterComplianceArgs = [], pb_updateClusterComplianceRowsCount = 0,
      pb_deleteClusterComplianceArgs = []\<rparr>"

definition cluster_update_sql :: "string \<Rightarrow> string \<Rightarrow> nat \<Rightarrow> nat \<Rightarrow> string" where
  "cluster_update_sql schema tableName rows columns =
     ''UPDATE '' @ schema @ ''.'' @ tableName @ '' AS old SET compliance=new.compliance FROM (values '' @
     generateInsertOrUpdateArgs rows columns
       [policyUUIDColumnIndex \<mapsto> UUID, updateClusterComplianceTypeColumnIndex \<mapsto> StatusComplianceType] @
     '') AS new(id,cluster_name,leaf_hub_name,compliance) '' @
     ''WHERE old.leaf_hub_name=new.leaf_hub_name '' @
     ''AND old.id=new.id AND old.cluster_name=new.cluster_name''"

definition generateUpdateClusterComplianceStatement :: "policies_batch_builder \<Rightarrow> string go" where
  "generateUpdateClusterComplianceStatement b =
     bind_go (go_div (length (pb_updateClusterComplianceArgs b)) (pb_updateClusterComplianceRowsCount b))
       (\<lambda>columnCount.
          Inr (cluster_update_sql (bb_schema (pb_base b)) (bb_tableName (pb_base b))
                 (pb_updateClusterComplianceRowsCount b) columnCount))"

definition cluster_delete_sql :: "string \<Rightarrow> string \<Rightarrow> nat \<Rightarrow> string" where
  "cluster_delete_sql schema tableName clusters =
     ''DELETE from '' @ schema @ ''.'' @ tableName @
     '' WHERE leaf_hub_name=$1 AND id=$2 AND cluster_name IN ('' @
     generateArgsList clusters (deleteClusterCompliancePrefixArgsCount + 1) Map.empty @ '')''"

definition deleteClusterArgs :: "policies_batch_builder \<Rightarrow> string \<Rightarrow> db_arg list" where
  "deleteClusterArgs b policyID =
     (case map_of (pb_deleteClusterComplianceArgs b) policyID of None \<Rightarrow> [] | Some args \<Rightarrow> args)"

definition generateDeleteClusterComplianceStatement :: "policies_batch_builder \<Rightarrow> string \<Rightarrow> string" where
  "generateDeleteClusterComplianceStatement b policyID =
     cluster_delete_sql (bb_schema (pb_base b)) (bb_tableName (pb_base b))
       (length (deleteClusterArgs b policyID) - deleteClusterCompliancePrefixArgsCount)"

definition pb_Insert ::
  "string \<Rightarrow> string \<Rightarrow> string \<Rightarrow> string \<Rightarrow> policies_batch_builder \<Rightarrow> policies_batch_builder go" where
  "pb_Insert policyID clusterName errorString compliance b =
     bind_go (base_insert [ArgString policyID, ArgString clusterName, ArgString (bb_leafHubName (pb_base b)),
                           ArgString errorString, ArgString compliance] (pb_base b))
       (\<lambda>base. Inr (b\<lparr>pb_base := base\<rparr>))"

definition pb_UpdatePolicyCompliance ::
  "string \<Rightarrow> string \<Rightarrow> policies_batch_builder \<Rightarrow> policies_batch_builder go" where
  "pb_UpdatePolicyCompliance policyID compliance b =
     bind_go (base_update [ArgString policyID, ArgString (bb_leafHubName (pb_base b)), ArgString compliance]
                (pb_base b))
       (\<lambda>base. Inr (b\<lparr>pb_base := base\<rparr>))"

definition pb_UpdateClusterCompliance ::
  "string \<Rightarrow> string \<Rightarrow> string \<Rightarrow> policies_batch_builder \<Rightarrow> policies_batch_builder go" where
  "pb_UpdateClusterCompliance policyID clusterName compliance b0 =
     (let b = b0\<lparr>pb_updateClusterComplianceArgs := pb_updateClusterComplianceArgs b0 @
                   [ArgString policyID, ArgString clusterName, ArgString (bb_leafHubName (pb_base b0)),
                    ArgString compliance],
                 pb_updateClusterComplianceRowsCount := pb_updateClusterComplianceRowsCount b0 + 1\<rparr>
      in if length (pb_updateClusterComplianceArgs b) > maxArgsInStatement
         then bind_go (generateUpdateClusterComplianceStatement b) (\<lambda>sql.
                Inr (b\<lparr>pb_base := batch_queue (pb_base b) sql (pb_updateClusterComplianceArgs b),
                       pb_updateClusterComplianceArgs := [], pb_updateClusterComplianceRowsCount := 0\<rparr>))
         else Inr b)"

definition pb_DeletePolicy :: "string \<Rightarrow> policies_batch_builder \<Rightarrow> policies_batch_builder go" where
  "pb_DeletePolicy policyID b = Inr (b\<lparr>pb_base := base_delete [ArgString policyID] (pb_base b)\<rparr>)"

definition pb_DeleteClusterStatus ::
  "string \<Rightarrow> string \<Rightarrow> policies_batch_builder \<Rightarrow> policies_batch_builder go" where
  "pb_DeleteClusterStatus policyID clusterName b =
     (let args = (case map_of (pb_deleteClusterComplianceArgs b) policyID of
                    None \<Rightarrow> [ArgString (bb_leafHubName (pb_base b)), ArgString policyID]
                  | Some args \<Rightarrow> args)
      in Inr (b\<lparr>pb_deleteClusterComplianceArgs :=
           AList.update policyID (args @ [ArgString clusterName]) (pb_deleteClusterComplianceArgs b)\<rparr>))"

definition pb_Build ::
  "((string \<times> db_arg list) list \<Rightarrow> (string \<times> db_arg list) list) \<Rightarrow> policies_batch_builder \<Rightarrow>
   queued list go" where
  "pb_Build rng b0 =
     bind_go (base_build (pb_base b0)) (\<lambda>base.
     bind_go (if pb_updateClusterComplianceRowsCount b0 > 0
              then bind_go (generateUpdateClusterComplianceStatement (b0\<lparr>pb_base := base\<rparr>)) (\<lambda>sql.
                     Inr (batch_queue base sql (pb_updateClusterComplianceArgs b0)))
              else Inr base) (\<lambda>base'.
     Inr (bb_batch (foldl (\<lambda>batch (policyID, _).
            batch_queue batch (generateDeleteClusterComplianceStatement b0 policyID)
              (deleteClusterArgs b0 policyID))
          base' (go_range rng (pb_deleteClusterComplianceArgs b0))))))"

end
