(* ===== verification/Batch_Rows.thy ===== *)
theory Batch_Rows
  imports Batch_Builder
begin

text \<open>
  What the base builder keeps: its batch is the rendering of a list of abstract statements, each a
  non-empty list of rows of bounded size, and its pending arguments are the encoding of pending rows.
  Rows are never lost, duplicated or reordered within their kind. Both builders instantiate the
  \<open>layout\<close>: how a row is encoded and which text a statement has.
\<close>

section \<open>Abstract statements\<close>

datatype ('i, 'u, 'x) stmt =
    SInsert "'i list"
  | SUpdate "'u list"
  | SDelete "string list"
  | SExtra 'x

record ('i, 'u, 'x) layout =
  l_schema :: string
  l_table :: string
  l_special :: "nat \<rightharpoonup> string"
  l_leafHub :: string
  l_deleteKey :: string
  l_insertWidth :: nat
  l_insertRow :: "'i \<Rightarrow> db_arg list"
  l_updateWidth :: nat
  l_updateRow :: "'u \<Rightarrow> db_arg list"
  l_updateFunc :: generate_statement_func
  l_updateSql :: "nat \<Rightarrow> nat \<Rightarrow> string"
  l_extra :: "'x \<Rightarrow> queued"
  l_extraFits :: "'x \<Rightarrow> bool"

fun render :: "('i, 'u, 'x) layout \<Rightarrow> ('i, 'u, 'x) stmt \<Rightarrow> queued" where
  "render L (SInsert rows) =
     (insert_sql (l_schema L) (l_table L) (l_special L) (length rows) (l_insertWidth L),
      concat (map (l_insertRow L) rows))"
| "render L (SUpdate rows) =
     (l_updateSql L (length rows) (l_updateWidth L), concat (map (l_updateRow L) rows))"
| "render L (SDelete keys) =
     (delete_sql (l_schema L) (l_table L) (l_deleteKey L) (length keys),
      ArgString (l_leafHub L) # map ArgString keys)"
| "render L (SExtra x) = l_extra L x"

text \<open>Non-empty, and at most one row above the limit on arguments.\<close>

fun fits :: "('i, 'u, 'x) layout \<Rightarrow> ('i, 'u, 'x) stmt \<Rightarrow> bool" where
  "fits L (SInsert rows) \<longleftrightarrow>
     rows \<noteq> [] \<and> length rows * l_insertWidth L \<le> maxArgsInStatement + l_insertWidth L"
| "fits L (SUpdate rows) \<longleftrightarrow>
     rows \<noteq> [] \<and> length rows * l_updateWidth L \<le> maxArgsInStatement + l_updateWidth L"
| "fits L (SDelete keys) \<longleftrightarrow> keys \<noteq> [] \<and> length keys \<le> maxArgsInStatement"
| "fits L (SExtra x) \<longleftrightarrow> l_extraFits L x"

definition inserted_rows :: "('i, 'u, 'x) stmt list \<Rightarrow> 'i list" where
  "inserted_rows ss = concat (map (\<lambda>s. case s of SInsert rows \<Rightarrow> rows | _ \<Rightarrow> []) ss)"

definition updated_rows :: "('i, 'u, 'x) stmt list \<Rightarrow> 'u list" where
  "updated_rows ss = concat (map (\<lambda>s. case s of SUpdate rows \<Rightarrow> rows | _ \<Rightarrow> []) ss)"

definition deleted_keys :: "('i, 'u, 'x) stmt list \<Rightarrow> string list" where
  "deleted_keys ss = concat (map (\<lambda>s. case s of SDelete keys \<Rightarrow> keys | _ \<Rightarrow> []) ss)"

definition extras :: "('i, 'u, 'x) stmt list \<Rightarrow> 'x list" where
  "extras ss = concat (map (\<lambda>s. case s of SExtra x \<Rightarrow> [x] | _ \<Rightarrow> []) ss)"

lemma rows_simps [simp]:
  "inserted_rows [] = []" "updated_rows [] = []" "deleted_keys [] = []" "extras [] = []"
  "inserted_rows (ss @ ss') = inserted_rows ss @ inserted_rows ss'"
  "updated_rows (ss @ ss') = updated_rows ss @ updated_rows ss'"
  "deleted_keys (ss @ ss') = deleted_keys ss @ deleted_keys ss'"
  "extras (ss @ ss') = extras ss @ extras ss'"
  "inserted_rows (s # ss) = (case s of SInsert rows \<Rightarrow> rows | _ \<Rightarrow> []) @ inserted_rows ss"
  "updated_rows (s # ss) = (case s of SUpdate rows \<Rightarrow> rows | _ \<Rightarrow> []) @ updated_rows ss"
  "deleted_keys (s # ss) = (case s of SDelete keys \<Rightarrow> keys | _ \<Rightarrow> []) @ deleted_keys ss"
  "extras (s # ss) = (case s of SExtra x \<Rightarrow> [x] | _ \<Rightarrow> []) @ extras ss"
  by (simp_all add: inserted_rows_def updated_rows_def deleted_keys_def extras_def)

section \<open>The relation between a builder and the rows it holds\<close>

definition layout_ok :: "('i, 'u, 'x) layout \<Rightarrow> bool" where
  "layout_ok L \<longleftrightarrow>
     0 < l_insertWidth L \<and> (\<forall>r. length (l_insertRow L r) = l_insertWidth L) \<and>
     0 < l_updateWidth L \<and> (\<forall>r. length (l_updateRow L r) = l_updateWidth L) \<and>
     (\<forall>b. bb_generateUpdateStatement b = l_updateFunc L \<and> bb_schema b = l_schema L \<and>
        bb_tableName b = l_table L \<and> bb_tableSpecialColumns b = l_special L \<and>
        0 < bb_updateRowsCount b \<longrightarrow>
        call_generateUpdateStatement b =
          Inr (l_updateSql L (bb_updateRowsCount b) (length (bb_updateArgs b) div bb_updateRowsCount b)))"

definition of_layout :: "('i, 'u, 'x) layout \<Rightarrow> base_batch_builder \<Rightarrow> bool" where
  "of_layout L b \<longleftrightarrow>
     bb_schema b = l_schema L \<and> bb_tableName b = l_table L \<and>
     bb_tableSpecialColumns b = l_special L \<and> bb_leafHubName b = l_leafHub L \<and>
     bb_generateUpdateStatement b = l_updateFunc L \<and> bb_deleteRowKey b = l_deleteKey L"

definition base_rel ::
  "('i, 'u, 'x) layout \<Rightarrow> base_batch_builder \<Rightarrow> ('i, 'u, 'x) stmt list \<Rightarrow>
   'i list \<Rightarrow> 'u list \<Rightarrow> string list \<Rightarrow> bool" where
  "base_rel L b ss pi pu pd \<longleftrightarrow>
     of_layout L b \<and> bb_batch b = map (render L) ss \<and> list_all (fits L) ss \<and>
     bb_insertArgs b = concat (map (l_insertRow L) pi) \<and> bb_insertRowsCount b = length pi \<and>
     length pi * l_insertWidth L \<le> maxArgsInStatement \<and>
     bb_updateArgs b = concat (map (l_updateRow L) pu) \<and> bb_updateRowsCount b = length pu \<and>
     length pu * l_updateWidth L \<le> maxArgsInStatement \<and>
     bb_deleteArgs b = ArgString (l_leafHub L) # map ArgString pd \<and> bb_deleteRowsCount b = length pd \<and>
     Suc (length pd) \<le> maxArgsInStatement"

lemma length_concat_rows:
  "(\<And>r. length (f r) = w) \<Longrightarrow> length (concat (map f rows)) = length rows * w"
  by (induction rows) simp_all

lemma of_layout_frame [simp]:
  "of_layout L (b\<lparr>bb_batch := q\<rparr>) = of_layout L b"
  "of_layout L (b\<lparr>bb_insertArgs := xs\<rparr>) = of_layout L b"
  "of_layout L (b\<lparr>bb_insertRowsCount := n\<rparr>) = of_layout L b"
  "of_layout L (b\<lparr>bb_updateArgs := xs\<rparr>) = of_layout L b"
  "of_layout L (b\<lparr>bb_updateRowsCount := n\<rparr>) = of_layout L b"
  "of_layout L (b\<lparr>bb_deleteArgs := xs\<rparr>) = of_layout L b"
  "of_layout L (b\<lparr>bb_deleteRowsCount := n\<rparr>) = of_layout L b"
  by (simp_all add: of_layout_def)

lemma base_rel_queue:
  assumes "base_rel L b ss pi pu pd" "fits L s"
  shows "base_rel L (batch_queue b (fst (render L s)) (snd (render L s))) (ss @ [s]) pi pu pd"
  using assms by (simp add: base_rel_def batch_queue_def)

lemma insert_columns:
  assumes "layout_ok L" "rows \<noteq> []"
  shows "length (concat (map (l_insertRow L) rows)) div length rows = l_insertWidth L"
  using assms length_concat_rows [of "l_insertRow L" "l_insertWidth L" rows]
  by (simp add: layout_ok_def)

lemma update_columns:
  assumes "layout_ok L" "rows \<noteq> []"
  shows "length (concat (map (l_updateRow L) rows)) div length rows = l_updateWidth L"
  using assms length_concat_rows [of "l_updateRow L" "l_updateWidth L" rows]
  by (simp add: layout_ok_def)

lemma generateInsertStatement_eq:
  assumes ok: "layout_ok L" and of: "of_layout L b" and rows: "rows \<noteq> []"
    and b: "bb_insertArgs b = concat (map (l_insertRow L) rows)" "bb_insertRowsCount b = length rows"
  shows "generateInsertStatement b = Inr (fst (render L (SInsert rows)))"
  using of rows b insert_columns [OF ok rows] by (simp add: generateInsertStatement_def of_layout_def)

lemma generateUpdateStatement_eq:
  assumes ok: "layout_ok L" and of: "of_layout L b" and rows: "rows \<noteq> []"
    and b: "bb_updateArgs b = concat (map (l_updateRow L) rows)" "bb_updateRowsCount b = length rows"
  shows "call_generateUpdateStatement b = Inr (fst (render L (SUpdate rows)))"
proof -
  have "call_generateUpdateStatement b =
      Inr (l_updateSql L (bb_updateRowsCount b) (length (bb_updateArgs b) div bb_updateRowsCount b))"
    using ok of rows b(2) by (simp add: layout_ok_def of_layout_def)
  then show ?thesis using b update_columns [OF ok rows] by simp
qed

lemma generateDeleteStatement_eq:
  assumes "of_layout L b" "bb_deleteRowsCount b = length keys"
  shows "generateDeleteStatement b = fst (render L (SDelete keys))"
  using assms by (simp add: generateDeleteStatement_def of_layout_def)

section \<open>The operations keep the relation\<close>

lemma base_insert_rel:
  assumes ok: "layout_ok L" and rel: "base_rel L b ss pi pu pd"
  shows "\<exists>b' ss' pi'. base_insert (l_insertRow L r) b = Inr b' \<and> base_rel L b' ss' pi' pu pd \<and>
     inserted_rows ss' @ pi' = inserted_rows ss @ pi @ [r] \<and>
     updated_rows ss' = updated_rows ss \<and> deleted_keys ss' = deleted_keys ss \<and> extras ss' = extras ss"
proof -
  let ?rows = "pi @ [r]"
  let ?b = "b\<lparr>bb_insertArgs := bb_insertArgs b @ l_insertRow L r,
              bb_insertRowsCount := bb_insertRowsCount b + 1\<rparr>"
  have b: "bb_insertArgs ?b = concat (map (l_insertRow L) ?rows)" "bb_insertRowsCount ?b = length ?rows"
    and of: "of_layout L ?b"
    using rel by (simp_all add: base_rel_def)
  have len: "length (bb_insertArgs ?b) = length ?rows * l_insertWidth L"
    unfolding b using ok by (intro length_concat_rows) (simp add: layout_ok_def)
  show ?thesis
  proof (cases "length (bb_insertArgs ?b) > maxArgsInStatement")
    case True
    let ?b' = "(batch_queue ?b (fst (render L (SInsert ?rows))) (snd (render L (SInsert ?rows))))
                 \<lparr>bb_insertArgs := [], bb_insertRowsCount := 0\<rparr>"
    have "base_insert (l_insertRow L r) b = Inr ?b'"
      using True b generateInsertStatement_eq [OF ok of _ b] by (simp add: base_insert_def Let_def)
    moreover have "fits L (SInsert ?rows)" using rel by (simp add: base_rel_def)
    then have "base_rel L ?b' (ss @ [SInsert ?rows]) [] pu pd"
      using rel by (simp add: base_rel_def batch_queue_def)
    ultimately show ?thesis
      by (intro exI [of _ ?b'] exI [of _ "ss @ [SInsert ?rows]"] exI [of _ "[]"]) simp
  next
    case False
    then have "base_insert (l_insertRow L r) b = Inr ?b" by (simp add: base_insert_def Let_def)
    moreover have "base_rel L ?b ss ?rows pu pd"
      using rel False len b by (simp add: base_rel_def)
    ultimately show ?thesis by (intro exI [of _ ?b] exI [of _ ss] exI [of _ ?rows]) simp
  qed
qed

lemma base_update_rel:
  assumes ok: "layout_ok L" and rel: "base_rel L b ss pi pu pd"
  shows "\<exists>b' ss' pu'. base_update (l_updateRow L r) b = Inr b' \<and> base_rel L b' ss' pi pu' pd \<and>
     updated_rows ss' @ pu' = updated_rows ss @ pu @ [r] \<and>
     inserted_rows ss' = inserted_rows ss \<and> deleted_keys ss' = deleted_keys ss \<and> extras ss' = extras ss"
proof -
  let ?rows = "pu @ [r]"
  let ?b = "b\<lparr>bb_updateArgs := bb_updateArgs b @ l_updateRow L r,
              bb_updateRowsCount := bb_updateRowsCount b + 1\<rparr>"
  have b: "bb_updateArgs ?b = concat (map (l_updateRow L) ?rows)" "bb_updateRowsCount ?b = length ?rows"
    and of: "of_layout L ?b"
    using rel by (simp_all add: base_rel_def)
  have len: "length (bb_updateArgs ?b) = length ?rows * l_updateWidth L"
    unfolding b using ok by (intro length_concat_rows) (simp add: layout_ok_def)
  show ?thesis
  proof (cases "length (bb_updateArgs ?b) > maxArgsInStatement")
    case True
    let ?b' = "(batch_queue ?b (fst (render L (SUpdate ?rows))) (snd (render L (SUpdate ?rows))))
                 \<lparr>bb_updateArgs := [], bb_updateRowsCount := 0\<rparr>"
    have "base_update (l_updateRow L r) b = Inr ?b'"
      using True b generateUpdateStatement_eq [OF ok of _ b] by (simp add: base_update_def Let_def)
    moreover have "fits L (SUpdate ?rows)" using rel by (simp add: base_rel_def)
    then have "base_rel L ?b' (ss @ [SUpdate ?rows]) pi [] pd"
      using rel by (simp add: base_rel_def batch_queue_def)
    ultimately show ?thesis
      by (intro exI [of _ ?b'] exI [of _ "ss @ [SUpdate ?rows]"] exI [of _ "[]"]) simp
  next
    case False
    then have "base_update (l_updateRow L r) b = Inr ?b" by (simp add: base_update_def Let_def)
    moreover have "base_rel L ?b ss pi ?rows pd"
      using rel False len b by (simp add: base_rel_def)
    ultimately show ?thesis by (intro exI [of _ ?b] exI [of _ ss] exI [of _ ?rows]) simp
  qed
qed

lemma base_delete_rel:
  assumes rel: "base_rel L b ss pi pu pd"
  shows "\<exists>b' ss' pd'. base_delete [ArgString k] b = b' \<and> base_rel L b' ss' pi pu pd' \<and>
     deleted_keys ss' @ pd' = deleted_keys ss @ pd @ [k] \<and>
     inserted_rows ss' = inserted_rows ss \<and> updated_rows ss' = updated_rows ss \<and> extras ss' = extras ss"
proof -
  let ?keys = "pd @ [k]"
  let ?b = "b\<lparr>bb_deleteArgs := bb_deleteArgs b @ [ArgString k],
              bb_deleteRowsCount := bb_deleteRowsCount b + 1\<rparr>"
  have b: "bb_deleteArgs ?b = ArgString (l_leafHub L) # map ArgString ?keys"
      "bb_deleteRowsCount ?b = length ?keys"
    and of: "of_layout L ?b"
    using rel by (simp_all add: base_rel_def)
  show ?thesis
  proof (cases "length (bb_deleteArgs ?b) > maxArgsInStatement")
    case True
    let ?b' = "(batch_queue ?b (fst (render L (SDelete ?keys))) (snd (render L (SDelete ?keys))))
                 \<lparr>bb_deleteArgs := [ArgString (l_leafHub L)], bb_deleteRowsCount := 0\<rparr>"
    have "base_delete [ArgString k] b = ?b'"
      using True b generateDeleteStatement_eq [OF of b(2)] of
      by (simp add: base_delete_def Let_def of_layout_def)
    moreover have "fits L (SDelete ?keys)" using rel by (simp add: base_rel_def)
    moreover have "Suc 0 \<le> maxArgsInStatement" by (simp add: maxArgsInStatement_def)
    then have "base_rel L ?b' (ss @ [SDelete ?keys]) pi pu []"
      using rel calculation(2) by (simp add: base_rel_def batch_queue_def)
    ultimately show ?thesis
      by (intro exI [of _ ?b'] exI [of _ "ss @ [SDelete ?keys]"] exI [of _ "[]"]) simp
  next
    case False
    then have "base_delete [ArgString k] b = ?b" by (simp add: base_delete_def Let_def)
    moreover have "base_rel L ?b ss pi pu ?keys"
      using rel False b by (simp add: base_rel_def)
    ultimately show ?thesis by (intro exI [of _ ?b] exI [of _ ss] exI [of _ ?keys]) simp
  qed
qed

text \<open>\<open>build\<close> queues what is pending, inserts first, then updates, then deletes.\<close>

definition pending :: "'i list \<Rightarrow> 'u list \<Rightarrow> string list \<Rightarrow> ('i, 'u, 'x) stmt list" where
  "pending pi pu pd =
     (if pi = [] then [] else [SInsert pi]) @ (if pu = [] then [] else [SUpdate pu]) @
     (if pd = [] then [] else [SDelete pd])"

lemma pending_rows [simp]:
  "inserted_rows (pending pi pu pd) = pi" "updated_rows (pending pi pu pd) = pu"
  "deleted_keys (pending pi pu pd) = pd" "extras (pending pi pu pd) = []"
  by (simp_all add: pending_def)

lemma base_build_rel:
  assumes ok: "layout_ok L" and rel: "base_rel L b ss pi pu pd"
  shows "base_build b = Inr (b\<lparr>bb_batch := map (render L) (ss @ pending pi pu pd)\<rparr>)"
    and "list_all (fits L) (ss @ pending pi pu pd)"
proof -
  have of: "of_layout L b" using rel by (simp add: base_rel_def)
  have ofq: "of_layout L (batch_queue c sql args) = of_layout L c" for c sql args
    by (simp add: batch_queue_def)
  have ins: "generateInsertStatement b = Inr (fst (render L (SInsert pi)))" if "pi \<noteq> []"
    by (rule generateInsertStatement_eq [OF ok of that]) (use rel in \<open>simp_all add: base_rel_def\<close>)
  have upd: "call_generateUpdateStatement c = Inr (fst (render L (SUpdate pu)))"
    if "pu \<noteq> []" "of_layout L c" "bb_updateArgs c = bb_updateArgs b"
      "bb_updateRowsCount c = bb_updateRowsCount b" for c
    by (rule generateUpdateStatement_eq [OF ok that(2,1)]) (use rel that in \<open>simp_all add: base_rel_def\<close>)
  have del: "generateDeleteStatement c = fst (render L (SDelete pd))"
    if "of_layout L c" "bb_deleteRowsCount c = bb_deleteRowsCount b" for c
    by (rule generateDeleteStatement_eq [OF that(1)]) (use rel that in \<open>simp add: base_rel_def\<close>)
  have counts: "bb_insertRowsCount b = length pi" "bb_updateRowsCount b = length pu"
      "bb_deleteRowsCount b = length pd"
    and args: "bb_insertArgs b = snd (render L (SInsert pi))" "bb_updateArgs b = snd (render L (SUpdate pu))"
      "bb_deleteArgs b = snd (render L (SDelete pd))" "bb_batch b = map (render L) ss"
    using rel by (simp_all add: base_rel_def)
  show "base_build b = Inr (b\<lparr>bb_batch := map (render L) (ss @ pending pi pu pd)\<rparr>)"
    using of counts args
    by (cases "pi = []"; cases "pu = []"; cases "pd = []")
       (simp_all add: base_build_def ins upd del ofq pending_def batch_queue_def)
  show "list_all (fits L) (ss @ pending pi pu pd)"
    using rel by (auto simp: base_rel_def pending_def)
qed

lemma new_base_rel:
  assumes "of_layout L b" "bb_batch b = []" "bb_insertArgs b = []" "bb_insertRowsCount b = 0"
    "bb_updateArgs b = []" "bb_updateRowsCount b = 0" "bb_deleteArgs b = [ArgString (l_leafHub L)]"
    "bb_deleteRowsCount b = 0"
  shows "base_rel L b [] [] [] []"
  using assms by (simp add: base_rel_def maxArgsInStatement_def)

end
