(* ===== verification/Batch_Contracts.thy ===== *)
theory Batch_Contracts
  imports Batch_Rows
begin

text \<open>
  The interfaces of \<open>pkg/db/batch_builder.go\<close> as locales, in the hierarchy of the Go interfaces, and
  the PostgreSQL builders as their providers. The contract of a builder: it holds the row changes it
  was given, per kind and in order, and \<open>Build\<close> returns a batch that carries exactly those changes.
\<close>

section \<open>The interfaces\<close>

record cluster_changes =
  cc_inserted :: "(managed_cluster \<times> string) list"
  cc_updated :: "(string \<times> managed_cluster) list"
  cc_deleted :: "string list"

definition no_cluster_changes :: cluster_changes where
  "no_cluster_changes = \<lparr>cc_inserted = [], cc_updated = [], cc_deleted = []\<rparr>"

text \<open>
  Rows of policies: \<open>(policy, cluster, error, compliance)\<close> inserted, \<open>(policy, compliance)\<close> and
  \<open>(policy, cluster, compliance)\<close> updated, policies deleted, and the clusters deleted per policy.
\<close>

record policy_changes =
  pc_inserted :: "(string \<times> string \<times> string \<times> string) list"
  pc_updatedPolicies :: "(string \<times> string) list"
  pc_updatedClusters :: "(string \<times> string \<times> string) list"
  pc_deletedPolicies :: "string list"
  pc_deletedClusters :: "string \<Rightarrow> string list"

definition no_policy_changes :: policy_changes where
  "no_policy_changes = \<lparr>pc_inserted = [], pc_updatedPolicies = [], pc_updatedClusters = [],
     pc_deletedPolicies = [], pc_deletedClusters = (\<lambda>_. [])\<rparr>"

locale batch_builder =
  fixes Build :: "'b \<Rightarrow> 'q go"
    and holds :: "'b \<Rightarrow> 'c \<Rightarrow> bool"
    and carries :: "'q \<Rightarrow> 'c \<Rightarrow> bool"
  assumes build: "holds b c \<Longrightarrow> \<exists>q. Build b = Inr q \<and> carries q c"
begin

lemma build_returns: "holds b c \<Longrightarrow> Build b \<noteq> Inl p"
  using build by fastforce

end

locale managed_clusters_batch_builder = batch_builder Build holds carries
  for Build :: "'b \<Rightarrow> 'q go"
    and holds :: "'b \<Rightarrow> cluster_changes \<Rightarrow> bool"
    and carries :: "'q \<Rightarrow> cluster_changes \<Rightarrow> bool" +
  fixes Insert :: "managed_cluster \<Rightarrow> string \<Rightarrow> 'b \<Rightarrow> 'b go"
    and Update :: "string \<Rightarrow> managed_cluster \<Rightarrow> 'b \<Rightarrow> 'b go"
    and Delete :: "string \<Rightarrow> 'b \<Rightarrow> 'b go"
  assumes insert: "holds b c \<Longrightarrow>
      \<exists>b'. Insert payload err b = Inr b' \<and>
        holds b' (c\<lparr>cc_inserted := cc_inserted c @ [(payload, err)]\<rparr>)"
    and update: "holds b c \<Longrightarrow>
      \<exists>b'. Update name payload b = Inr b' \<and>
        holds b' (c\<lparr>cc_updated := cc_updated c @ [(name, payload)]\<rparr>)"
    and delete: "holds b c \<Longrightarrow>
      \<exists>b'. Delete name b = Inr b' \<and> holds b' (c\<lparr>cc_deleted := cc_deleted c @ [name]\<rparr>)"
begin

lemma delete_all:
  "holds b c \<Longrightarrow>
     \<exists>b'. fold_go (\<lambda>b k. Delete k b) b ks = Inr b' \<and> holds b' (c\<lparr>cc_deleted := cc_deleted c @ ks\<rparr>)"
proof (induction ks arbitrary: b c)
  case Nil
  then show ?case by simp
next
  case (Cons k ks)
  obtain b1 where b1: "Delete k b = Inr b1" "holds b1 (c\<lparr>cc_deleted := cc_deleted c @ [k]\<rparr>)"
    using delete [OF Cons.prems] by blast
  from Cons.IH [OF b1(2)] b1(1) show ?case by simp
qed

end

locale policies_batch_builder_contract = batch_builder Build holds carries
  for Build :: "'b \<Rightarrow> 'q go"
    and holds :: "'b \<Rightarrow> policy_changes \<Rightarrow> bool"
    and carries :: "'q \<Rightarrow> policy_changes \<Rightarrow> bool" +
  fixes Insert :: "string \<Rightarrow> string \<Rightarrow> string \<Rightarrow> string \<Rightarrow> 'b \<Rightarrow> 'b go"
    and UpdatePolicyCompliance :: "string \<Rightarrow> string \<Rightarrow> 'b \<Rightarrow> 'b go"
    and UpdateClusterCompliance :: "string \<Rightarrow> string \<Rightarrow> string \<Rightarrow> 'b \<Rightarrow> 'b go"
    and DeletePolicy :: "string \<Rightarrow> 'b \<Rightarrow> 'b go"
    and DeleteClusterStatus :: "string \<Rightarrow> string \<Rightarrow> 'b \<Rightarrow> 'b go"
  assumes insert: "holds b c \<Longrightarrow>
      \<exists>b'. Insert p cl err st b = Inr b' \<and>
        holds b' (c\<lparr>pc_inserted := pc_inserted c @ [(p, cl, err, st)]\<rparr>)"
    and update_policy: "holds b c \<Longrightarrow>
      \<exists>b'. UpdatePolicyCompliance p st b = Inr b' \<and>
        holds b' (c\<lparr>pc_updatedPolicies := pc_updatedPolicies c @ [(p, st)]\<rparr>)"
    and update_cluster: "holds b c \<Longrightarrow>
      \<exists>b'. UpdateClusterCompliance p cl st b = Inr b' \<and>
        holds b' (c\<lparr>pc_updatedClusters := pc_updatedClusters c @ [(p, cl, st)]\<rparr>)"
    and delete_policy: "holds b c \<Longrightarrow>
      \<exists>b'. DeletePolicy p b = Inr b' \<and>
        holds b' (c\<lparr>pc_deletedPolicies := pc_deletedPolicies c @ [p]\<rparr>)"
    and delete_cluster: "holds b c \<Longrightarrow>
      \<exists>b'. DeleteClusterStatus p cl b = Inr b' \<and>
        holds b' (c\<lparr>pc_deletedClusters := (pc_deletedClusters c)(p := pc_deletedClusters c p @ [cl])\<rparr>)"

section \<open>The PostgreSQL builder of managed clusters\<close>

definition mc_layout ::
  "string \<Rightarrow> string \<Rightarrow> string \<Rightarrow> (managed_cluster \<times> string, string \<times> managed_cluster, unit) layout" where
  "mc_layout schema tableName lh =
     \<lparr>l_schema = schema, l_table = tableName, l_special = [managedClustersJsonbColumnIndex \<mapsto> Jsonb],
      l_leafHub = lh, l_deleteKey = managedClustersDeleteRowKey,
      l_insertWidth = 3, l_insertRow = (\<lambda>(c, e). [ArgString lh, ArgCluster c, ArgString e]),
      l_updateWidth = 3, l_updateRow = (\<lambda>(n, c). [ArgString lh, ArgCluster c, ArgString n]),
      l_updateFunc = ManagedClustersUpdateStatement,
      l_updateSql = mc_update_sql schema tableName [managedClustersJsonbColumnIndex \<mapsto> Jsonb],
      l_extra = (\<lambda>_. ([], [])), l_extraFits = (\<lambda>_. False)\<rparr>"

definition cluster_changes_of ::
  "(managed_cluster \<times> string, string \<times> managed_cluster, unit) stmt list \<Rightarrow> cluster_changes" where
  "cluster_changes_of ss =
     \<lparr>cc_inserted = inserted_rows ss, cc_updated = updated_rows ss, cc_deleted = deleted_keys ss\<rparr>"

definition mc_holds ::
  "string \<Rightarrow> string \<Rightarrow> string \<Rightarrow> base_batch_builder \<Rightarrow> cluster_changes \<Rightarrow> bool" where
  "mc_holds schema tableName lh b c \<longleftrightarrow>
     (\<exists>ss pi pu pd. base_rel (mc_layout schema tableName lh) b ss pi pu pd \<and>
        c = cluster_changes_of (ss @ pending pi pu pd))"

definition mc_carries ::
  "string \<Rightarrow> string \<Rightarrow> string \<Rightarrow> queued list \<Rightarrow> cluster_changes \<Rightarrow> bool" where
  "mc_carries schema tableName lh q c \<longleftrightarrow>
     (\<exists>ss. q = map (render (mc_layout schema tableName lh)) ss \<and>
        list_all (fits (mc_layout schema tableName lh)) ss \<and> c = cluster_changes_of ss)"

lemma mc_layout_ok: "layout_ok (mc_layout schema tableName lh)"
  by (auto simp: layout_ok_def mc_layout_def call_generateUpdateStatement_def
      mc_generateUpdateStatement_def split: prod.split)

lemma mc_layout_simps [simp]:
  "l_leafHub (mc_layout schema tableName lh) = lh"
  "l_insertRow (mc_layout schema tableName lh) (c, e) = [ArgString lh, ArgCluster c, ArgString e]"
  "l_updateRow (mc_layout schema tableName lh) (n, c) = [ArgString lh, ArgCluster c, ArgString n]"
  by (simp_all add: mc_layout_def)

lemma base_rel_leafHub: "base_rel L b ss pi pu pd \<Longrightarrow> bb_leafHubName b = l_leafHub L"
  by (simp add: base_rel_def of_layout_def)

lemma mc_holds_new:
  "mc_holds schema tableName lh (NewManagedClustersBatchBuilder schema tableName lh) no_cluster_changes"
proof -
  have "base_rel (mc_layout schema tableName lh) (NewManagedClustersBatchBuilder schema tableName lh)
      [] [] [] []"
    by (rule new_base_rel)
       (simp_all add: NewManagedClustersBatchBuilder_def newBaseBatchBuilder_def
         setUpdateStatementFunc_def of_layout_def mc_layout_def)
  then show ?thesis
    unfolding mc_holds_def
    by (intro exI [of _ "[]"]) (simp add: no_cluster_changes_def cluster_changes_of_def pending_def)
qed

interpretation mc: managed_clusters_batch_builder mc_Build
  "mc_holds schema tableName lh" "mc_carries schema tableName lh" mc_Insert mc_Update mc_Delete
proof unfold_locales
  let ?L = "mc_layout schema tableName lh"
  fix b c assume "mc_holds schema tableName lh b c"
  then obtain ss pi pu pd where rel: "base_rel ?L b ss pi pu pd"
    and c: "c = cluster_changes_of (ss @ pending pi pu pd)"
    unfolding mc_holds_def by blast
  show "\<exists>q. mc_Build b = Inr q \<and> mc_carries schema tableName lh q c"
    unfolding mc_carries_def mc_Build_def base_build_rel(1) [OF mc_layout_ok rel]
    using base_build_rel(2) [OF mc_layout_ok rel] c
    by (intro exI [of _ "map (render ?L) (ss @ pending pi pu pd)"] conjI
        exI [of _ "ss @ pending pi pu pd"]) simp_all
  fix payload err
  have "mc_Insert payload err b = base_insert (l_insertRow ?L (payload, err)) b"
    using base_rel_leafHub [OF rel] by (simp add: mc_Insert_def)
  with base_insert_rel [OF mc_layout_ok rel, of "(payload, err)"] c
  show "\<exists>b'. mc_Insert payload err b = Inr b' \<and>
      mc_holds schema tableName lh b' (c\<lparr>cc_inserted := cc_inserted c @ [(payload, err)]\<rparr>)"
    by (fastforce simp: mc_holds_def cluster_changes_of_def)
next
  let ?L = "mc_layout schema tableName lh"
  fix b c name payload assume "mc_holds schema tableName lh b c"
  then obtain ss pi pu pd where rel: "base_rel ?L b ss pi pu pd"
    and c: "c = cluster_changes_of (ss @ pending pi pu pd)"
    unfolding mc_holds_def by blast
  have "mc_Update name payload b = base_update (l_updateRow ?L (name, payload)) b"
    using base_rel_leafHub [OF rel] by (simp add: mc_Update_def)
  with base_update_rel [OF mc_layout_ok rel, of "(name, payload)"] c
  show "\<exists>b'. mc_Update name payload b = Inr b' \<and>
      mc_holds schema tableName lh b' (c\<lparr>cc_updated := cc_updated c @ [(name, payload)]\<rparr>)"
    by (fastforce simp: mc_holds_def cluster_changes_of_def)
next
  let ?L = "mc_layout schema tableName lh"
  fix b c name assume "mc_holds schema tableName lh b c"
  then obtain ss pi pu pd where rel: "base_rel ?L b ss pi pu pd"
    and c: "c = cluster_changes_of (ss @ pending pi pu pd)"
    unfolding mc_holds_def by blast
  with base_delete_rel [OF rel, of name]
  show "\<exists>b'. mc_Delete name b = Inr b' \<and>
      mc_holds schema tableName lh b' (c\<lparr>cc_deleted := cc_deleted c @ [name]\<rparr>)"
    by (fastforce simp: mc_holds_def cluster_changes_of_def mc_Delete_def)
qed

section \<open>The PostgreSQL builder of policies\<close>

text \<open>The two statements of this builder that the base builder does not have.\<close>

datatype policy_extra =
    UpdateClusters "(string \<times> string \<times> string) list"
  | DeleteClusters string "string list"

definition cluster_update_row :: "string \<Rightarrow> string \<times> string \<times> string \<Rightarrow> db_arg list" where
  "cluster_update_row lh = (\<lambda>(p, cl, st). [ArgString p, ArgString cl, ArgString lh, ArgString st])"

definition cluster_delete_args :: "string \<Rightarrow> string \<Rightarrow> string list \<Rightarrow> db_arg list" where
  "cluster_delete_args lh p cls = ArgString lh # ArgString p # map ArgString cls"

fun render_extra :: "string \<Rightarrow> string \<Rightarrow> string \<Rightarrow> policy_extra \<Rightarrow> queued" where
  "render_extra schema tableName lh (UpdateClusters rows) =
     (cluster_update_sql schema tableName (length rows) 4, concat (map (cluster_update_row lh) rows))"
| "render_extra schema tableName lh (DeleteClusters p cls) =
     (cluster_delete_sql schema tableName (length cls), cluster_delete_args lh p cls)"

fun extra_fits :: "policy_extra \<Rightarrow> bool" where
  "extra_fits (UpdateClusters rows) \<longleftrightarrow> rows \<noteq> [] \<and> length rows * 4 \<le> maxArgsInStatement + 4"
| "extra_fits (DeleteClusters p cls) \<longleftrightarrow> cls \<noteq> []"

definition pb_layout ::
  "string \<Rightarrow> string \<Rightarrow> string \<Rightarrow>
   (string \<times> string \<times> string \<times> string, string \<times> string, policy_extra) layout" where
  "pb_layout schema tableName lh =
     \<lparr>l_schema = schema, l_table = tableName, l_special = [policyUUIDColumnIndex \<mapsto> UUID],
      l_leafHub = lh, l_deleteKey = policyDeleteRowKey,
      l_insertWidth = 5,
      l_insertRow = (\<lambda>(p, cl, e, st). [ArgString p, ArgString cl, ArgString lh, ArgString e, ArgString st]),
      l_updateWidth = 3, l_updateRow = (\<lambda>(p, st). [ArgString p, ArgString lh, ArgString st]),
      l_updateFunc = PolicyComplianceUpdateStatement,
      l_updateSql = policy_update_sql schema tableName,
      l_extra = render_extra schema tableName lh, l_extraFits = extra_fits\<rparr>"

definition extra_updates :: "policy_extra list \<Rightarrow> (string \<times> string \<times> string) list" where
  "extra_updates xs = concat (map (\<lambda>x. case x of UpdateClusters rows \<Rightarrow> rows | _ \<Rightarrow> []) xs)"

definition extra_deletes :: "policy_extra list \<Rightarrow> string \<Rightarrow> string list" where
  "extra_deletes xs p =
     concat (map (\<lambda>x. case x of DeleteClusters p' cls \<Rightarrow> if p' = p then cls else [] | _ \<Rightarrow> []) xs)"

lemma extra_simps [simp]:
  "extra_updates [] = []" "extra_deletes [] p = []"
  "extra_updates (xs @ ys) = extra_updates xs @ extra_updates ys"
  "extra_deletes (xs @ ys) p = extra_deletes xs p @ extra_deletes ys p"
  "extra_updates (x # xs) = (case x of UpdateClusters rows \<Rightarrow> rows | _ \<Rightarrow> []) @ extra_updates xs"
  "extra_deletes (x # xs) p =
     (case x of DeleteClusters p' cls \<Rightarrow> if p' = p then cls else [] | _ \<Rightarrow> []) @ extra_deletes xs p"
  by (simp_all add: extra_updates_def extra_deletes_def)

definition policy_changes_of ::
  "(string \<times> string \<times> string \<times> string, string \<times> string, policy_extra) stmt list \<Rightarrow> policy_changes" where
  "policy_changes_of ss =
     \<lparr>pc_inserted = inserted_rows ss, pc_updatedPolicies = updated_rows ss,
      pc_updatedClusters = extra_updates (extras ss), pc_deletedPolicies = deleted_keys ss,
      pc_deletedClusters = extra_deletes (extras ss)\<rparr>"

text \<open>The clusters to delete are kept per policy, in a map, until \<open>Build\<close>.\<close>

definition deletes_rel ::
  "string \<Rightarrow> (string \<times> db_arg list) list \<Rightarrow> (string \<Rightarrow> string list) \<Rightarrow> bool" where
  "deletes_rel lh m f \<longleftrightarrow>
     distinct (map fst m) \<and>
     (\<forall>p. map_of m p = (if f p = [] then None else Some (cluster_delete_args lh p (f p))))"

definition pb_pending ::
  "(string \<times> string \<times> string) list \<Rightarrow>
   (string \<times> string \<times> string \<times> string, string \<times> string, policy_extra) stmt list" where
  "pb_pending pc = (if pc = [] then [] else [SExtra (UpdateClusters pc)])"

definition pb_holds ::
  "string \<Rightarrow> string \<Rightarrow> string \<Rightarrow> policies_batch_builder \<Rightarrow> policy_changes \<Rightarrow> bool" where
  "pb_holds schema tableName lh b c \<longleftrightarrow>
     (\<exists>ss pi pu pd pc f.
        base_rel (pb_layout schema tableName lh) (pb_base b) ss pi pu pd \<and>
        pb_updateClusterComplianceArgs b = concat (map (cluster_update_row lh) pc) \<and>
        pb_updateClusterComplianceRowsCount b = length pc \<and>
        length pc * 4 \<le> maxArgsInStatement \<and>
        deletes_rel lh (pb_deleteClusterComplianceArgs b) f \<and>
        (\<forall>p. extra_deletes (extras ss) p = []) \<and>
        c = (policy_changes_of (ss @ pending pi pu pd @ pb_pending pc))\<lparr>pc_deletedClusters := f\<rparr>)"

definition pb_carries ::
  "string \<Rightarrow> string \<Rightarrow> string \<Rightarrow> queued list \<Rightarrow> policy_changes \<Rightarrow> bool" where
  "pb_carries schema tableName lh q c \<longleftrightarrow>
     (\<exists>ss. q = map (render (pb_layout schema tableName lh)) ss \<and>
        list_all (fits (pb_layout schema tableName lh)) ss \<and> c = policy_changes_of ss)"

lemma pb_layout_ok: "layout_ok (pb_layout schema tableName lh)"
  by (auto simp: layout_ok_def pb_layout_def call_generateUpdateStatement_def
      generateUpdatePolicyComplianceStatement_def split: prod.split)

lemma pb_layout_simps [simp]:
  "l_leafHub (pb_layout schema tableName lh) = lh"
  "l_insertRow (pb_layout schema tableName lh) (p, cl, e, st) =
     [ArgString p, ArgString cl, ArgString lh, ArgString e, ArgString st]"
  "l_updateRow (pb_layout schema tableName lh) (p, st) = [ArgString p, ArgString lh, ArgString st]"
  "l_extra (pb_layout schema tableName lh) = render_extra schema tableName lh"
  "l_extraFits (pb_layout schema tableName lh) = extra_fits"
  "l_schema (pb_layout schema tableName lh) = schema"
  "l_table (pb_layout schema tableName lh) = tableName"
  by (simp_all add: pb_layout_def)

lemma pb_pending_rows [simp]:
  "inserted_rows (pb_pending pc) = []" "updated_rows (pb_pending pc) = []"
  "deleted_keys (pb_pending pc) = []" "extra_updates (extras (pb_pending pc)) = pc"
  "extra_deletes (extras (pb_pending pc)) p = []"
  by (simp_all add: pb_pending_def)

end
