(* ===== verification/Policies_Batch.thy ===== *)
theory Policies_Batch
  imports Batch_Contracts
begin

text \<open>
  The PostgreSQL policies builder provides the contract of \<open>db.PoliciesBatchBuilder\<close>: one lemma per
  operation, then the interpretation. The order in which \<open>Build\<close> visits the map of clusters to delete
  is any permutation of its entries.
\<close>

lemma pb_holdsE:
  assumes "pb_holds schema tableName lh b c"
  obtains ss pi pu pd pc f where
    "base_rel (pb_layout schema tableName lh) (pb_base b) ss pi pu pd"
    "pb_updateClusterComplianceArgs b = concat (map (cluster_update_row lh) pc)"
    "pb_updateClusterComplianceRowsCount b = length pc" "length pc * 4 \<le> maxArgsInStatement"
    "deletes_rel lh (pb_deleteClusterComplianceArgs b) f" "\<forall>p. extra_deletes (extras ss) p = []"
    "c = (policy_changes_of (ss @ pending pi pu pd @ pb_pending pc))\<lparr>pc_deletedClusters := f\<rparr>"
  using assms unfolding pb_holds_def by blast

lemma pb_leafHub: "base_rel (pb_layout schema tableName lh) base ss pi pu pd \<Longrightarrow> bb_leafHubName base = lh"
  by (drule base_rel_leafHub) simp

lemma pb_holds_new:
  "pb_holds schema tableName lh (NewPoliciesBatchBuilder schema tableName lh) no_policy_changes"
proof -
  have "base_rel (pb_layout schema tableName lh) (pb_base (NewPoliciesBatchBuilder schema tableName lh))
      [] [] [] []"
    by (rule new_base_rel)
       (simp_all add: NewPoliciesBatchBuilder_def newBaseBatchBuilder_def
         setUpdateStatementFunc_def of_layout_def pb_layout_def)
  then show ?thesis
    unfolding pb_holds_def
    by (intro exI [of _ "[]"] exI [of _ "\<lambda>_. []"])
       (simp add: no_policy_changes_def policy_changes_of_def pending_def NewPoliciesBatchBuilder_def
         deletes_rel_def pb_pending_def)
qed

lemma pb_Insert_rel:
  assumes "pb_holds schema tableName lh b c"
  shows "\<exists>b'. pb_Insert p cl err st b = Inr b' \<and>
     pb_holds schema tableName lh b' (c\<lparr>pc_inserted := pc_inserted c @ [(p, cl, err, st)]\<rparr>)"
  using assms
proof (rule pb_holdsE)
  let ?L = "pb_layout schema tableName lh"
  fix ss pi pu pd pc f
  assume rel: "base_rel ?L (pb_base b) ss pi pu pd"
    and rest: "pb_updateClusterComplianceArgs b = concat (map (cluster_update_row lh) pc)"
    "pb_updateClusterComplianceRowsCount b = length pc" "length pc * 4 \<le> maxArgsInStatement"
    "deletes_rel lh (pb_deleteClusterComplianceArgs b) f" "\<forall>p. extra_deletes (extras ss) p = []"
    and c: "c = (policy_changes_of (ss @ pending pi pu pd @ pb_pending pc))\<lparr>pc_deletedClusters := f\<rparr>"
  obtain base' ss' pi' where "base_insert (l_insertRow ?L (p, cl, err, st)) (pb_base b) = Inr base'"
      "base_rel ?L base' ss' pi' pu pd" "inserted_rows ss' @ pi' = inserted_rows ss @ pi @ [(p, cl, err, st)]"
      "updated_rows ss' = updated_rows ss" "deleted_keys ss' = deleted_keys ss" "extras ss' = extras ss"
    using base_insert_rel [OF pb_layout_ok rel, of "(p, cl, err, st)"] by blast
  with rest c pb_leafHub [OF rel] show ?thesis
    unfolding pb_holds_def
    by (intro exI [of _ "b\<lparr>pb_base := base'\<rparr>"] conjI exI [of _ ss'] exI [of _ pi'] exI [of _ pu]
        exI [of _ pd] exI [of _ pc] exI [of _ f])
       (simp_all add: pb_Insert_def policy_changes_of_def)
qed

lemma pb_UpdatePolicy_rel:
  assumes "pb_holds schema tableName lh b c"
  shows "\<exists>b'. pb_UpdatePolicyCompliance p st b = Inr b' \<and>
     pb_holds schema tableName lh b' (c\<lparr>pc_updatedPolicies := pc_updatedPolicies c @ [(p, st)]\<rparr>)"
  using assms
proof (rule pb_holdsE)
  let ?L = "pb_layout schema tableName lh"
  fix ss pi pu pd pc f
  assume rel: "base_rel ?L (pb_base b) ss pi pu pd"
    and rest: "pb_updateClusterComplianceArgs b = concat (map (cluster_update_row lh) pc)"
    "pb_updateClusterComplianceRowsCount b = length pc" "length pc * 4 \<le> maxArgsInStatement"
    "deletes_rel lh (pb_deleteClusterComplianceArgs b) f" "\<forall>p. extra_deletes (extras ss) p = []"
    and c: "c = (policy_changes_of (ss @ pending pi pu pd @ pb_pending pc))\<lparr>pc_deletedClusters := f\<rparr>"
  obtain base' ss' pu' where "base_update (l_updateRow ?L (p, st)) (pb_base b) = Inr base'"
      "base_rel ?L base' ss' pi pu' pd" "updated_rows ss' @ pu' = updated_rows ss @ pu @ [(p, st)]"
      "inserted_rows ss' = inserted_rows ss" "deleted_keys ss' = deleted_keys ss" "extras ss' = extras ss"
    using base_update_rel [OF pb_layout_ok rel, of "(p, st)"] by blast
  with rest c pb_leafHub [OF rel] show ?thesis
    unfolding pb_holds_def
    by (intro exI [of _ "b\<lparr>pb_base := base'\<rparr>"] conjI exI [of _ ss'] exI [of _ pi] exI [of _ pu']
        exI [of _ pd] exI [of _ pc] exI [of _ f])
       (simp_all add: pb_UpdatePolicyCompliance_def policy_changes_of_def)
qed

lemma pb_DeletePolicy_rel:
  assumes "pb_holds schema tableName lh b c"
  shows "\<exists>b'. pb_DeletePolicy p b = Inr b' \<and>
     pb_holds schema tableName lh b' (c\<lparr>pc_deletedPolicies := pc_deletedPolicies c @ [p]\<rparr>)"
  using assms
proof (rule pb_holdsE)
  let ?L = "pb_layout schema tableName lh"
  fix ss pi pu pd pc f
  assume rel: "base_rel ?L (pb_base b) ss pi pu pd"
    and rest: "pb_updateClusterComplianceArgs b = concat (map (cluster_update_row lh) pc)"
    "pb_updateClusterComplianceRowsCount b = length pc" "length pc * 4 \<le> maxArgsInStatement"
    "deletes_rel lh (pb_deleteClusterComplianceArgs b) f" "\<forall>p. extra_deletes (extras ss) p = []"
    and c: "c = (policy_changes_of (ss @ pending pi pu pd @ pb_pending pc))\<lparr>pc_deletedClusters := f\<rparr>"
  obtain ss' pd' where "base_rel ?L (base_delete [ArgString p] (pb_base b)) ss' pi pu pd'"
      "deleted_keys ss' @ pd' = deleted_keys ss @ pd @ [p]"
      "inserted_rows ss' = inserted_rows ss" "updated_rows ss' = updated_rows ss" "extras ss' = extras ss"
    using base_delete_rel [OF rel, of p] by blast
  with rest c show ?thesis
    unfolding pb_holds_def
    by (intro exI [of _ "b\<lparr>pb_base := base_delete [ArgString p] (pb_base b)\<rparr>"] conjI exI [of _ ss']
        exI [of _ pi] exI [of _ pu] exI [of _ pd'] exI [of _ pc] exI [of _ f])
       (simp_all add: pb_DeletePolicy_def policy_changes_of_def)
qed

lemma length_cluster_updates: "length (concat (map (cluster_update_row lh) rows)) = length rows * 4"
  by (rule length_concat_rows) (auto simp: cluster_update_row_def)

lemma generateUpdateClusterCompliance_eq:
  assumes "pb_updateClusterComplianceArgs b = concat (map (cluster_update_row lh) rows)"
    "pb_updateClusterComplianceRowsCount b = length rows" "rows \<noteq> []"
    "bb_schema (pb_base b) = schema" "bb_tableName (pb_base b) = tableName"
  shows "generateUpdateClusterComplianceStatement b =
    Inr (fst (render_extra schema tableName lh (UpdateClusters rows)))"
  using assms by (simp add: generateUpdateClusterComplianceStatement_def length_cluster_updates)

lemma pb_UpdateCluster_rel:
  assumes "pb_holds schema tableName lh b c"
  shows "\<exists>b'. pb_UpdateClusterCompliance p cl st b = Inr b' \<and>
     pb_holds schema tableName lh b' (c\<lparr>pc_updatedClusters := pc_updatedClusters c @ [(p, cl, st)]\<rparr>)"
  using assms
proof (rule pb_holdsE)
  let ?L = "pb_layout schema tableName lh"
  fix ss pi pu pd pc f
  assume rel: "base_rel ?L (pb_base b) ss pi pu pd"
    and args: "pb_updateClusterComplianceArgs b = concat (map (cluster_update_row lh) pc)"
    "pb_updateClusterComplianceRowsCount b = length pc" "length pc * 4 \<le> maxArgsInStatement"
    and rest: "deletes_rel lh (pb_deleteClusterComplianceArgs b) f" "\<forall>p. extra_deletes (extras ss) p = []"
    and c: "c = (policy_changes_of (ss @ pending pi pu pd @ pb_pending pc))\<lparr>pc_deletedClusters := f\<rparr>"
  let ?pc = "pc @ [(p, cl, st)]"
  let ?b = "b\<lparr>pb_updateClusterComplianceArgs := concat (map (cluster_update_row lh) ?pc),
              pb_updateClusterComplianceRowsCount := length ?pc\<rparr>"
  have b: "b\<lparr>pb_updateClusterComplianceArgs := pb_updateClusterComplianceArgs b @
                   [ArgString p, ArgString cl, ArgString (bb_leafHubName (pb_base b)), ArgString st],
             pb_updateClusterComplianceRowsCount := pb_updateClusterComplianceRowsCount b + 1\<rparr> = ?b"
    using args pb_leafHub [OF rel] by (simp add: cluster_update_row_def)
  have eq: "pb_UpdateClusterCompliance p cl st b =
      (if length ?pc * 4 > maxArgsInStatement
       then bind_go (generateUpdateClusterComplianceStatement ?b) (\<lambda>sql.
              Inr (?b\<lparr>pb_base := batch_queue (pb_base ?b) sql (pb_updateClusterComplianceArgs ?b),
                     pb_updateClusterComplianceArgs := [], pb_updateClusterComplianceRowsCount := 0\<rparr>))
       else Inr ?b)"
    unfolding pb_UpdateClusterCompliance_def Let_def b
    by (simp del: map_append concat_append length_append add: length_cluster_updates)
  show ?thesis
  proof (cases "length ?pc * 4 > maxArgsInStatement")
    case True
    let ?x = "UpdateClusters ?pc"
    let ?b' = "?b\<lparr>pb_base := batch_queue (pb_base b) (fst (render ?L (SExtra ?x))) (snd (render ?L (SExtra ?x))),
        pb_updateClusterComplianceArgs := [], pb_updateClusterComplianceRowsCount := 0\<rparr>"
    have "generateUpdateClusterComplianceStatement ?b =
        Inr (fst (render_extra schema tableName lh ?x))"
      by (rule generateUpdateClusterCompliance_eq)
         (use rel in \<open>simp_all add: base_rel_def of_layout_def\<close>)
    then have "pb_UpdateClusterCompliance p cl st b = Inr ?b'"
      using True by (simp add: eq)
    moreover have "base_rel ?L (pb_base ?b') (ss @ [SExtra ?x]) pi pu pd"
      using base_rel_queue [OF rel, of "SExtra ?x"] args(3) by simp
    ultimately show ?thesis
      using args rest c unfolding pb_holds_def
      by (intro exI [of _ ?b'] conjI exI [of _ "ss @ [SExtra ?x]"] exI [of _ pi] exI [of _ pu]
          exI [of _ pd] exI [of _ "[]"] exI [of _ f])
         (simp_all add: policy_changes_of_def)
  next
    case False
    then have "pb_UpdateClusterCompliance p cl st b = Inr ?b"
      by (simp add: eq)
    with False rel args rest c show ?thesis
      unfolding pb_holds_def
      by (intro exI [of _ ?b] conjI exI [of _ ss] exI [of _ pi] exI [of _ pu]
          exI [of _ pd] exI [of _ ?pc] exI [of _ f])
         (simp_all add: policy_changes_of_def)
  qed
qed

lemma deletes_rel_update:
  assumes "deletes_rel lh m f"
  shows "deletes_rel lh (AList.update p ((case map_of m p of None \<Rightarrow> [ArgString lh, ArgString p]
      | Some args \<Rightarrow> args) @ [ArgString cl]) m) (f(p := f p @ [cl]))"
  using assms
  by (auto simp: deletes_rel_def distinct_update update_conv' cluster_delete_args_def)

lemma pb_DeleteCluster_rel:
  assumes "pb_holds schema tableName lh b c"
  shows "\<exists>b'. pb_DeleteClusterStatus p cl b = Inr b' \<and>
     pb_holds schema tableName lh b'
       (c\<lparr>pc_deletedClusters := (pc_deletedClusters c)(p := pc_deletedClusters c p @ [cl])\<rparr>)"
  using assms
proof (rule pb_holdsE)
  let ?L = "pb_layout schema tableName lh"
  fix ss pi pu pd pc f
  assume rel: "base_rel ?L (pb_base b) ss pi pu pd"
    and args: "pb_updateClusterComplianceArgs b = concat (map (cluster_update_row lh) pc)"
    "pb_updateClusterComplianceRowsCount b = length pc" "length pc * 4 \<le> maxArgsInStatement"
    and m: "deletes_rel lh (pb_deleteClusterComplianceArgs b) f"
    and x: "\<forall>p. extra_deletes (extras ss) p = []"
    and c: "c = (policy_changes_of (ss @ pending pi pu pd @ pb_pending pc))\<lparr>pc_deletedClusters := f\<rparr>"
  let ?b' = "b\<lparr>pb_deleteClusterComplianceArgs := AList.update p
      ((case map_of (pb_deleteClusterComplianceArgs b) p of None \<Rightarrow> [ArgString lh, ArgString p]
        | Some args \<Rightarrow> args) @ [ArgString cl]) (pb_deleteClusterComplianceArgs b)\<rparr>"
  have eq: "pb_DeleteClusterStatus p cl b = Inr ?b'"
    unfolding pb_DeleteClusterStatus_def pb_leafHub [OF rel] Let_def ..
  from rel args x c deletes_rel_update [OF m, of p cl] show ?thesis
    unfolding pb_holds_def
    by (intro exI [of _ ?b'] conjI exI [of _ ss] exI [of _ pi] exI [of _ pu] exI [of _ pd] exI [of _ pc]
        exI [of _ "f(p := f p @ [cl])"]) (simp_all add: eq)
qed

section \<open>Build\<close>

text \<open>The map as the list of delete statements, in the order of the visit.\<close>

definition delete_stmts ::
  "(string \<times> db_arg list) list \<Rightarrow> (string \<Rightarrow> string list) \<Rightarrow>
   (string \<times> string \<times> string \<times> string, string \<times> string, policy_extra) stmt list" where
  "delete_stmts m f = map (\<lambda>(p, _). SExtra (DeleteClusters p (f p))) m"

lemma delete_stmts_rows [simp]:
  "inserted_rows (delete_stmts m f) = []" "updated_rows (delete_stmts m f) = []"
  "deleted_keys (delete_stmts m f) = []" "extra_updates (extras (delete_stmts m f)) = []"
  by (induction m) (auto simp: delete_stmts_def)

lemma extra_deletes_delete_stmts:
  "distinct (map fst m) \<Longrightarrow>
     extra_deletes (extras (delete_stmts m f)) p = (if p \<in> fst ` set m then f p else [])"
proof (induction m)
  case Nil
  then show ?case by (simp add: delete_stmts_def)
next
  case (Cons x m)
  obtain q args where x: "x = (q, args)" by (cases x)
  have split: "delete_stmts ((q, args) # m) f = SExtra (DeleteClusters q (f q)) # delete_stmts m f"
    by (simp add: delete_stmts_def)
  show ?case using Cons unfolding x split by (auto simp: image_iff)
qed

lemma deletes_rel_set:
  assumes "deletes_rel lh m f"
  shows "distinct (map fst (go_range rng m))"
    and "\<And>p. p \<in> fst ` set (go_range rng m) \<longleftrightarrow> f p \<noteq> []"
    and "\<And>p args. (p, args) \<in> set (go_range rng m) \<Longrightarrow> map_of m p = Some (cluster_delete_args lh p (f p)) \<and> f p \<noteq> []"
proof -
  have dm: "distinct (map fst m)" and mo: "\<And>p. map_of m p = (if f p = [] then None
      else Some (cluster_delete_args lh p (f p)))"
    using assms by (auto simp: deletes_rel_def)
  show "distinct (map fst (go_range rng m))" using dm by (rule distinct_map_go_range)
  show "p \<in> fst ` set (go_range rng m) \<longleftrightarrow> f p \<noteq> []" for p
    using mo [of p] map_of_eq_None_iff [of m p] by (auto split: if_splits)
  show "map_of m p = Some (cluster_delete_args lh p (f p)) \<and> f p \<noteq> []" if "(p, args) \<in> set (go_range rng m)"
    for p args
    using that mo [of p] map_of_is_SomeI [OF dm, of p args] by (auto split: if_splits)
qed

lemma queue_deletes:
  assumes "\<And>p args. (p, args) \<in> set ms \<Longrightarrow>
      map_of (pb_deleteClusterComplianceArgs b) p = Some (cluster_delete_args lh p (f p))"
    and "bb_schema (pb_base b) = schema" "bb_tableName (pb_base b) = tableName"
  shows "bb_batch (foldl (\<lambda>batch (p, _). batch_queue batch
      (generateDeleteClusterComplianceStatement b p) (deleteClusterArgs b p)) base ms) =
    bb_batch base @ map (render (pb_layout schema tableName lh)) (delete_stmts ms f)"
  using assms(1)
proof (induction ms arbitrary: base)
  case Nil
  then show ?case by (simp add: delete_stmts_def)
next
  case (Cons x ms)
  obtain p args where x: "x = (p, args)" by (cases x)
  have m: "map_of (pb_deleteClusterComplianceArgs b) p = Some (cluster_delete_args lh p (f p))"
    by (rule Cons.prems [of p args]) (simp add: x)
  have "(generateDeleteClusterComplianceStatement b p, deleteClusterArgs b p) =
      render_extra schema tableName lh (DeleteClusters p (f p))"
    using m assms(2,3)
    by (simp add: generateDeleteClusterComplianceStatement_def deleteClusterArgs_def
        cluster_delete_args_def deleteClusterCompliancePrefixArgsCount_def)
  moreover have "map_of (pb_deleteClusterComplianceArgs b) p' = Some (cluster_delete_args lh p' (f p'))"
    if "(p', args') \<in> set ms" for p' args'
    by (rule Cons.prems [of p' args']) (simp add: that)
  note Cons.IH [OF this]
  ultimately show ?case unfolding x by (simp add: batch_queue_def delete_stmts_def)
qed

lemma pb_Build_rel:
  assumes "pb_holds schema tableName lh b c"
  shows "\<exists>q. pb_Build rng b = Inr q \<and> pb_carries schema tableName lh q c"
  using assms
proof (rule pb_holdsE)
  let ?L = "pb_layout schema tableName lh"
  fix ss pi pu pd pc f
  assume rel: "base_rel ?L (pb_base b) ss pi pu pd"
    and args: "pb_updateClusterComplianceArgs b = concat (map (cluster_update_row lh) pc)"
    "pb_updateClusterComplianceRowsCount b = length pc" "length pc * 4 \<le> maxArgsInStatement"
    and m: "deletes_rel lh (pb_deleteClusterComplianceArgs b) f"
    and x: "\<forall>p. extra_deletes (extras ss) p = []"
    and c: "c = (policy_changes_of (ss @ pending pi pu pd @ pb_pending pc))\<lparr>pc_deletedClusters := f\<rparr>"
  let ?m = "go_range rng (pb_deleteClusterComplianceArgs b)"
  let ?all = "ss @ pending pi pu pd @ pb_pending pc @ delete_stmts ?m f"
  have names: "bb_schema (pb_base b) = schema" "bb_tableName (pb_base b) = tableName"
    using rel by (simp_all add: base_rel_def of_layout_def)
  note ms = deletes_rel_set [OF m, where rng = rng]
  have upd: "generateUpdateClusterComplianceStatement (b\<lparr>pb_base := base\<rparr>) =
      Inr (fst (render_extra schema tableName lh (UpdateClusters pc)))"
    if "pc \<noteq> []" "bb_schema base = schema" "bb_tableName base = tableName" for base
    by (rule generateUpdateClusterCompliance_eq) (use that args in simp_all)
  note del = queue_deletes [of ?m b lh f schema tableName, OF _ names]
  have q: "pb_Build rng b = Inr (map (render ?L) ?all)"
  proof (cases "pc = []")
    case True
    with args del ms(3) show ?thesis
      by (simp add: pb_Build_def base_build_rel(1) [OF pb_layout_ok rel] pb_pending_def)
  next
    case False
    with args del ms(3) upd names show ?thesis
      by (simp add: pb_Build_def base_build_rel(1) [OF pb_layout_ok rel] pb_pending_def batch_queue_def)
  qed
  have "list_all (fits ?L) (delete_stmts ?m f)"
    using ms(3) by (auto simp: delete_stmts_def list_all_iff)
  moreover have "list_all (fits ?L) (pb_pending pc)" using args(3) by (simp add: pb_pending_def)
  ultimately have "list_all (fits ?L) ?all"
    using base_build_rel(2) [OF pb_layout_ok rel] by simp
  moreover have "c = policy_changes_of ?all"
    using c x ms(1,2) by (auto simp: policy_changes_of_def extra_deletes_delete_stmts fun_eq_iff pending_def)
  ultimately show ?thesis using q unfolding pb_carries_def by blast
qed

section \<open>The contract\<close>

interpretation pb: policies_batch_builder_contract "pb_Build rng" "pb_holds schema tableName lh"
  "pb_carries schema tableName lh" pb_Insert pb_UpdatePolicyCompliance pb_UpdateClusterCompliance
  pb_DeletePolicy pb_DeleteClusterStatus
  by unfold_locales
     (rule pb_Build_rel pb_Insert_rel pb_UpdatePolicy_rel pb_UpdateCluster_rel pb_DeletePolicy_rel
        pb_DeleteCluster_rel, assumption)+

end
