(* ===== verification/Database.thy ===== *)
theory Database
  imports Policies_Batch
begin

text \<open>
  The database client (\<open>pkg/db\<close>, \<open>pkg/db/postgresql/postgresql.go\<close>). The PostgreSQL driver and the set
  library are not part of the repository: a connection pool and the operations on sets are arguments,
  records of what the code calls, over a state \<open>'d\<close> of the database and a type \<open>'set\<close> of sets.
\<close>

section \<open>Constants\<close>

definition StatusSchema :: string where "StatusSchema = ''status''"
definition ManagedClustersTable :: string where "ManagedClustersTable = ''managed_clusters''"
definition ComplianceTable :: string where "ComplianceTable = ''compliance''"
definition MinimalComplianceTable :: string where "MinimalComplianceTable = ''aggregated_compliance''"
definition ErrorNone :: string where "ErrorNone = ''none''"
definition NonCompliant :: string where "NonCompliant = ''non_compliant''"
definition Compliant :: string where "Compliant = ''compliant''"
definition Unknown :: string where "Unknown = ''unknown''"

section \<open>The set library\<close>

text \<open>\<open>set_ToSlice\<close> also gives the order in which \<open>Each\<close> visits the elements.\<close>

record 'set go_sets =
  set_NewSet :: 'set
  set_Add :: "'set \<Rightarrow> string \<Rightarrow> 'set"
  set_Contains :: "'set \<Rightarrow> string \<Rightarrow> bool"
  set_Remove :: "'set \<Rightarrow> string \<Rightarrow> 'set"
  set_Union :: "'set \<Rightarrow> 'set \<Rightarrow> 'set"
  set_ToSlice :: "'set \<Rightarrow> string list"

text \<open>What the library documents, for the members a set stands for.\<close>

definition sets_laws :: "'set go_sets \<Rightarrow> ('set \<Rightarrow> string set) \<Rightarrow> bool" where
  "sets_laws S members \<longleftrightarrow>
     members (set_NewSet S) = {} \<and>
     (\<forall>s x. members (set_Add S s x) = insert x (members s)) \<and>
     (\<forall>s x. set_Contains S s x \<longleftrightarrow> x \<in> members s) \<and>
     (\<forall>s x. members (set_Remove S s x) = members s - {x}) \<and>
     (\<forall>s t. members (set_Union S s t) = members s \<union> members t) \<and>
     (\<forall>s. distinct (set_ToSlice S s) \<and> set (set_ToSlice S s) = members s)"

text \<open>\<open>NonCompliantClusterSets\<close>\<close>

record 'set non_compliant_cluster_sets =
  nc_nonCompliantClusters :: 'set
  nc_unknownClusters :: 'set

definition NewNonCompliantClusterSets :: "'set go_sets \<Rightarrow> 'set non_compliant_cluster_sets" where
  "NewNonCompliantClusterSets S =
     \<lparr>nc_nonCompliantClusters = set_NewSet S, nc_unknownClusters = set_NewSet S\<rparr>"

definition AddNonCompliantCluster ::
  "'set go_sets \<Rightarrow> string \<Rightarrow> 'set non_compliant_cluster_sets \<Rightarrow> 'set non_compliant_cluster_sets" where
  "AddNonCompliantCluster S clusterName sets =
     sets\<lparr>nc_nonCompliantClusters := set_Add S (nc_nonCompliantClusters sets) clusterName\<rparr>"

definition AddUnknownCluster ::
  "'set go_sets \<Rightarrow> string \<Rightarrow> 'set non_compliant_cluster_sets \<Rightarrow> 'set non_compliant_cluster_sets" where
  "AddUnknownCluster S clusterName sets =
     sets\<lparr>nc_unknownClusters := set_Add S (nc_unknownClusters sets) clusterName\<rparr>"

definition GetNonCompliantClusters :: "'set non_compliant_cluster_sets \<Rightarrow> 'set" where
  [simp]: "GetNonCompliantClusters sets = nc_nonCompliantClusters sets"

definition GetUnknownClusters :: "'set non_compliant_cluster_sets \<Rightarrow> 'set" where
  [simp]: "GetUnknownClusters sets = nc_unknownClusters sets"

section \<open>The connection pool\<close>

text \<open>
  The result of a query: what \<open>Scan\<close> gives for each row that \<open>Next\<close> visits, and the error that ended
  the rows, which the driver keeps for \<open>Err\<close>. \<open>conn_Query\<close> also has an error of its own. The results
  of a batch are those of its statements, by position.
\<close>

record pg_rows =
  rows_scans :: "(go_error + string list) list"
  rows_err :: "go_error option"

record 'd pg_conn =
  conn_Query :: "string \<Rightarrow> db_arg list \<Rightarrow> 'd \<Rightarrow> pg_rows \<times> go_error option"
  conn_QueryRow :: "string \<Rightarrow> db_arg list \<Rightarrow> 'd \<Rightarrow> go_error + bool"
  conn_Exec :: "string \<Rightarrow> db_arg list \<Rightarrow> 'd \<Rightarrow> go_error option \<times> 'd"
  conn_SendBatch :: "queued list \<Rightarrow> 'd \<Rightarrow> (nat \<Rightarrow> go_error option) \<times> 'd"

text \<open>
  \<open>NewPostgreSQL\<close>: \<open>connect\<close> is the driver's \<open>Connect\<close>, whose pool is known here by its maximal number
  of connections, the result of \<open>GetPoolSize\<close>.
\<close>

definition envVarDatabaseURL :: string where "envVarDatabaseURL = ''DATABASE_URL''"

definition NewPostgreSQL ::
  "(string \<rightharpoonup> string) \<Rightarrow> (string \<Rightarrow> go_error + nat) \<Rightarrow> go_error + nat" where
  "NewPostgreSQL env connect =
     (case env envVarDatabaseURL of
        None \<Rightarrow> Inl (''not found environment variable: '' @ envVarDatabaseURL)
      | Some databaseURL \<Rightarrow>
          (case connect databaseURL of
             Inl err \<Rightarrow> Inl (''unable to connect to db: '' @ err)
           | Inr poolSize \<Rightarrow> Inr poolSize))"

text \<open>The value of type \<open>interface{}\<close> given to \<open>SendBatch\<close>: a batch of the driver or something else.\<close>

datatype batch_value = PgxBatch "queued list" | OtherBatch

definition errBatchDoesNotMatchPostgreSQL :: go_error where
  "errBatchDoesNotMatchPostgreSQL = ''given batch doesn't match postgresql library''"

definition errBatchFailed :: go_error where
  "errBatchFailed = ''some of the batch statements failed to execute''"

definition batch_errors :: "(nat \<Rightarrow> go_error option) \<Rightarrow> nat \<Rightarrow> string" where
  "batch_errors results len =
     concat (map (\<lambda>i. case results i of None \<Rightarrow> ''''
                     | Some err \<Rightarrow> ''failed to execute batch statement '' @ err @ '', '') [0..<len])"

definition SendBatch :: "'d pg_conn \<Rightarrow> batch_value \<Rightarrow> 'd \<Rightarrow> go_error option \<times> 'd" where
  "SendBatch conn batch d =
     (case batch of
        OtherBatch \<Rightarrow> (Some (''failed to send batch - '' @ errBatchDoesNotMatchPostgreSQL), d)
      | PgxBatch q \<Rightarrow>
          if length q = 0 then (None, d)
          else (let (results, d') = conn_SendBatch conn q d;
                    errorString = batch_errors results (length q)
                in if length errorString > 0 then (Some (errBatchFailed @ '' - '' @ errorString), d')
                   else (None, d')))"

section \<open>Queries\<close>

definition nl :: string where "nl = [CHR 0x0A]"
definition tab :: string where "tab = [CHR 0x09]"
definition quoted :: "string \<Rightarrow> string" where "quoted s = [CHR 0x27] @ s @ [CHR 0x27]"

definition errScan :: go_error where
  "errScan = ''number of field descriptions must equal number of destinations''"

definition managed_clusters_query :: "string \<Rightarrow> string \<Rightarrow> string" where
  "managed_clusters_query schema tableName =
     ''SELECT payload->'' @ quoted ''metadata'' @ ''->>'' @ quoted ''name'' @ '','' @ nl @ tab @ tab @
     ''payload->'' @ quoted ''metadata'' @ ''->>'' @ quoted ''resourceVersion'' @
     '' FROM '' @ schema @ ''.'' @ tableName @ '' WHERE leaf_hub_name=$1''"

text \<open>Go maps are lists of their entries; \<open>AList.update\<close> is the assignment of an entry.\<close>

definition GetManagedClustersByLeafHub ::
  "'d pg_conn \<Rightarrow> string \<Rightarrow> string \<Rightarrow> string \<Rightarrow> 'd \<Rightarrow> go_error + (string \<times> string) list" where
  "GetManagedClustersByLeafHub conn schema tableName leafHubName d =
     (let (rows, _) = conn_Query conn (managed_clusters_query schema tableName) [ArgString leafHubName] d
      in fold_err (\<lambda>result scan.
           case (case scan of Inr [clusterName, resourceVersion] \<Rightarrow> Inr (clusterName, resourceVersion)
                 | Inr _ \<Rightarrow> Inl errScan | Inl err \<Rightarrow> Inl err) of
             Inl err \<Rightarrow> Inl (''error reading from table '' @ schema @ ''.'' @ tableName @ '' - '' @ err)
           | Inr (clusterName, resourceVersion) \<Rightarrow> Inr (AList.update clusterName resourceVersion result))
         [] (rows_scans rows))"

definition compliance_query :: "string \<Rightarrow> string \<Rightarrow> string" where
  "compliance_query schema tableName =
     ''SELECT id,cluster_name FROM '' @ schema @ ''.'' @ tableName @ '' WHERE leaf_hub_name=$1''"

definition compliance_read_error :: "go_error \<Rightarrow> go_error" where
  "compliance_read_error err = ''error in reading compliance table rows - '' @ err"

definition GetComplianceStatusByLeafHub ::
  "'d pg_conn \<Rightarrow> 'set go_sets \<Rightarrow> string \<Rightarrow> string \<Rightarrow> string \<Rightarrow> 'd \<Rightarrow> go_error + (string \<times> 'set) list" where
  "GetComplianceStatusByLeafHub conn S schema tableName leafHubName d =
     (let (rows, _) = conn_Query conn (compliance_query schema tableName) [ArgString leafHubName] d
      in fold_err (\<lambda>result scan.
           case (case scan of Inr [policyID, clusterName] \<Rightarrow> Inr (policyID, clusterName)
                 | Inr _ \<Rightarrow> Inl errScan | Inl err \<Rightarrow> Inl err) of
             Inl err \<Rightarrow> Inl (compliance_read_error err)
           | Inr (policyID, clusterName) \<Rightarrow>
               (let policyClusters = (case map_of result policyID of
                      None \<Rightarrow> set_NewSet S | Some found \<Rightarrow> found)
                in Inr (AList.update policyID (set_Add S policyClusters clusterName) result)))
         [] (rows_scans rows))"

definition non_compliant_query :: "string \<Rightarrow> string \<Rightarrow> string" where
  "non_compliant_query schema tableName =
     ''SELECT id,cluster_name,compliance FROM '' @ schema @ ''.'' @ tableName @
     '' WHERE leaf_hub_name=$1'' @ nl @ tab @ tab @ tab @ '' AND compliance!='' @ quoted ''compliant''"

definition GetNonCompliantClustersByLeafHub ::
  "'d pg_conn \<Rightarrow> 'set go_sets \<Rightarrow> string \<Rightarrow> string \<Rightarrow> string \<Rightarrow> 'd \<Rightarrow>
   go_error + (string \<times> 'set non_compliant_cluster_sets) list" where
  "GetNonCompliantClustersByLeafHub conn S schema tableName leafHubName d =
     (let (rows, _) = conn_Query conn (non_compliant_query schema tableName) [ArgString leafHubName] d
      in fold_err (\<lambda>result scan.
           case (case scan of
                   Inr [policyID, clusterName, compliance] \<Rightarrow> Inr (policyID, clusterName, compliance)
                 | Inr _ \<Rightarrow> Inl errScan | Inl err \<Rightarrow> Inl err) of
             Inl err \<Rightarrow> Inl (compliance_read_error err)
           | Inr (policyID, clusterName, compliance) \<Rightarrow>
               (let sets = (case map_of result policyID of
                      None \<Rightarrow> NewNonCompliantClusterSets S | Some found \<Rightarrow> found);
                    sets' = (if compliance = NonCompliant then AddNonCompliantCluster S clusterName sets
                             else if compliance = Unknown then AddUnknownCluster S clusterName sets
                             else sets)
                in Inr (AList.update policyID sets' result)))
         [] (rows_scans rows))"

definition policy_ids_query :: "string \<Rightarrow> string \<Rightarrow> string" where
  "policy_ids_query schema tableName =
     ''SELECT DISTINCT(policy_id) FROM '' @ schema @ ''.'' @ tableName @ '' WHERE leaf_hub_name=$1''"

definition GetPolicyIDsByLeafHub ::
  "'d pg_conn \<Rightarrow> 'set go_sets \<Rightarrow> string \<Rightarrow> string \<Rightarrow> string \<Rightarrow> 'd \<Rightarrow> go_error + 'set" where
  "GetPolicyIDsByLeafHub conn S schema tableName leafHubName d =
     (let (rows, _) = conn_Query conn (policy_ids_query schema tableName) [ArgString leafHubName] d
      in fold_err (\<lambda>result scan.
           case (case scan of Inr [policyID] \<Rightarrow> Inr policyID | Inr _ \<Rightarrow> Inl errScan | Inl err \<Rightarrow> Inl err) of
             Inl err \<Rightarrow> Inl (''error reading from table status.'' @ tableName @ '' - '' @ err)
           | Inr policyID \<Rightarrow> Inr (set_Add S result policyID))
         (set_NewSet S) (rows_scans rows))"

section \<open>Statements on one row\<close>

definition aggregated_exists_sql :: "string \<Rightarrow> string \<Rightarrow> string" where
  "aggregated_exists_sql schema tableName =
     ''SELECT EXISTS(SELECT 1 from '' @ schema @ ''.'' @ tableName @ '' WHERE leaf_hub_name=$1 AND '' @
     nl @ tab @ tab @ tab @ ''id=$2)''"

definition aggregated_update_sql :: "string \<Rightarrow> string \<Rightarrow> string" where
  "aggregated_update_sql schema tableName =
     ''UPDATE '' @ schema @ ''.'' @ tableName @ '' SET applied_clusters=$1,non_compliant_clusters=$2'' @
     nl @ tab @ tab @ tab @ '' WHERE leaf_hub_name=$3 AND id=$4''"

definition aggregated_insert_sql :: "string \<Rightarrow> string \<Rightarrow> string" where
  "aggregated_insert_sql schema tableName =
     ''INSERT INTO '' @ schema @ ''.'' @ tableName @ '' (id,leaf_hub_name,applied_clusters,'' @
     nl @ tab @ tab @ tab @ ''non_compliant_clusters) values($1, $2, $3, $4)''"

definition InsertOrUpdateAggregatedPolicyCompliance ::
  "'d pg_conn \<Rightarrow> string \<Rightarrow> string \<Rightarrow> string \<Rightarrow> string \<Rightarrow> int \<Rightarrow> int \<Rightarrow> 'd \<Rightarrow> go_error option \<times> 'd" where
  "InsertOrUpdateAggregatedPolicyCompliance conn schema tableName leafHubName policyID appliedClusters
     nonCompliantClusters d =
     (case conn_QueryRow conn (aggregated_exists_sql schema tableName)
             [ArgString leafHubName, ArgString policyID] d of
        Inl err \<Rightarrow> (Some (''failed to read from database: '' @ err), d)
      | Inr exists \<Rightarrow>
          if exists
          then (case conn_Exec conn (aggregated_update_sql schema tableName)
                       [ArgInt appliedClusters, ArgInt nonCompliantClusters, ArgString leafHubName,
                        ArgString policyID] d of
                  (Some err, d') \<Rightarrow> (Some (''failed to update compliance row in database: '' @ err), d')
                | (None, d') \<Rightarrow> (None, d'))
          else (case conn_Exec conn (aggregated_insert_sql schema tableName)
                       [ArgString policyID, ArgString leafHubName, ArgInt appliedClusters,
                        ArgInt nonCompliantClusters] d of
                  (Some err, d') \<Rightarrow> (Some (''failed to insertRowsArgs into database: '' @ err), d')
                | (None, d') \<Rightarrow> (None, d')))"

definition delete_policy_sql :: "string \<Rightarrow> string \<Rightarrow> string" where
  "delete_policy_sql schema tableName =
     ''DELETE from '' @ schema @ ''.'' @ tableName @ '' WHERE leaf_hub_name=$1 AND policy_id=$2''"

definition DeleteAllComplianceRows ::
  "'d pg_conn \<Rightarrow> string \<Rightarrow> string \<Rightarrow> string \<Rightarrow> string \<Rightarrow> 'd \<Rightarrow> go_error option \<times> 'd" where
  "DeleteAllComplianceRows conn schema tableName leafHubName policyID d =
     (case conn_Exec conn (delete_policy_sql schema tableName)
             [ArgString leafHubName, ArgString policyID] d of
        (Some err, d') \<Rightarrow> (Some (''failed to delete compliance rows from database: '' @ err), d')
      | (None, d') \<Rightarrow> (None, d'))"

section \<open>Facts\<close>

lemma batch_errors_empty:
  "length (batch_errors results len) > 0 \<longleftrightarrow> (\<exists>i < len. results i \<noteq> None)"
  by (force simp: batch_errors_def split: option.splits)

lemma SendBatch_empty [simp]: "SendBatch conn (PgxBatch []) d = (None, d)"
  by (simp add: SendBatch_def)

lemma SendBatch_cases:
  assumes "q \<noteq> []" "conn_SendBatch conn q d = (results, d')"
  shows "snd (SendBatch conn (PgxBatch q) d) = d'"
    and "fst (SendBatch conn (PgxBatch q) d) = None \<longleftrightarrow> (\<forall>i < length q. results i = None)"
  using assms batch_errors_empty [of results "length q"]
  by (auto simp: SendBatch_def Let_def split: if_splits)

end
