(* ===== verification/Ready_Queue.thy ===== *)
theory Ready_Queue
  imports Bundles
begin

text \<open>
  The queue of conflation units that have a bundle to process (\<open>pkg/conflator/ready_queue.go\<close>) and
  the interface its two users rely on: conflation units enqueue themselves, the dispatcher dequeues.
  A pointer to a conflation unit is the leaf hub name under which the conflation manager keeps it.
\<close>

section \<open>The interface: a first-in first-out queue\<close>

locale fifo_queue =
  fixes new :: "'q"
    and enq :: "'q \<Rightarrow> 'a \<Rightarrow> 'q"
    and deq :: "'q \<Rightarrow> ('a \<times> 'q) option"
    and contents :: "'q \<Rightarrow> 'a list"
  assumes contents_new: "contents new = []"
    and contents_enq: "contents (enq q x) = contents q @ [x]"
    and deq_blocked: "deq q = None \<longleftrightarrow> contents q = []"
    and contents_deq: "deq q = Some (x, q') \<Longrightarrow> contents q = x # contents q'"
begin

lemma contents_enq_all: "contents (foldl enq q xs) = contents q @ xs"
  by (induction xs arbitrary: q) (simp_all add: contents_enq)

lemma deq_after_enq: "deq (enq q x) \<noteq> None"
  by (simp add: deq_blocked contents_enq)

lemma deq_set: "deq q = Some (x, q') \<Longrightarrow> set (contents q) = insert x (set (contents q'))"
  by (simp add: contents_deq)

lemma deq_distinct:
  "deq q = Some (x, q') \<Longrightarrow> distinct (contents q) \<Longrightarrow>
     distinct (contents q') \<and> x \<notin> set (contents q')"
  by (simp add: contents_deq)

text \<open>What was enqueued comes out in the same order.\<close>

lemma deq_first_of_enq_all:
  assumes "contents q = []" and "deq (foldl enq q (x # xs)) = Some (y, q')"
  shows "y = x \<and> contents q' = xs"
  using contents_deq [OF assms(2)] assms(1) by (simp add: contents_enq_all contents_enq)

end

section \<open>The implementation\<close>

type_synonym cu_ref = string

record conflation_ready_queue =
  rq_queue :: "cu_ref list"

definition NewConflationReadyQueue :: conflation_ready_queue where
  "NewConflationReadyQueue = \<lparr>rq_queue = []\<rparr>"

text \<open>\<open>PushBack\<close>; the signal wakes a blocked \<open>BlockingDequeue\<close>, which is then enabled again.\<close>

definition Enqueue :: "conflation_ready_queue \<Rightarrow> cu_ref \<Rightarrow> conflation_ready_queue" where
  "Enqueue rq cu = rq\<lparr>rq_queue := rq_queue rq @ [cu]\<rparr>"

definition rq_isEmpty :: "conflation_ready_queue \<Rightarrow> bool" where
  "rq_isEmpty rq \<longleftrightarrow> length (rq_queue rq) = 0"

text \<open>\<open>None\<close>: the call waits, because the queue is empty.\<close>

definition BlockingDequeue :: "conflation_ready_queue \<Rightarrow> (cu_ref \<times> conflation_ready_queue) option" where
  "BlockingDequeue rq =
     (if rq_isEmpty rq then None
      else Some (hd (rq_queue rq), rq\<lparr>rq_queue := tl (rq_queue rq)\<rparr>))"

interpretation rq: fifo_queue NewConflationReadyQueue Enqueue BlockingDequeue rq_queue
proof unfold_locales
  show "rq_queue NewConflationReadyQueue = []"
    by (simp add: NewConflationReadyQueue_def)
next
  fix q x show "rq_queue (Enqueue q x) = rq_queue q @ [x]"
    by (simp add: Enqueue_def)
next
  fix q show "BlockingDequeue q = None \<longleftrightarrow> rq_queue q = []"
    by (simp add: BlockingDequeue_def rq_isEmpty_def)
next
  fix q x q' assume "BlockingDequeue q = Some (x, q')"
  then show "rq_queue q = x # rq_queue q'"
    by (auto simp: BlockingDequeue_def rq_isEmpty_def split: if_splits)
qed

end
