(* ===== verification/Conflation_Unit.thy ===== *)
theory Conflation_Unit
  imports Ready_Queue
begin

text \<open>
  The conflation unit of one leaf hub (\<open>pkg/conflator/conflation_unit.go\<close>,
  \<open>conflation_element.go\<close>, \<open>bundle_metadata.go\<close>, \<open>conflation_registration.go\<close>): one slot per bundle
  type, ordered by priority, each holding the newest bundle received and not yet processed.

  Bundle metadata is shared by pointer between a slot and the job that processes its bundle, and
  \<open>insert\<close> overwrites it in place unless the slot is in process. So metadata objects live in a store
  (\<open>cu_metas\<close>, a pointer is an index into it) and aliasing is visible. Every operation holds the
  unit's mutex throughout and is one step; the ready queue is threaded through, as the unit enqueues
  itself.
\<close>

section \<open>State\<close>

record bundle_metadata =
  md_bundleType :: string
  md_generation :: u64
  md_transportBundleMetadata :: object_meta_data

type_synonym meta_ref = nat

definition BundleMetadata_update :: "bundle_metadata \<Rightarrow> u64 \<Rightarrow> object_meta_data \<Rightarrow> bundle_metadata" where
  "BundleMetadata_update m generation metadata =
     m\<lparr>md_generation := generation, md_transportBundleMetadata := metadata\<rparr>"

text \<open>The four closures the syncers register as handler functions.\<close>

datatype bundle_handler =
    ManagedClustersHandler
  | ClustersPerPolicyHandler
  | ComplianceHandler
  | MinimalComplianceHandler

text \<open>A dependency is the type of the bundle depended on; \<open>None\<close> is the nil dependency.\<close>

record conflation_registration =
  reg_priority :: nat
  reg_bundleType :: string
  reg_handlerFunction :: bundle_handler
  reg_dependency :: "string option"

definition NewDependency :: "string \<Rightarrow> string" where
  "NewDependency bt = bt"

definition NewConflationRegistration ::
  "nat \<Rightarrow> string \<Rightarrow> bundle_handler \<Rightarrow> conflation_registration" where
  "NewConflationRegistration priority bt handlerFunction =
     \<lparr>reg_priority = priority, reg_bundleType = bt, reg_handlerFunction = handlerFunction,
      reg_dependency = None\<rparr>"

definition WithDependency :: "conflation_registration \<Rightarrow> string \<Rightarrow> conflation_registration" where
  "WithDependency registration dep = registration\<lparr>reg_dependency := Some dep\<rparr>"

record conflation_element =
  ce_bundleType :: string
  ce_bundle :: "status_bundle option"
  ce_bundleMetadata :: "meta_ref option"
  ce_handlerFunction :: bundle_handler
  ce_dependency :: "string option"
  ce_isInProcess :: bool
  ce_lastProcessedBundleGeneration :: u64

record conflation_unit =
  cu_priorityQueue :: "conflation_element option list"
  cu_bundleTypeToPriority :: "string \<rightharpoonup> nat"
  cu_isInReadyQueue :: bool
  cu_metas :: "bundle_metadata list"

definition invalidPriority :: int where
  "invalidPriority = -1"

section \<open>Construction\<close>

definition newConflationElement :: "conflation_registration \<Rightarrow> conflation_element" where
  "newConflationElement r =
     \<lparr>ce_bundleType = reg_bundleType r, ce_bundle = None, ce_bundleMetadata = None,
      ce_handlerFunction = reg_handlerFunction r, ce_dependency = reg_dependency r,
      ce_isInProcess = False, ce_lastProcessedBundleGeneration = 0\<rparr>"

definition addRegistration ::
  "conflation_element option list \<times> (string \<rightharpoonup> nat) \<Rightarrow> conflation_registration \<Rightarrow>
   (conflation_element option list \<times> (string \<rightharpoonup> nat)) go" where
  "addRegistration = (\<lambda>(pq, types) r.
     if reg_priority r < length pq
     then Inr (pq[reg_priority r := Some (newConflationElement r)],
               types(reg_bundleType r \<mapsto> reg_priority r))
     else Inl IndexOutOfRange)"

definition newConflationUnit :: "conflation_registration list \<Rightarrow> conflation_unit go" where
  "newConflationUnit registrations =
     bind_go (fold_go addRegistration (replicate (length registrations) None, Map.empty) registrations)
       (\<lambda>(pq, types). Inr
          \<lparr>cu_priorityQueue = pq, cu_bundleTypeToPriority = types, cu_isInReadyQueue = False,
           cu_metas = []\<rparr>)"

section \<open>Reads\<close>

text \<open>\<open>cu.bundleTypeToPriority[t]\<close>: the zero priority when the type has no entry.\<close>

definition priority_of :: "conflation_unit \<Rightarrow> string \<Rightarrow> nat" where
  "priority_of cu t = (case cu_bundleTypeToPriority cu t of None \<Rightarrow> 0 | Some p \<Rightarrow> p)"

text \<open>\<open>cu.priorityQueue[priority]\<close> and a read or write of a field behind it.\<close>

definition element_at :: "conflation_unit \<Rightarrow> nat \<Rightarrow> conflation_element go" where
  "element_at cu priority = bind_go (go_index (cu_priorityQueue cu) priority) go_deref"

definition set_element :: "conflation_unit \<Rightarrow> nat \<Rightarrow> conflation_element \<Rightarrow> conflation_unit" where
  "set_element cu priority e = cu\<lparr>cu_priorityQueue := (cu_priorityQueue cu)[priority := Some e]\<rparr>"

fun any_in_process :: "conflation_element option list \<Rightarrow> bool go" where
  "any_in_process [] = Inr False"
| "any_in_process (p # ps) =
     bind_go (go_deref p) (\<lambda>e. if ce_isInProcess e then Inr True else any_in_process ps)"

definition cu_isInProcess :: "conflation_unit \<Rightarrow> bool go" where
  "cu_isInProcess cu = any_in_process (cu_priorityQueue cu)"

text \<open>
  The walk along the chain of dependencies recurses without a bound: \<open>None\<close> is a walk that does not
  end, which happens on a cyclic chain none of whose elements is in process.
\<close>

partial_function (option) walk_dependencies ::
  "conflation_unit \<Rightarrow> conflation_element \<Rightarrow> bool go option" where
  "walk_dependencies cu e =
     (if ce_isInProcess e then Some (Inr True)
      else (case ce_dependency e of
              None \<Rightarrow> Some (Inr False)
            | Some t \<Rightarrow>
                (case element_at cu (priority_of cu t) of
                   Inl p \<Rightarrow> Some (Inl p)
                 | Inr e' \<Rightarrow> walk_dependencies cu e')))"

declare walk_dependencies.simps [code]

definition isCurrentOrAnyDependencyInProcess ::
  "conflation_unit \<Rightarrow> conflation_element \<Rightarrow> bool go" where
  "isCurrentOrAnyDependencyInProcess cu e =
     (case walk_dependencies cu e of None \<Rightarrow> Inl StackOverflow | Some r \<Rightarrow> r)"

text \<open>
  The bundle of the element is not nil where this is called; on a nil one the type assertion fails
  and the log line then dereferences it.
\<close>

definition checkDependency :: "conflation_unit \<Rightarrow> conflation_element \<Rightarrow> bool go" where
  "checkDependency cu e =
     (case ce_dependency e of
        None \<Rightarrow> Inr True
      | Some t \<Rightarrow>
          (case ce_bundle e of
             None \<Rightarrow> Inl NilDereference
           | Some b \<Rightarrow>
               (case GetDependencyGeneration b of
                  None \<Rightarrow> Inr False
                | Some g \<Rightarrow>
                    bind_go (element_at cu (priority_of cu t))
                      (\<lambda>d. Inr (g \<le> ce_lastProcessedBundleGeneration d)))))"

definition element_ready :: "conflation_unit \<Rightarrow> conflation_element \<Rightarrow> bool go" where
  "element_ready cu e =
     (if ce_bundle e = None then Inr False
      else bind_go (isCurrentOrAnyDependencyInProcess cu e)
             (\<lambda>busy. if busy then Inr False else checkDependency cu e))"

fun first_ready :: "conflation_unit \<Rightarrow> nat \<Rightarrow> conflation_element option list \<Rightarrow> int go" where
  "first_ready cu i [] = Inr invalidPriority"
| "first_ready cu i (p # ps) =
     bind_go (go_deref p) (\<lambda>e.
       bind_go (element_ready cu e) (\<lambda>r.
         if r then Inr (int i) else first_ready cu (Suc i) ps))"

definition getNextReadyBundlePriority :: "conflation_unit \<Rightarrow> int go" where
  "getNextReadyBundlePriority cu = first_ready cu 0 (cu_priorityQueue cu)"

section \<open>Operations\<close>

text \<open>\<open>me\<close> is the unit's own pointer, which it puts on the ready queue.\<close>

definition addCUToReadyQueueIfNeeded ::
  "cu_ref \<Rightarrow> conflation_unit \<times> conflation_ready_queue \<Rightarrow>
   (conflation_unit \<times> conflation_ready_queue) go" where
  "addCUToReadyQueueIfNeeded me = (\<lambda>(cu, rq).
     if cu_isInReadyQueue cu then Inr (cu, rq)
     else bind_go (cu_isInProcess cu) (\<lambda>busy.
       if busy then Inr (cu, rq)
       else bind_go (getNextReadyBundlePriority cu) (\<lambda>next.
         if next \<noteq> invalidPriority then Inr (cu\<lparr>cu_isInReadyQueue := True\<rparr>, Enqueue rq me)
         else Inr (cu, rq))))"

text \<open>
  The metadata written by \<open>insert\<close>: in place when the slot has metadata and is not in process, a new
  object (and so a new pointer) otherwise.
\<close>

definition write_metadata ::
  "conflation_unit \<Rightarrow> conflation_element \<Rightarrow> status_bundle \<Rightarrow> object_meta_data \<Rightarrow>
   bundle_metadata list \<times> meta_ref" where
  "write_metadata cu e b metadata =
     (let fresh = \<lparr>md_bundleType = GetBundleType b, md_generation = GetGeneration b,
                   md_transportBundleMetadata = metadata\<rparr>
      in case ce_bundleMetadata e of
           Some r \<Rightarrow>
             if \<not> ce_isInProcess e
             then ((cu_metas cu)[r := BundleMetadata_update (cu_metas cu ! r) (GetGeneration b) metadata], r)
             else (cu_metas cu @ [fresh], length (cu_metas cu))
         | None \<Rightarrow> (cu_metas cu @ [fresh], length (cu_metas cu)))"

definition cu_insert ::
  "cu_ref \<Rightarrow> status_bundle \<Rightarrow> object_meta_data \<Rightarrow> conflation_unit \<times> conflation_ready_queue \<Rightarrow>
   (conflation_unit \<times> conflation_ready_queue) go" where
  "cu_insert me b metadata = (\<lambda>(cu, rq).
     (let priority = priority_of cu (GetBundleType b)
      in bind_go (element_at cu priority) (\<lambda>e.
           if GetGeneration b \<le> ce_lastProcessedBundleGeneration e then Inr (cu, rq)
           else if (case ce_bundle e of None \<Rightarrow> False | Some b' \<Rightarrow> GetGeneration b \<le> GetGeneration b')
           then Inr (cu, rq)
           else (let (metas, r) = write_metadata cu e b metadata;
                     e' = e\<lparr>ce_bundle := Some b, ce_bundleMetadata := Some r\<rparr>
                 in addCUToReadyQueueIfNeeded me ((set_element cu priority e')\<lparr>cu_metas := metas\<rparr>, rq)))))"

text \<open>What \<open>GetNext\<close> hands out; \<open>nb_metadata\<close> is the pointer the slot holds, shared with the job.\<close>

record next_bundle =
  nb_bundle :: "status_bundle option"
  nb_metadata :: "meta_ref option"
  nb_handlerFunc :: bundle_handler

definition errNoReadyBundle :: go_error where
  "errNoReadyBundle = ''no bundle is ready to be processed''"

definition GetNext :: "conflation_unit \<Rightarrow> (conflation_unit \<times> (go_error + next_bundle)) go" where
  "GetNext cu =
     bind_go (getNextReadyBundlePriority cu) (\<lambda>priority.
       if priority = invalidPriority then Inr (cu, Inl errNoReadyBundle)
       else bind_go (element_at cu (nat priority)) (\<lambda>e.
         Inr ((set_element cu (nat priority) (e\<lparr>ce_isInProcess := True\<rparr>))\<lparr>cu_isInReadyQueue := False\<rparr>,
              Inr \<lparr>nb_bundle = ce_bundle e, nb_metadata = ce_bundleMetadata e,
                   nb_handlerFunc = ce_handlerFunction e\<rparr>)))"

definition ReportResult ::
  "cu_ref \<Rightarrow> meta_ref option \<Rightarrow> go_error option \<Rightarrow> conflation_unit \<times> conflation_ready_queue \<Rightarrow>
   (conflation_unit \<times> conflation_ready_queue) go" where
  "ReportResult me metadata err = (\<lambda>(cu, rq).
     bind_go (go_deref metadata) (\<lambda>r.
       let m = cu_metas cu ! r; priority = priority_of cu (md_bundleType m)
       in bind_go (element_at cu priority) (\<lambda>e0.
            let e = e0\<lparr>ce_isInProcess := False\<rparr>
            in if err \<noteq> None then addCUToReadyQueueIfNeeded me (set_element cu priority e, rq)
               else (let e1 = (if md_generation m > ce_lastProcessedBundleGeneration e
                               then e\<lparr>ce_lastProcessedBundleGeneration := md_generation m\<rparr> else e)
                     in bind_go (go_deref (ce_bundle e1)) (\<lambda>b.
                          let e2 = (if md_generation m = GetGeneration b
                                    then e1\<lparr>ce_bundle := None, ce_bundleMetadata := None\<rparr> else e1)
                          in addCUToReadyQueueIfNeeded me (set_element cu priority e2, rq))))))"

end
