(* ===== verification/Conflation_Invariant.thy ===== *)
theory Conflation_Invariant
  imports Conflation_Unit
begin

text \<open>
  The invariant of a conflation unit, the abstract meaning of its reads, and one lemma per operation
  that says it returns (no panic, no endless walk), keeps the invariant, and what it changes.
\<close>

named_theorems cu_simps

section \<open>Shape: no holes, priorities in range, dependencies point to lower priorities\<close>

abbreviation nslots :: "conflation_unit \<Rightarrow> nat" where
  "nslots cu \<equiv> length (cu_priorityQueue cu)"

definition slot :: "conflation_unit \<Rightarrow> nat \<Rightarrow> conflation_element" where
  "slot cu i = the (cu_priorityQueue cu ! i)"

definition cu_shape :: "conflation_unit \<Rightarrow> bool" where
  "cu_shape cu \<longleftrightarrow>
     0 < nslots cu \<and> None \<notin> set (cu_priorityQueue cu) \<and>
     (\<forall>t p. cu_bundleTypeToPriority cu t = Some p \<longrightarrow> p < nslots cu) \<and>
     (\<forall>i < nslots cu. \<forall>t. ce_dependency (slot cu i) = Some t \<longrightarrow> priority_of cu t < i)"

lemma priority_of_in: "cu_shape cu \<Longrightarrow> priority_of cu t < nslots cu"
  by (auto simp: cu_shape_def priority_of_def split: option.splits)

lemma slot_Some:
  assumes "cu_shape cu" "i < nslots cu"
  shows "cu_priorityQueue cu ! i = Some (slot cu i)"
proof -
  from assms have "cu_priorityQueue cu ! i \<noteq> None"
    by (metis cu_shape_def nth_mem)
  then show ?thesis by (auto simp: slot_def)
qed

lemma element_at_slot: "cu_shape cu \<Longrightarrow> i < nslots cu \<Longrightarrow> element_at cu i = Inr (slot cu i)"
  by (simp add: element_at_def slot_Some)

lemma shape_dependency:
  "cu_shape cu \<Longrightarrow> i < nslots cu \<Longrightarrow> ce_dependency (slot cu i) = Some t \<Longrightarrow> priority_of cu t < i"
  by (auto simp: cu_shape_def)

text \<open>How the updates of the operations change the slots.\<close>

lemma nslots_set_element [simp]: "nslots (set_element cu i e) = nslots cu"
  by (simp add: set_element_def)

lemma slot_set_element [cu_simps]:
  "i < nslots cu \<Longrightarrow> slot (set_element cu i e) j = (if j = i then e else slot cu j)"
  by (simp add: slot_def set_element_def)

lemma slot_frame [simp]:
  "slot (cu\<lparr>cu_isInReadyQueue := q\<rparr>) i = slot cu i"
  "slot (cu\<lparr>cu_metas := ms\<rparr>) i = slot cu i"
  by (simp_all add: slot_def)

lemma priority_of_frame [simp]:
  "priority_of (cu\<lparr>cu_isInReadyQueue := q\<rparr>) t = priority_of cu t"
  "priority_of (cu\<lparr>cu_metas := ms\<rparr>) t = priority_of cu t"
  "priority_of (set_element cu i e) t = priority_of cu t"
  by (simp_all add: priority_of_def set_element_def)

lemma set_element_frame [simp]:
  "cu_isInReadyQueue (set_element cu i e) = cu_isInReadyQueue cu"
  "cu_metas (set_element cu i e) = cu_metas cu"
  "cu_bundleTypeToPriority (set_element cu i e) = cu_bundleTypeToPriority cu"
  by (simp_all add: set_element_def)

lemma cu_shape_frame [simp]:
  "cu_shape (cu\<lparr>cu_isInReadyQueue := q\<rparr>) = cu_shape cu"
  "cu_shape (cu\<lparr>cu_metas := ms\<rparr>) = cu_shape cu"
  by (simp_all add: cu_shape_def)

lemma cu_shape_set_element:
  assumes "cu_shape cu" "i < nslots cu" "ce_dependency e = ce_dependency (slot cu i)"
  shows "cu_shape (set_element cu i e)"
proof -
  have "None \<notin> set ((cu_priorityQueue cu)[i := Some e])"
    using assms(1) set_update_subset_insert [of "cu_priorityQueue cu" i "Some e"]
    by (auto simp: cu_shape_def)
  moreover have "cu_priorityQueue (set_element cu i e) = (cu_priorityQueue cu)[i := Some e]"
    by (simp add: set_element_def)
  ultimately show ?thesis
    using assms by (auto simp: cu_shape_def slot_set_element)
qed

section \<open>The meaning of the reads\<close>

definition dep_edge :: "conflation_unit \<Rightarrow> nat \<Rightarrow> nat \<Rightarrow> bool" where
  "dep_edge cu i j \<longleftrightarrow> (\<exists>t. ce_dependency (slot cu i) = Some t \<and> j = priority_of cu t)"

definition chain_busy :: "conflation_unit \<Rightarrow> nat \<Rightarrow> bool" where
  "chain_busy cu i \<longleftrightarrow> (\<exists>j. (dep_edge cu)\<^sup>*\<^sup>* i j \<and> ce_isInProcess (slot cu j))"

definition busy :: "conflation_unit \<Rightarrow> bool" where
  "busy cu \<longleftrightarrow> (\<exists>i < nslots cu. ce_isInProcess (slot cu i))"

definition dependency_satisfied :: "conflation_unit \<Rightarrow> nat \<Rightarrow> bool" where
  "dependency_satisfied cu i \<longleftrightarrow>
     (\<forall>t. ce_dependency (slot cu i) = Some t \<longrightarrow>
        (\<exists>b g. ce_bundle (slot cu i) = Some b \<and> GetDependencyGeneration b = Some g \<and>
               g \<le> ce_lastProcessedBundleGeneration (slot cu (priority_of cu t))))"

definition ready :: "conflation_unit \<Rightarrow> nat \<Rightarrow> bool" where
  "ready cu i \<longleftrightarrow>
     ce_bundle (slot cu i) \<noteq> None \<and> \<not> chain_busy cu i \<and> dependency_satisfied cu i"

lemma dep_edge_frame [simp]:
  "dep_edge (cu\<lparr>cu_isInReadyQueue := q\<rparr>) = dep_edge cu"
  "dep_edge (cu\<lparr>cu_metas := ms\<rparr>) = dep_edge cu"
  by (auto simp: dep_edge_def fun_eq_iff)

lemma reads_frame [simp]:
  "busy (cu\<lparr>cu_isInReadyQueue := q\<rparr>) = busy cu"
  "ready (cu\<lparr>cu_isInReadyQueue := q\<rparr>) i = ready cu i"
  "busy (cu\<lparr>cu_metas := ms\<rparr>) = busy cu"
  "ready (cu\<lparr>cu_metas := ms\<rparr>) i = ready cu i"
  by (simp_all add: busy_def ready_def chain_busy_def dependency_satisfied_def)

lemma chain_busy_unfold:
  "chain_busy cu i \<longleftrightarrow>
     ce_isInProcess (slot cu i) \<or>
     (\<exists>t. ce_dependency (slot cu i) = Some t \<and> chain_busy cu (priority_of cu t))"
proof -
  have "chain_busy cu i \<longleftrightarrow>
      ce_isInProcess (slot cu i) \<or> (\<exists>k. dep_edge cu i k \<and> chain_busy cu k)"
    unfolding chain_busy_def
    by (metis converse_rtranclpE converse_rtranclp_into_rtranclp rtranclp.rtrancl_refl)
  then show ?thesis by (auto simp: dep_edge_def)
qed

lemma dep_edge_in: "cu_shape cu \<Longrightarrow> dep_edge cu i j \<Longrightarrow> j < nslots cu"
  by (auto simp: dep_edge_def priority_of_in)

lemma not_busy_chain:
  assumes "cu_shape cu" "\<not> busy cu" "i < nslots cu"
  shows "\<not> chain_busy cu i"
proof
  assume "chain_busy cu i"
  then obtain j where "(dep_edge cu)\<^sup>*\<^sup>* i j" "ce_isInProcess (slot cu j)"
    by (auto simp: chain_busy_def)
  moreover from this(1) have "j < nslots cu"
    by (induction rule: rtranclp_induct) (use assms in \<open>auto dest: dep_edge_in\<close>)
  ultimately show False using assms(2) by (auto simp: busy_def)
qed

text \<open>The walk ends because every dependency has a lower priority number than its dependant.\<close>

lemma walk_dependencies_eq:
  assumes "cu_shape cu" "i < nslots cu"
  shows "walk_dependencies cu (slot cu i) = Some (Inr (chain_busy cu i))"
  using assms(2)
proof (induction i rule: less_induct)
  case (less i)
  show ?case
  proof (cases "ce_dependency (slot cu i)")
    case None
    then show ?thesis
      by (simp add: walk_dependencies.simps [of cu "slot cu i"] chain_busy_unfold [of cu i])
  next
    case (Some t)
    have "priority_of cu t < i" using shape_dependency [OF assms(1) less.prems Some] .
    moreover have "priority_of cu t < nslots cu" using priority_of_in [OF assms(1)] .
    ultimately show ?thesis
      using less.IH Some assms(1)
      by (simp add: walk_dependencies.simps [of cu "slot cu i"] chain_busy_unfold [of cu i]
          element_at_slot)
  qed
qed

lemma checkDependency_eq:
  assumes "cu_shape cu" "i < nslots cu" "ce_bundle (slot cu i) \<noteq> None"
  shows "checkDependency cu (slot cu i) = Inr (dependency_satisfied cu i)"
  using assms priority_of_in [OF assms(1)]
  by (auto simp: checkDependency_def dependency_satisfied_def element_at_slot split: option.splits)

lemma element_ready_eq:
  assumes "cu_shape cu" "i < nslots cu"
  shows "element_ready cu (slot cu i) = Inr (ready cu i)"
  using assms
  by (auto simp: element_ready_def isCurrentOrAnyDependencyInProcess_def walk_dependencies_eq
      checkDependency_eq ready_def)

lemma any_in_process_eq:
  "None \<notin> set ps \<Longrightarrow> any_in_process ps = Inr (\<exists>e. Some e \<in> set ps \<and> ce_isInProcess e)"
proof (induction ps)
  case (Cons p ps)
  then show ?case by (cases p) auto
qed simp

lemma cu_isInProcess_eq: "cu_shape cu \<Longrightarrow> cu_isInProcess cu = Inr (busy cu)"
  by (auto simp: cu_isInProcess_def any_in_process_eq cu_shape_def busy_def slot_def in_set_conv_nth)
     (metis option.sel)+

lemma first_ready_cases:
  assumes "cu_shape cu" "k + length ps = nslots cu" "ps = drop k (cu_priorityQueue cu)"
  shows "(first_ready cu k ps = Inr invalidPriority \<and> (\<forall>i. k \<le> i \<and> i < nslots cu \<longrightarrow> \<not> ready cu i)) \<or>
    (\<exists>i. k \<le> i \<and> i < nslots cu \<and> first_ready cu k ps = Inr (int i) \<and> ready cu i \<and>
         (\<forall>j. k \<le> j \<and> j < i \<longrightarrow> \<not> ready cu j))"
  using assms(2,3)
proof (induction ps arbitrary: k)
  case Nil
  then show ?case by auto
next
  case (Cons p ps)
  have k: "k < nslots cu" using Cons.prems(1) by simp
  have p: "p = Some (slot cu k)"
    using Cons.prems(2) slot_Some [OF assms(1) k] by (metis k nth_via_drop)
  have ps: "ps = drop (Suc k) (cu_priorityQueue cu)"
    using Cons.prems(2) by (metis drop_Suc list.sel(3) tl_drop)
  note er = element_ready_eq [OF assms(1) k]
  show ?case
  proof (cases "ready cu k")
    case True
    with p er k show ?thesis by auto
  next
    case False
    then have eq: "first_ready cu k (p # ps) = first_ready cu (Suc k) ps" using p er by simp
    have ext: "(\<forall>j. k \<le> j \<and> j < i \<longrightarrow> \<not> ready cu j) \<longleftrightarrow> (\<forall>j. Suc k \<le> j \<and> j < i \<longrightarrow> \<not> ready cu j)" for i
      using False by (metis Suc_leD Suc_leI le_neq_implies_less)
    show ?thesis using Cons.IH [of "Suc k"] Cons.prems(1) ps unfolding eq ext
      by (metis Suc_leD add_Suc_right add_Suc_shift length_Cons)
  qed
qed

text \<open>The next priority is the lowest number whose bundle is ready, or \<open>-1\<close> when none is.\<close>

lemma getNext_cases:
  assumes "cu_shape cu"
  obtains (none) "getNextReadyBundlePriority cu = Inr invalidPriority" "\<forall>i < nslots cu. \<not> ready cu i"
  | (some) i where "i < nslots cu" "getNextReadyBundlePriority cu = Inr (int i)" "ready cu i"
      "\<forall>j < i. \<not> ready cu j"
  using first_ready_cases [OF assms, of 0 "cu_priorityQueue cu"]
  unfolding getNextReadyBundlePriority_def by auto

lemma int_not_invalid [simp]: "int i \<noteq> invalidPriority" "int i = invalidPriority \<longleftrightarrow> False"
  by (simp_all add: invalidPriority_def)

end
