(* ===== verification/Conflation_Steps.thy ===== *)
theory Conflation_Steps
  imports Conflation_Invariant
begin

text \<open>
  The invariant of a conflation unit between two operations, and for each operation a closed form of
  its result under the invariant: it returns, and it changes exactly the named slots and flags.
\<close>

section \<open>The invariant\<close>

definition metadata_ok :: "conflation_unit \<Rightarrow> nat \<Rightarrow> u64 \<Rightarrow> meta_ref \<Rightarrow> bool" where
  "metadata_ok cu i g r \<longleftrightarrow>
     r < length (cu_metas cu) \<and> md_generation (cu_metas cu ! r) = g \<and>
     priority_of cu (md_bundleType (cu_metas cu ! r)) = i"

text \<open>
  A slot that holds a bundle holds one newer than the last generation processed, of the type of the
  slot, with metadata of the same generation; a slot in process holds a bundle.
\<close>

definition slot_ok :: "conflation_unit \<Rightarrow> nat \<Rightarrow> bool" where
  "slot_ok cu i \<longleftrightarrow>
     (case ce_bundle (slot cu i) of
        None \<Rightarrow> ce_bundleMetadata (slot cu i) = None \<and> \<not> ce_isInProcess (slot cu i)
      | Some b \<Rightarrow>
          ce_lastProcessedBundleGeneration (slot cu i) < GetGeneration b \<and>
          priority_of cu (GetBundleType b) = i \<and>
          (\<exists>r. ce_bundleMetadata (slot cu i) = Some r \<and> metadata_ok cu i (GetGeneration b) r))"

definition refs_distinct :: "conflation_unit \<Rightarrow> bool" where
  "refs_distinct cu \<longleftrightarrow>
     (\<forall>i < nslots cu. \<forall>j < nslots cu. \<forall>r.
        ce_bundleMetadata (slot cu i) = Some r \<longrightarrow> ce_bundleMetadata (slot cu j) = Some r \<longrightarrow> i = j)"

definition one_in_process :: "conflation_unit \<Rightarrow> bool" where
  "one_in_process cu \<longleftrightarrow>
     (\<forall>i < nslots cu. \<forall>j < nslots cu.
        ce_isInProcess (slot cu i) \<longrightarrow> ce_isInProcess (slot cu j) \<longrightarrow> i = j)"

definition cu_core :: "conflation_unit \<Rightarrow> bool" where
  "cu_core cu \<longleftrightarrow>
     cu_shape cu \<and> (\<forall>i < nslots cu. slot_ok cu i) \<and> refs_distinct cu \<and> one_in_process cu \<and>
     (cu_isInReadyQueue cu \<longrightarrow> \<not> busy cu)"

text \<open>No wake-up is lost: a unit that is neither queued nor in process has nothing ready.\<close>

definition cu_woken :: "conflation_unit \<Rightarrow> bool" where
  "cu_woken cu \<longleftrightarrow>
     cu_isInReadyQueue cu \<or> busy cu \<or> (\<forall>i < nslots cu. \<not> ready cu i)"

definition cu_inv :: "conflation_unit \<Rightarrow> bool" where
  "cu_inv cu \<longleftrightarrow> cu_core cu \<and> cu_woken cu"

text \<open>
  The job of a unit in process: the bundle handed out and its metadata pointer. The metadata still
  has the generation of that bundle, no other slot shares the pointer, and the slot holds the bundle
  itself or a newer one.
\<close>

definition job_ok :: "conflation_unit \<Rightarrow> status_bundle \<Rightarrow> meta_ref \<Rightarrow> bool" where
  "job_ok cu b r \<longleftrightarrow>
     (let p = priority_of cu (GetBundleType b); e = slot cu p
      in ce_isInProcess e \<and> metadata_ok cu p (GetGeneration b) r \<and>
         ce_lastProcessedBundleGeneration e < GetGeneration b \<and>
         (\<forall>j < nslots cu. j \<noteq> p \<longrightarrow> ce_bundleMetadata (slot cu j) \<noteq> Some r) \<and>
         (\<exists>b'. ce_bundle e = Some b' \<and>
               (b' = b \<and> ce_bundleMetadata e = Some r \<or> GetGeneration b < GetGeneration b')))"

lemma cu_core_shape [cu_simps]: "cu_core cu \<Longrightarrow> cu_shape cu"
  by (simp add: cu_core_def)

lemma slot_okD: "cu_core cu \<Longrightarrow> i < nslots cu \<Longrightarrow> slot_ok cu i"
  by (simp add: cu_core_def)

lemma metadata_ok_frame [simp]:
  "metadata_ok (cu\<lparr>cu_isInReadyQueue := q\<rparr>) = metadata_ok cu"
  "metadata_ok (set_element cu i e) = metadata_ok cu"
  by (auto simp: metadata_ok_def fun_eq_iff)

lemma slot_ok_frame [simp]: "slot_ok (cu\<lparr>cu_isInReadyQueue := q\<rparr>) = slot_ok cu"
  by (simp add: slot_ok_def fun_eq_iff cong: option.case_cong)

lemma refs_one_frame [simp]:
  "refs_distinct (cu\<lparr>cu_isInReadyQueue := q\<rparr>) = refs_distinct cu"
  "one_in_process (cu\<lparr>cu_isInReadyQueue := q\<rparr>) = one_in_process cu"
  by (simp_all add: refs_distinct_def one_in_process_def)

lemma job_ok_frame [simp]: "job_ok (cu\<lparr>cu_isInReadyQueue := q\<rparr>) b r = job_ok cu b r"
  by (simp add: job_ok_def)

section \<open>Joining the ready queue\<close>

definition settle ::
  "cu_ref \<Rightarrow> conflation_unit \<Rightarrow> conflation_ready_queue \<Rightarrow> conflation_unit \<times> conflation_ready_queue" where
  "settle me cu rq =
     (if \<not> cu_isInReadyQueue cu \<and> \<not> busy cu \<and> (\<exists>i < nslots cu. ready cu i)
      then (cu\<lparr>cu_isInReadyQueue := True\<rparr>, Enqueue rq me) else (cu, rq))"

lemma addCU_eq:
  assumes "cu_shape cu"
  shows "addCUToReadyQueueIfNeeded me (cu, rq) = Inr (settle me cu rq)"
  by (rule getNext_cases [OF assms])
     (auto simp: addCUToReadyQueueIfNeeded_def settle_def cu_isInProcess_eq assms)

lemma settle_inv: "cu_core cu \<Longrightarrow> cu_inv (fst (settle me cu rq))"
  by (auto simp: settle_def cu_inv_def cu_core_def cu_woken_def)

lemma settle_cases:
  obtains (quiet) "settle me cu rq = (cu, rq)"
  | (enqueue) "settle me cu rq = (cu\<lparr>cu_isInReadyQueue := True\<rparr>, Enqueue rq me)"
      "\<not> cu_isInReadyQueue cu" "\<not> busy cu"
proof (cases "\<not> cu_isInReadyQueue cu \<and> \<not> busy cu \<and> (\<exists>i < nslots cu. ready cu i)")
  case True
  then show ?thesis by (intro enqueue) (auto simp: settle_def)
next
  case False
  then show ?thesis by (intro quiet) (auto simp: settle_def)
qed

lemma settle_frame [simp]:
  "slot (fst (settle me cu rq)) = slot cu"
  "nslots (fst (settle me cu rq)) = nslots cu"
  "cu_metas (fst (settle me cu rq)) = cu_metas cu"
  "priority_of (fst (settle me cu rq)) = priority_of cu"
  "busy (fst (settle me cu rq)) = busy cu"
  "job_ok (fst (settle me cu rq)) b r = job_ok cu b r"
  by (auto simp: settle_def fun_eq_iff)

section \<open>insert\<close>

definition accepts :: "conflation_unit \<Rightarrow> status_bundle \<Rightarrow> bool" where
  "accepts cu b \<longleftrightarrow>
     (let e = slot cu (priority_of cu (GetBundleType b))
      in ce_lastProcessedBundleGeneration e < GetGeneration b \<and>
         (\<forall>b'. ce_bundle e = Some b' \<longrightarrow> GetGeneration b' < GetGeneration b))"

definition stored :: "conflation_unit \<Rightarrow> status_bundle \<Rightarrow> object_meta_data \<Rightarrow> conflation_unit" where
  "stored cu b metadata =
     (let p = priority_of cu (GetBundleType b); (metas, r) = write_metadata cu (slot cu p) b metadata
      in (set_element cu p ((slot cu p)\<lparr>ce_bundle := Some b, ce_bundleMetadata := Some r\<rparr>))
           \<lparr>cu_metas := metas\<rparr>)"

lemma cu_insert_eq:
  assumes "cu_shape cu"
  shows "cu_insert me b metadata (cu, rq) =
    (if accepts cu b then Inr (settle me (stored cu b metadata) rq) else Inr (cu, rq))"
proof -
  let ?p = "priority_of cu (GetBundleType b)"
  note p = priority_of_in [OF assms, of "GetBundleType b"]
  have "cu_shape (stored cu b metadata)"
    using assms p by (simp add: stored_def Let_def cu_shape_set_element split: prod.split)
  then show ?thesis
    using p assms addCU_eq
    by (auto simp: cu_insert_def element_at_slot accepts_def stored_def Let_def not_le
        split: option.splits prod.splits)
qed

lemma nslots_stored [simp]: "nslots (stored cu b m) = nslots cu"
  by (simp add: stored_def Let_def split: prod.split)

lemma priority_of_stored [simp]: "priority_of (stored cu b m) t = priority_of cu t"
  by (simp add: stored_def Let_def split: prod.split)

lemma isInReadyQueue_stored [simp]: "cu_isInReadyQueue (stored cu b m) = cu_isInReadyQueue cu"
  by (simp add: stored_def Let_def split: prod.split)

definition stored_ref :: "conflation_unit \<Rightarrow> status_bundle \<Rightarrow> object_meta_data \<Rightarrow> meta_ref" where
  "stored_ref cu b metadata =
     snd (write_metadata cu (slot cu (priority_of cu (GetBundleType b))) b metadata)"

lemma slot_stored:
  assumes "cu_shape cu"
  shows "slot (stored cu b m) j =
    (if j = priority_of cu (GetBundleType b)
     then (slot cu j)\<lparr>ce_bundle := Some b, ce_bundleMetadata := Some (stored_ref cu b m)\<rparr>
     else slot cu j)"
  using priority_of_in [OF assms, of "GetBundleType b"]
  by (simp add: stored_def stored_ref_def Let_def slot_set_element split: prod.split)

lemma busy_stored: "cu_shape cu \<Longrightarrow> busy (stored cu b m) = busy cu"
proof -
  assume "cu_shape cu"
  then have "ce_isInProcess (slot (stored cu b m) j) = ce_isInProcess (slot cu j)" for j
    by (simp add: slot_stored)
  then show ?thesis by (simp add: busy_def)
qed

lemma shape_stored: "cu_shape cu \<Longrightarrow> cu_shape (stored cu b m)"
  by (simp add: stored_def Let_def cu_shape_set_element priority_of_in split: prod.split)

text \<open>
  The pointer \<open>insert\<close> writes through is new, or it is the one of a slot that is not in process; and
  the metadata of every pointer written elsewhere is untouched.
\<close>

lemma stored_ref_cases:
  obtains (fresh) "stored_ref cu b m = length (cu_metas cu)"
      "\<And>r. r < length (cu_metas cu) \<Longrightarrow> cu_metas (stored cu b m) ! r = cu_metas cu ! r"
      "length (cu_metas (stored cu b m)) = Suc (length (cu_metas cu))"
      "md_bundleType (cu_metas (stored cu b m) ! stored_ref cu b m) = GetBundleType b"
      "md_generation (cu_metas (stored cu b m) ! stored_ref cu b m) = GetGeneration b"
  | (reused) "ce_bundleMetadata (slot cu (priority_of cu (GetBundleType b))) = Some (stored_ref cu b m)"
      "\<not> ce_isInProcess (slot cu (priority_of cu (GetBundleType b)))"
      "cu_metas (stored cu b m) = (cu_metas cu)[stored_ref cu b m :=
         BundleMetadata_update (cu_metas cu ! stored_ref cu b m) (GetGeneration b) m]"
proof (cases "ce_bundleMetadata (slot cu (priority_of cu (GetBundleType b))) \<noteq> None \<and>
    \<not> ce_isInProcess (slot cu (priority_of cu (GetBundleType b)))")
  case True
  then show ?thesis
    by (intro reused) (auto simp: stored_def stored_ref_def write_metadata_def Let_def)
next
  case False
  then show ?thesis
    by (intro fresh)
       (auto simp: stored_def stored_ref_def write_metadata_def Let_def nth_append split: option.splits)
qed

lemma stored_metadata_ok:
  assumes "cu_core cu" "p = priority_of cu (GetBundleType b)"
  shows "metadata_ok (stored cu b m) p (GetGeneration b) (stored_ref cu b m)"
proof (cases rule: stored_ref_cases [of cu b m])
  case fresh
  then show ?thesis using assms(2) by (simp add: metadata_ok_def)
next
  case reused
  have "slot_ok cu p"
    using assms slot_okD priority_of_in [OF cu_core_shape [OF assms(1)]] by blast
  with reused assms(2) show ?thesis
    by (auto simp: slot_ok_def metadata_ok_def BundleMetadata_update_def split: option.splits)
qed

text \<open>A pointer not held by the slot \<open>insert\<close> writes keeps its metadata.\<close>

lemma stored_other_metadata:
  assumes "r < length (cu_metas cu)"
    and "ce_bundleMetadata (slot cu (priority_of cu (GetBundleType b))) = Some r \<longrightarrow>
         ce_isInProcess (slot cu (priority_of cu (GetBundleType b)))"
  shows "cu_metas (stored cu b m) ! r = cu_metas cu ! r"
    and "r < length (cu_metas (stored cu b m))"
    and "r \<noteq> stored_ref cu b m"
  using assms by (cases rule: stored_ref_cases [of cu b m]; auto)+

lemma metadata_ok_stored:
  assumes "metadata_ok cu i g r"
    and "ce_bundleMetadata (slot cu (priority_of cu (GetBundleType b))) = Some r \<longrightarrow>
         ce_isInProcess (slot cu (priority_of cu (GetBundleType b)))"
  shows "metadata_ok (stored cu b m) i g r"
  using assms stored_other_metadata [of r cu b m] by (simp add: metadata_ok_def)

lemma stored_ref_new:
  assumes core: "cu_core cu" and j: "j < nslots cu" "j \<noteq> priority_of cu (GetBundleType b)"
  shows "ce_bundleMetadata (slot cu j) \<noteq> Some (stored_ref cu b m)"
proof
  assume r: "ce_bundleMetadata (slot cu j) = Some (stored_ref cu b m)"
  note p = priority_of_in [OF cu_core_shape [OF core], of "GetBundleType b"]
  have "stored_ref cu b m < length (cu_metas cu)"
    using r slot_okD [OF core j(1)] by (auto simp: slot_ok_def metadata_ok_def split: option.splits)
  moreover have "ce_bundleMetadata (slot cu (priority_of cu (GetBundleType b))) \<noteq> Some (stored_ref cu b m)"
    using core r j p by (auto simp: cu_core_def refs_distinct_def)
  ultimately show False
    by (cases rule: stored_ref_cases [of cu b m]) auto
qed

lemma stored_core:
  assumes core: "cu_core cu" and acc: "accepts cu b"
  shows "cu_core (stored cu b m)"
proof -
  let ?p = "priority_of cu (GetBundleType b)" and ?s = "stored cu b m"
  note sh = cu_core_shape [OF core]
  note ss = slot_stored [OF sh, of b m]
  have new: "slot_ok ?s ?p"
    using acc stored_metadata_ok [OF core refl, of b m] by (simp add: slot_ok_def ss accepts_def Let_def)
  have old: "slot_ok ?s j" if j: "j < nslots cu" "j \<noteq> ?p" for j
  proof -
    have "ce_bundleMetadata (slot cu ?p) \<noteq> ce_bundleMetadata (slot cu j) \<or>
        ce_bundleMetadata (slot cu j) = None"
      using core j priority_of_in [OF sh, of "GetBundleType b"]
      by (force simp: cu_core_def refs_distinct_def)
    with slot_okD [OF core j(1)] show ?thesis
      using j by (auto simp: slot_ok_def ss intro!: metadata_ok_stored split: option.splits)
  qed
  have "refs_distinct ?s"
    using core stored_ref_new [OF core, of _ b m]
    by (auto simp: refs_distinct_def ss cu_core_def)
  moreover have "one_in_process ?s"
    using core by (auto simp: one_in_process_def ss cu_core_def)
  ultimately show ?thesis
    using core new old shape_stored [OF sh] busy_stored [OF sh]
    by (fastforce simp: cu_core_def)
qed

lemma stored_job_ok:
  assumes core: "cu_core cu" and acc: "accepts cu b" and job: "job_ok cu jb r"
  shows "job_ok (stored cu b m) jb r"
proof -
  let ?p = "priority_of cu (GetBundleType jb)" and ?q = "priority_of cu (GetBundleType b)"
  note sh = cu_core_shape [OF core]
  note ss = slot_stored [OF sh, of b m]
  have r: "metadata_ok cu ?p (GetGeneration jb) r" and inp: "ce_isInProcess (slot cu ?p)"
    and other: "\<And>j. j < nslots cu \<Longrightarrow> j \<noteq> ?p \<Longrightarrow> ce_bundleMetadata (slot cu j) \<noteq> Some r"
    using job by (auto simp: job_ok_def Let_def)
  have safe: "ce_bundleMetadata (slot cu ?q) = Some r \<longrightarrow> ce_isInProcess (slot cu ?q)"
    using other priority_of_in [OF sh] inp by metis
  have "r < length (cu_metas cu)" using r by (simp add: metadata_ok_def)
  then have "r \<noteq> stored_ref cu b m" by (rule stored_other_metadata(3)) (rule safe)
  moreover have "metadata_ok (stored cu b m) ?p (GetGeneration jb) r"
    using r safe by (rule metadata_ok_stored)
  moreover have "GetGeneration jb < GetGeneration b" if "?p = ?q"
  proof -
    obtain b' where "ce_bundle (slot cu ?p) = Some b'" "GetGeneration jb \<le> GetGeneration b'"
      using job by (auto simp: job_ok_def Let_def)
    with acc that show ?thesis by (auto simp: accepts_def Let_def)
  qed
  ultimately show ?thesis using job by (auto simp: job_ok_def ss Let_def)
qed

section \<open>GetNext\<close>

definition taken :: "conflation_unit \<Rightarrow> nat \<Rightarrow> conflation_unit" where
  "taken cu i = (set_element cu i ((slot cu i)\<lparr>ce_isInProcess := True\<rparr>))\<lparr>cu_isInReadyQueue := False\<rparr>"

lemma GetNext_cases:
  assumes "cu_shape cu"
  obtains (none) "GetNext cu = Inr (cu, Inl errNoReadyBundle)" "\<forall>i < nslots cu. \<not> ready cu i"
  | (some) i where "i < nslots cu" "ready cu i" "\<forall>j < i. \<not> ready cu j"
      "GetNext cu = Inr (taken cu i, Inr \<lparr>nb_bundle = ce_bundle (slot cu i),
         nb_metadata = ce_bundleMetadata (slot cu i), nb_handlerFunc = ce_handlerFunction (slot cu i)\<rparr>)"
  by (rule getNext_cases [OF assms])
     (auto simp: GetNext_def element_at_slot assms taken_def)

lemma slot_taken: "i < nslots cu \<Longrightarrow>
    slot (taken cu i) j = (if j = i then (slot cu i)\<lparr>ce_isInProcess := True\<rparr> else slot cu j)"
  by (simp add: taken_def slot_set_element)

lemma taken_frame [simp]:
  "nslots (taken cu i) = nslots cu"
  "priority_of (taken cu i) t = priority_of cu t"
  "cu_metas (taken cu i) = cu_metas cu"
  "cu_isInReadyQueue (taken cu i) = False"
  "metadata_ok (taken cu i) = metadata_ok cu"
  by (simp_all add: taken_def)

lemma busy_taken: "i < nslots cu \<Longrightarrow> busy (taken cu i)"
  by (auto simp: busy_def slot_taken)

lemma taken_inv:
  assumes core: "cu_core cu" and idle: "\<not> busy cu" and i: "i < nslots cu" and rdy: "ready cu i"
  shows "cu_inv (taken cu i)"
proof -
  have "cu_shape (taken cu i)"
    using cu_core_shape [OF core] i by (simp add: taken_def cu_shape_set_element)
  moreover have "slot_ok (taken cu i) j" if "j < nslots cu" for j
    using slot_okD [OF core that] rdy i by (auto simp: slot_ok_def slot_taken ready_def split: option.splits)
  moreover have "refs_distinct (taken cu i)" "one_in_process (taken cu i)"
    using core idle i by (auto simp: refs_distinct_def one_in_process_def slot_taken cu_core_def busy_def)
  ultimately show ?thesis
    using busy_taken [OF i] by (simp add: cu_inv_def cu_core_def cu_woken_def)
qed

lemma taken_job_ok:
  assumes core: "cu_core cu" and i: "i < nslots cu" and rdy: "ready cu i"
  obtains b r where "ce_bundle (slot cu i) = Some b" "ce_bundleMetadata (slot cu i) = Some r"
    "job_ok (taken cu i) b r" "priority_of cu (GetBundleType b) = i"
proof -
  obtain b r where b: "ce_bundle (slot cu i) = Some b" "ce_bundleMetadata (slot cu i) = Some r"
      "priority_of cu (GetBundleType b) = i" "metadata_ok cu i (GetGeneration b) r"
      "ce_lastProcessedBundleGeneration (slot cu i) < GetGeneration b"
    using slot_okD [OF core i] rdy by (auto simp: slot_ok_def ready_def)
  moreover have "\<forall>j < nslots cu. j \<noteq> i \<longrightarrow> ce_bundleMetadata (slot cu j) \<noteq> Some r"
    using core i b(2) by (auto simp: cu_core_def refs_distinct_def)
  ultimately have "job_ok (taken cu i) b r"
    using i by (simp add: job_ok_def slot_taken Let_def)
  with b show ?thesis using that by blast
qed

section \<open>ReportResult\<close>

text \<open>
  The unit after the job of bundle \<open>b\<close> has reported: a failure only clears the in-process flag, a
  success records the generation and drops the bundle unless a newer one replaced it.
\<close>

definition finished_element :: "conflation_element \<Rightarrow> status_bundle \<Rightarrow> go_error option \<Rightarrow> conflation_element" where
  "finished_element e b err =
     (if err \<noteq> None then e\<lparr>ce_isInProcess := False\<rparr>
      else if map_option GetGeneration (ce_bundle e) = Some (GetGeneration b)
      then e\<lparr>ce_isInProcess := False, ce_lastProcessedBundleGeneration := GetGeneration b,
             ce_bundle := None, ce_bundleMetadata := None\<rparr>
      else e\<lparr>ce_isInProcess := False, ce_lastProcessedBundleGeneration := GetGeneration b\<rparr>)"

definition reported :: "conflation_unit \<Rightarrow> status_bundle \<Rightarrow> go_error option \<Rightarrow> conflation_unit" where
  "reported cu b err =
     (let p = priority_of cu (GetBundleType b) in set_element cu p (finished_element (slot cu p) b err))"

lemma finished_element_simps [simp]:
  "ce_dependency (finished_element e b err) = ce_dependency e"
  "\<not> ce_isInProcess (finished_element e b err)"
  "ce_bundleType (finished_element e b err) = ce_bundleType e"
  "ce_handlerFunction (finished_element e b err) = ce_handlerFunction e"
  by (simp_all add: finished_element_def)

lemma reported_frame [simp]:
  "nslots (reported cu b err) = nslots cu"
  "priority_of (reported cu b err) t = priority_of cu t"
  "cu_metas (reported cu b err) = cu_metas cu"
  "metadata_ok (reported cu b err) = metadata_ok cu"
  "cu_isInReadyQueue (reported cu b err) = cu_isInReadyQueue cu"
  by (simp_all add: reported_def Let_def)

lemma slot_reported: "cu_shape cu \<Longrightarrow> slot (reported cu b err) j =
    (if j = priority_of cu (GetBundleType b) then finished_element (slot cu j) b err else slot cu j)"
  by (simp add: reported_def slot_set_element priority_of_in Let_def)

lemma shape_reported: "cu_shape cu \<Longrightarrow> cu_shape (reported cu b err)"
  by (simp add: reported_def cu_shape_set_element priority_of_in Let_def)

lemma ReportResult_eq:
  assumes sh: "cu_shape cu" and job: "job_ok cu b r"
  shows "ReportResult me (Some r) err (cu, rq) = Inr (settle me (reported cu b err) rq)"
proof -
  let ?p = "priority_of cu (GetBundleType b)"
  note p = priority_of_in [OF sh, of "GetBundleType b"]
  have m: "priority_of cu (md_bundleType (cu_metas cu ! r)) = ?p"
      "md_generation (cu_metas cu ! r) = GetGeneration b"
      "ce_lastProcessedBundleGeneration (slot cu ?p) < GetGeneration b"
    using job by (simp_all add: job_ok_def metadata_ok_def Let_def)
  obtain b' where b': "ce_bundle (slot cu ?p) = Some b'"
    using job by (auto simp: job_ok_def Let_def)
  have "ReportResult me (Some r) err (cu, rq) =
      addCUToReadyQueueIfNeeded me (reported cu b err, rq)"
  proof (cases err)
    case None
    then show ?thesis
      by (cases "GetGeneration b' = GetGeneration b")
         (simp_all add: ReportResult_def element_at_slot [OF sh p] reported_def finished_element_def
           Let_def m b')
  next
    case Some
    then show ?thesis
      by (simp add: ReportResult_def element_at_slot [OF sh p] reported_def finished_element_def
          Let_def m)
  qed
  then show ?thesis by (simp add: addCU_eq shape_reported sh)
qed

lemma reported_not_busy:
  assumes core: "cu_core cu" and job: "job_ok cu b r"
  shows "\<not> busy (reported cu b err)"
proof -
  note sh = cu_core_shape [OF core]
  have "ce_isInProcess (slot cu (priority_of cu (GetBundleType b)))"
    using job by (simp add: job_ok_def Let_def)
  with core priority_of_in [OF sh, of "GetBundleType b"] show ?thesis
    by (auto simp: busy_def slot_reported [OF sh] cu_core_def one_in_process_def)
qed

lemma reported_core:
  assumes core: "cu_core cu" and job: "job_ok cu b r"
  shows "cu_core (reported cu b err)"
proof -
  let ?p = "priority_of cu (GetBundleType b)"
  note sh = cu_core_shape [OF core]
  note sr = slot_reported [OF sh, of b err]
  obtain b' where b': "ce_bundle (slot cu ?p) = Some b'"
      "b' = b \<or> GetGeneration b < GetGeneration b'"
    using job by (auto simp: job_ok_def Let_def)
  have "slot_ok (reported cu b err) j" if "j < nslots cu" for j
  proof (cases "j = ?p")
    case False
    then have "slot (reported cu b err) j = slot cu j" by (simp add: sr)
    with slot_okD [OF core that] show ?thesis by (simp add: slot_ok_def cong: option.case_cong)
  next
    case True
    have sj: "slot (reported cu b err) ?p = finished_element (slot cu ?p) b err" by (simp add: sr)
    show ?thesis
      using slot_okD [OF core that] b' unfolding True slot_ok_def sj
      by (auto simp: finished_element_def)
  qed
  moreover have "refs_distinct (reported cu b err)"
    using core by (auto simp: refs_distinct_def sr cu_core_def finished_element_def)
  moreover have "one_in_process (reported cu b err)"
    using reported_not_busy [OF core job] by (auto simp: one_in_process_def busy_def)
  ultimately show ?thesis
    using shape_reported [OF sh] reported_not_busy [OF core job] by (auto simp: cu_core_def)
qed

section \<open>Construction\<close>

lemma foldl_addRegistration_length:
  "fold_go addRegistration (pq, types) rs = Inr (pq', types') \<Longrightarrow> length pq' = length pq"
  by (induction rs arbitrary: pq types)
     (auto simp: addRegistration_def bind_go_eq_Inr split: if_splits)

text \<open>
  The registrations of a well-formed configuration: the priorities are exactly \<open>0, 1, \<dots>\<close> in
  some order, and each dependency names a type registered before with a lower priority number.
\<close>

definition registrations_ok :: "conflation_registration list \<Rightarrow> bool" where
  "registrations_ok rs \<longleftrightarrow>
     rs \<noteq> [] \<and> distinct (map reg_priority rs) \<and> distinct (map reg_bundleType rs) \<and>
     list_all (\<lambda>r. reg_priority r < length rs) rs \<and>
     list_all (\<lambda>r. case reg_dependency r of None \<Rightarrow> True
        | Some t \<Rightarrow> list_ex (\<lambda>d. reg_bundleType d = t \<and> reg_priority d < reg_priority r) rs) rs"

lemma fold_addRegistration:
  assumes "list_all (\<lambda>r. reg_priority r < length pq) rs" "distinct (map reg_priority rs)"
    "distinct (map reg_bundleType rs)"
  shows "\<exists>pq' types'. fold_go addRegistration (pq, types) rs = Inr (pq', types') \<and>
     length pq' = length pq \<and>
     (\<forall>r \<in> set rs. pq' ! reg_priority r = Some (newConflationElement r) \<and>
        types' (reg_bundleType r) = Some (reg_priority r)) \<and>
     (\<forall>i. i \<notin> reg_priority ` set rs \<longrightarrow> pq' ! i = pq ! i) \<and>
     (\<forall>t. t \<notin> reg_bundleType ` set rs \<longrightarrow> types' t = types t)"
  using assms
proof (induction rs arbitrary: pq types)
  case Nil
  then show ?case by simp
next
  case (Cons r rs)
  let ?pq = "pq[reg_priority r := Some (newConflationElement r)]"
    and ?types = "types(reg_bundleType r \<mapsto> reg_priority r)"
  have prems: "list_all (\<lambda>r. reg_priority r < length ?pq) rs" "distinct (map reg_priority rs)"
      "distinct (map reg_bundleType rs)"
    using Cons.prems by simp_all
  have "addRegistration (pq, types) r = Inr (?pq, ?types)"
    using Cons.prems by (simp add: addRegistration_def)
  moreover obtain pq' types' where IH: "fold_go addRegistration (?pq, ?types) rs = Inr (pq', types')"
      "length pq' = length ?pq"
      "\<forall>r \<in> set rs. pq' ! reg_priority r = Some (newConflationElement r) \<and>
        types' (reg_bundleType r) = Some (reg_priority r)"
      "\<forall>i. i \<notin> reg_priority ` set rs \<longrightarrow> pq' ! i = ?pq ! i"
      "\<forall>t. t \<notin> reg_bundleType ` set rs \<longrightarrow> types' t = ?types t"
    using Cons.IH [OF prems, of ?types] by blast
  moreover have "reg_priority r \<notin> reg_priority ` set rs" "reg_bundleType r \<notin> reg_bundleType ` set rs"
    using Cons.prems by auto
  ultimately show ?case using Cons.prems(1) by auto
qed

text \<open>The slots of a new unit are the registrations, each at its own priority.\<close>

lemma newConflationUnit_slots:
  assumes ok: "registrations_ok rs"
  obtains cu where "newConflationUnit rs = Inr cu" "nslots cu = length rs"
    "\<And>r. r \<in> set rs \<Longrightarrow> cu_priorityQueue cu ! reg_priority r = Some (newConflationElement r)"
    "\<And>r. r \<in> set rs \<Longrightarrow> priority_of cu (reg_bundleType r) = reg_priority r"
    "\<And>t p. cu_bundleTypeToPriority cu t = Some p \<Longrightarrow> p < length rs"
    "\<And>i. i < length rs \<Longrightarrow> \<exists>r \<in> set rs. reg_priority r = i"
    "\<not> cu_isInReadyQueue cu"
proof -
  obtain pq types where f: "fold_go addRegistration (replicate (length rs) None, Map.empty) rs = Inr (pq, types)"
      "length pq = length rs"
      "\<forall>r \<in> set rs. pq ! reg_priority r = Some (newConflationElement r) \<and>
        types (reg_bundleType r) = Some (reg_priority r)"
      "\<forall>t. t \<notin> reg_bundleType ` set rs \<longrightarrow> types t = None"
    using ok fold_addRegistration [of "replicate (length rs) None" rs Map.empty]
    by (auto simp: registrations_ok_def)
  have "reg_priority ` set rs \<subseteq> {..<length rs}"
    using ok by (auto simp: registrations_ok_def list_all_iff)
  moreover have "card (reg_priority ` set rs) = card {..<length rs}"
    using ok distinct_card [of "map reg_priority rs"] by (simp add: registrations_ok_def)
  ultimately have "reg_priority ` set rs = {..<length rs}"
    by (intro card_subset_eq) simp_all
  then have onto: "\<exists>r \<in> set rs. reg_priority r = i" if "i < length rs" for i
    using that by (metis image_iff lessThan_iff)
  have range: "p < length rs" if "types t = Some p" for t p
  proof -
    have "t \<in> reg_bundleType ` set rs"
      using that f(4) by (cases "t \<in> reg_bundleType ` set rs") auto
    then obtain r where "r \<in> set rs" "t = reg_bundleType r" by blast
    with that f(3) ok show ?thesis by (auto simp: registrations_ok_def list_all_iff)
  qed
  show ?thesis
    by (rule that [of "\<lparr>cu_priorityQueue = pq, cu_bundleTypeToPriority = types,
          cu_isInReadyQueue = False, cu_metas = []\<rparr>"])
       (use f onto range in \<open>auto simp: newConflationUnit_def priority_of_def\<close>)
qed

lemma newConflationUnit_inv:
  assumes ok: "registrations_ok rs"
  obtains cu where "newConflationUnit rs = Inr cu" "cu_inv cu" "\<not> busy cu" "\<not> cu_isInReadyQueue cu"
    "nslots cu = length rs"
proof -
  obtain cu where cu: "newConflationUnit rs = Inr cu" "nslots cu = length rs"
    "\<And>r. r \<in> set rs \<Longrightarrow> cu_priorityQueue cu ! reg_priority r = Some (newConflationElement r)"
    "\<And>r. r \<in> set rs \<Longrightarrow> priority_of cu (reg_bundleType r) = reg_priority r"
    "\<And>t p. cu_bundleTypeToPriority cu t = Some p \<Longrightarrow> p < length rs"
    "\<And>i. i < length rs \<Longrightarrow> \<exists>r \<in> set rs. reg_priority r = i"
    "\<not> cu_isInReadyQueue cu"
    by (rule newConflationUnit_slots [OF ok]) (rule that)
  have new: "\<exists>r \<in> set rs. reg_priority r = i \<and> cu_priorityQueue cu ! i = Some (newConflationElement r)"
    if "i < length rs" for i
    using that cu(3,6) by metis
  then have slots: "\<exists>r \<in> set rs. reg_priority r = i \<and> slot cu i = newConflationElement r"
    if "i < length rs" for i
    using that by (fastforce simp: slot_def)
  have "priority_of cu t < i" if i: "i < length rs" "ce_dependency (slot cu i) = Some t" for i t
  proof -
    obtain r where r: "r \<in> set rs" "reg_priority r = i" "reg_dependency r = Some t"
      using slots [OF i(1)] i(2) by (auto simp: newConflationElement_def)
    then have "\<exists>d \<in> set rs. reg_bundleType d = t \<and> reg_priority d < i"
      using ok by (auto simp: registrations_ok_def list_all_iff list_ex_iff split: option.splits)
    with cu(4) show ?thesis by auto
  qed
  moreover have "None \<notin> set (cu_priorityQueue cu)"
    using new cu(2) by (metis in_set_conv_nth option.distinct(1))
  ultimately have "cu_shape cu"
    using ok cu(2,5) by (auto simp: cu_shape_def registrations_ok_def)
  moreover have empty: "ce_bundle (slot cu i) = None \<and> ce_bundleMetadata (slot cu i) = None \<and>
      \<not> ce_isInProcess (slot cu i)" if "i < length rs" for i
    using slots [OF that] by (auto simp: newConflationElement_def)
  ultimately have "cu_inv cu"
    using cu(2,7) by (auto simp: cu_inv_def cu_core_def cu_woken_def slot_ok_def refs_distinct_def
        one_in_process_def ready_def busy_def)
  moreover have "\<not> busy cu" using empty cu(2) by (auto simp: busy_def)
  ultimately show ?thesis using that cu(1,2,7) by blast
qed

end
