(* ===== verification/Conflation_Manager.thy ===== *)
theory Conflation_Manager
  imports Conflation_Steps
begin

text \<open>
  The conflation manager (\<open>pkg/conflator/conflation_manager.go\<close>): the conflation unit of each leaf
  hub, created from the registrations at its first bundle. A pointer to a unit is the leaf hub name
  it is stored under, so an operation on a unit through its pointer is \<open>with_unit\<close>.
\<close>

record conflation_manager =
  cm_conflationUnits :: "string \<rightharpoonup> conflation_unit"
  cm_registrations :: "conflation_registration list"

definition NewConflationManager :: conflation_manager where
  "NewConflationManager = \<lparr>cm_conflationUnits = Map.empty, cm_registrations = []\<rparr>"

definition Register :: "conflation_manager \<Rightarrow> conflation_registration \<Rightarrow> conflation_manager" where
  "Register cm registration = cm\<lparr>cm_registrations := cm_registrations cm @ [registration]\<rparr>"

definition getConflationUnit ::
  "string \<Rightarrow> conflation_manager \<Rightarrow> (conflation_manager \<times> conflation_unit) go" where
  "getConflationUnit leafHubName cm =
     (case cm_conflationUnits cm leafHubName of
        Some cu \<Rightarrow> Inr (cm, cu)
      | None \<Rightarrow> bind_go (newConflationUnit (cm_registrations cm)) (\<lambda>cu.
          Inr (cm\<lparr>cm_conflationUnits := (cm_conflationUnits cm)(leafHubName \<mapsto> cu)\<rparr>, cu)))"

definition cm_Insert ::
  "status_bundle \<Rightarrow> object_meta_data \<Rightarrow> conflation_manager \<times> conflation_ready_queue \<Rightarrow>
   (conflation_manager \<times> conflation_ready_queue) go" where
  "cm_Insert b metadata = (\<lambda>(cm, rq).
     bind_go (getConflationUnit (GetLeafHubName b) cm) (\<lambda>(cm', cu).
       bind_go (cu_insert (GetLeafHubName b) b metadata (cu, rq)) (\<lambda>(cu', rq').
         Inr (cm'\<lparr>cm_conflationUnits := (cm_conflationUnits cm')(GetLeafHubName b \<mapsto> cu')\<rparr>, rq'))))"

text \<open>A method call on the unit behind a pointer; the pointers that exist point to units.\<close>

definition with_unit ::
  "cu_ref \<Rightarrow> (conflation_unit \<Rightarrow> (conflation_unit \<times> 'a) go) \<Rightarrow> conflation_manager \<Rightarrow>
   (conflation_manager \<times> 'a) go" where
  "with_unit ref f cm =
     bind_go (go_deref (cm_conflationUnits cm ref)) (\<lambda>cu.
       bind_go (f cu) (\<lambda>(cu', x).
         Inr (cm\<lparr>cm_conflationUnits := (cm_conflationUnits cm)(ref \<mapsto> cu')\<rparr>, x)))"

section \<open>Invariant\<close>

definition manager_inv :: "conflation_manager \<Rightarrow> bool" where
  "manager_inv cm \<longleftrightarrow>
     registrations_ok (cm_registrations cm) \<and>
     (\<forall>name cu. cm_conflationUnits cm name = Some cu \<longrightarrow> cu_inv cu)"

text \<open>The unit a leaf hub's next operation finds: the stored one or a new one.\<close>

definition unit_of :: "conflation_manager \<Rightarrow> string \<Rightarrow> conflation_unit" where
  "unit_of cm name =
     (case cm_conflationUnits cm name of
        Some cu \<Rightarrow> cu
      | None \<Rightarrow> (case newConflationUnit (cm_registrations cm) of Inr cu \<Rightarrow> cu | Inl _ \<Rightarrow> undefined))"

lemma getConflationUnit_eq:
  assumes "manager_inv cm"
  shows "getConflationUnit name cm =
      Inr (cm\<lparr>cm_conflationUnits := (cm_conflationUnits cm)(name \<mapsto> unit_of cm name)\<rparr>, unit_of cm name)"
    and "cu_inv (unit_of cm name)"
    and "cm_conflationUnits cm name = None \<Longrightarrow>
      \<not> busy (unit_of cm name) \<and> \<not> cu_isInReadyQueue (unit_of cm name)"
proof -
  have regs: "registrations_ok (cm_registrations cm)"
    using assms by (simp add: manager_inv_def)
  obtain cu where cu: "newConflationUnit (cm_registrations cm) = Inr cu" "cu_inv cu" "\<not> busy cu"
      "\<not> cu_isInReadyQueue cu"
    by (rule newConflationUnit_inv [OF regs]) (rule that)
  show "getConflationUnit name cm =
      Inr (cm\<lparr>cm_conflationUnits := (cm_conflationUnits cm)(name \<mapsto> unit_of cm name)\<rparr>, unit_of cm name)"
    using cu by (cases "cm_conflationUnits cm name")
      (auto simp: getConflationUnit_def unit_of_def map_upd_triv)
  show "cu_inv (unit_of cm name)"
    using assms cu by (auto simp: unit_of_def manager_inv_def split: option.split)
  show "cm_conflationUnits cm name = None \<Longrightarrow>
      \<not> busy (unit_of cm name) \<and> \<not> cu_isInReadyQueue (unit_of cm name)"
    using cu by (simp add: unit_of_def)
qed

text \<open>The result of an insertion, for any bundle: it returns and touches one unit only.\<close>

definition inserted_unit ::
  "conflation_manager \<Rightarrow> status_bundle \<Rightarrow> object_meta_data \<Rightarrow> conflation_ready_queue \<Rightarrow>
   conflation_unit \<times> conflation_ready_queue" where
  "inserted_unit cm b metadata rq =
     (let cu = unit_of cm (GetLeafHubName b)
      in if accepts cu b then settle (GetLeafHubName b) (stored cu b metadata) rq else (cu, rq))"

lemma cm_Insert_eq:
  assumes "manager_inv cm"
  shows "cm_Insert b metadata (cm, rq) =
    (let (cu', rq') = inserted_unit cm b metadata rq
     in Inr (cm\<lparr>cm_conflationUnits := (cm_conflationUnits cm)(GetLeafHubName b \<mapsto> cu')\<rparr>, rq'))"
proof -
  have "cu_shape (unit_of cm (GetLeafHubName b))"
    using getConflationUnit_eq(2) [OF assms] by (simp add: cu_inv_def cu_core_def)
  then show ?thesis
    by (simp add: cm_Insert_def getConflationUnit_eq(1) [OF assms] cu_insert_eq inserted_unit_def
        Let_def split: prod.split)
qed

lemma inserted_unit_inv:
  assumes "manager_inv cm"
  shows "cu_inv (fst (inserted_unit cm b metadata rq))"
  using getConflationUnit_eq(2) [OF assms, of "GetLeafHubName b"]
  by (auto simp: inserted_unit_def Let_def cu_inv_def intro!: settle_inv [unfolded cu_inv_def] stored_core)

lemma manager_inv_upd:
  "manager_inv cm \<Longrightarrow> cu_inv cu \<Longrightarrow>
     manager_inv (cm\<lparr>cm_conflationUnits := (cm_conflationUnits cm)(name \<mapsto> cu)\<rparr>)"
  by (auto simp: manager_inv_def)

end
