(* ===== verification/Sync_Service.thy ===== *)
theory Sync_Service
  imports Conflation_Manager
begin

text \<open>
  The transport (\<open>pkg/transport\<close>, \<open>pkg/transport/sync-service\<close>): the configuration read from the
  environment, the registrations by message id, and the goroutine that turns objects of the sync
  service into bundles of the conflation manager.

  The client of the sync service and the JSON decoder of the objects' types are not part of the
  repository: what they deliver is an argument of the definitions that use it.
\<close>

section \<open>Configuration\<close>

text \<open>\<open>strconv.Atoi\<close>: an optional sign and decimal digits, within the range of a 64-bit integer.\<close>

definition atoi_digits :: "string \<Rightarrow> nat option" where
  "atoi_digits ds = (if ds \<noteq> [] \<and> list_all is_digit ds then Some (digits_value ds) else None)"

definition int_in_range :: "int \<Rightarrow> bool" where
  "int_in_range i \<longleftrightarrow> - (2 ^ 63) \<le> i \<and> i < 2 ^ 63"

definition go_atoi :: "string \<Rightarrow> go_error + int" where
  "go_atoi s =
     (let (sign, ds) = (case s of
          c # cs \<Rightarrow> if c = CHR ''-'' then (-1, cs) else if c = CHR ''+'' then (1, cs) else (1, s)
        | [] \<Rightarrow> (1, s))
      in case atoi_digits ds of
           None \<Rightarrow> Inl ''invalid syntax''
         | Some n \<Rightarrow> if int_in_range (sign * int n) then Inr (sign * int n)
                     else Inl ''value out of range'')"

definition envVarSyncServiceProtocol :: string where
  "envVarSyncServiceProtocol = ''SYNC_SERVICE_PROTOCOL''"

definition envVarSyncServiceHost :: string where
  "envVarSyncServiceHost = ''SYNC_SERVICE_HOST''"

definition envVarSyncServicePort :: string where
  "envVarSyncServicePort = ''SYNC_SERVICE_PORT''"

definition envVarSyncServicePollingInterval :: string where
  "envVarSyncServicePollingInterval = ''SYNC_SERVICE_POLLING_INTERVAL''"

definition errEnvVarNotFound :: go_error where
  "errEnvVarNotFound = ''not found environment variable''"

text \<open>A variable that must be set, and one that must also be a number.\<close>

definition lookup_env :: "(string \<rightharpoonup> string) \<Rightarrow> string \<Rightarrow> go_error + string" where
  "lookup_env env name =
     (case env name of None \<Rightarrow> Inl (errEnvVarNotFound @ '': '' @ name) | Some v \<Rightarrow> Inr v)"

definition parse_env :: "string \<Rightarrow> string \<Rightarrow> go_error + int" where
  "parse_env name v =
     (case go_atoi v of
        Inl err \<Rightarrow> Inl (''the environment var '' @ name @ '' is not valid port - '' @ err)
      | Inr i \<Rightarrow> Inr i)"

text \<open>\<open>uint16(port)\<close> keeps the low 16 bits of the number.\<close>

definition readEnvVars :: "(string \<rightharpoonup> string) \<Rightarrow> go_error + (string \<times> string \<times> 16 word \<times> int)" where
  "readEnvVars env =
     bind_err (lookup_env env envVarSyncServiceProtocol) (\<lambda>protocol.
     bind_err (lookup_env env envVarSyncServiceHost) (\<lambda>host.
     bind_err (lookup_env env envVarSyncServicePort) (\<lambda>portString.
     bind_err (parse_env envVarSyncServicePort portString) (\<lambda>port.
     bind_err (lookup_env env envVarSyncServicePollingInterval) (\<lambda>pollingIntervalString.
     bind_err (parse_env envVarSyncServicePollingInterval pollingIntervalString) (\<lambda>pollingInterval.
       Inr (protocol, host, word_of_int port, pollingInterval)))))))"

section \<open>State\<close>

text \<open>The aggregation level of the configuration is a string type of the data types' repository.\<close>

record bundle_registration =
  tr_MsgID :: string
  tr_CreateBundleFunc :: status_bundle
  tr_Predicate :: "string \<Rightarrow> bool"

text \<open>
  \<open>ss_acknowledged\<close> are the calls of \<open>MarkObjectReceived\<close>; \<open>ss_stopChanClosed\<close> and
  \<open>ss_metaChanClosed\<close> tell which channels are closed; \<open>ss_returned\<close> that the goroutine has ended.
\<close>

record sync_service =
  ss_host :: string
  ss_port :: "16 word"
  ss_pollingInterval :: int
  ss_msgIDToRegistrationMap :: "string \<rightharpoonup> bundle_registration"
  ss_started :: bool
  ss_stopped :: bool
  ss_stopChanClosed :: bool
  ss_metaChanClosed :: bool
  ss_returned :: bool
  ss_acknowledged :: "object_meta_data list"

definition NewSyncService :: "(string \<rightharpoonup> string) \<Rightarrow> go_error + sync_service" where
  "NewSyncService env =
     (case readEnvVars env of
        Inl err \<Rightarrow> Inl (''failed to initialize sync service - '' @ err)
      | Inr (serverProtocol, host, port, pollingInterval) \<Rightarrow>
          Inr \<lparr>ss_host = host, ss_port = port, ss_pollingInterval = pollingInterval,
               ss_msgIDToRegistrationMap = Map.empty, ss_started = False, ss_stopped = False,
               ss_stopChanClosed = False, ss_metaChanClosed = False, ss_returned = False,
               ss_acknowledged = []\<rparr>)"

definition ss_Register :: "bundle_registration \<Rightarrow> sync_service \<Rightarrow> sync_service" where
  "ss_Register registration s =
     s\<lparr>ss_msgIDToRegistrationMap :=
         (ss_msgIDToRegistrationMap s)(tr_MsgID registration \<mapsto> registration)\<rparr>"

definition ss_Start :: "sync_service \<Rightarrow> sync_service" where
  "ss_Start s = s\<lparr>ss_started := True\<rparr>"

text \<open>\<open>sync.Once\<close>: only the first call closes the channels.\<close>

definition ss_Stop :: "sync_service \<Rightarrow> sync_service" where
  "ss_Stop s =
     (if ss_stopped s then s
      else s\<lparr>ss_stopped := True, ss_stopChanClosed := True, ss_metaChanClosed := True\<rparr>)"

section \<open>Handling an object\<close>

text \<open>
  What the loop does with one object before it touches the conflation manager. The object's metadata
  is nil when the channel has been closed; \<open>fetched\<close> is what \<open>FetchObjectData\<close> wrote, \<open>None\<close> when
  it failed; \<open>unmarshal\<close> is the decoder, given the empty bundle the registration creates.
\<close>

datatype object_outcome =
    ReadFailed
  | NoRegistration
  | PredicateFalse
  | ParseFailed go_error
  | BundleReceived status_bundle

definition receive_object ::
  "(string \<Rightarrow> status_bundle \<Rightarrow> go_error + status_bundle) \<Rightarrow> (string \<rightharpoonup> bundle_registration) \<Rightarrow>
   string \<Rightarrow> object_meta_data option \<Rightarrow> string option \<Rightarrow> object_outcome go" where
  "receive_object unmarshal regs level metadata fetched =
     bind_go (go_deref metadata) (\<lambda>m.
       case fetched of
         None \<Rightarrow> Inr ReadFailed
       | Some buffer \<Rightarrow>
           bind_go (go_index (go_split CHR ''.'' (omd_ObjectID m)) 1) (\<lambda>msgID.
             case regs msgID of
               None \<Rightarrow> Inr NoRegistration
             | Some r \<Rightarrow>
                 if \<not> tr_Predicate r level then Inr PredicateFalse
                 else (case unmarshal buffer (tr_CreateBundleFunc r) of
                         Inl err \<Rightarrow> Inr (ParseFailed err)
                       | Inr b \<Rightarrow> Inr (BundleReceived b))))"

text \<open>
  One round of \<open>handleBundles\<close>. The select takes a closed stop channel or an object; when both are
  ready either may be taken, so the choice is an argument. Only a bundle that has been inserted is
  acknowledged; \<open>insertBundle\<close> is the conflation manager's \<open>Insert\<close> on the state it belongs to.
\<close>

datatype select_choice =
    TakeStop
  | TakeObject "object_meta_data option" "string option"

definition handle_bundles_step ::
  "(string \<Rightarrow> status_bundle \<Rightarrow> go_error + status_bundle) \<Rightarrow>
   (status_bundle \<Rightarrow> object_meta_data \<Rightarrow> 's \<Rightarrow> 's go) \<Rightarrow> string \<Rightarrow> select_choice \<Rightarrow>
   sync_service \<times> 's \<Rightarrow> (sync_service \<times> 's) go option" where
  "handle_bundles_step unmarshal insertBundle level choice = (\<lambda>(s, t).
     if \<not> ss_started s \<or> ss_returned s then None
     else (case choice of
         TakeStop \<Rightarrow> if ss_stopChanClosed s then Some (Inr (s\<lparr>ss_returned := True\<rparr>, t)) else None
       | TakeObject metadata fetched \<Rightarrow>
           if (metadata = None) \<noteq> ss_metaChanClosed s then None
           else Some (bind_go
             (receive_object unmarshal (ss_msgIDToRegistrationMap s) level metadata fetched)
             (\<lambda>outcome. case outcome of
                BundleReceived b \<Rightarrow>
                  bind_go (go_deref metadata) (\<lambda>m.
                    bind_go (insertBundle b m t) (\<lambda>t'.
                      Inr (s\<lparr>ss_acknowledged := ss_acknowledged s @ [m]\<rparr>, t')))
              | _ \<Rightarrow> Inr (s, t)))))"

section \<open>Facts\<close>

lemma receive_object_dotless:
  "CHR ''.'' \<notin> set (omd_ObjectID m) \<Longrightarrow>
     receive_object unmarshal regs level (Some m) (Some buffer) = Inl IndexOutOfRange"
  by (simp add: receive_object_def go_split_no_sep)

lemma go_split_second:
  assumes "CHR ''.'' \<notin> set lh" "CHR ''.'' \<notin> set msg"
  shows "go_split CHR ''.'' (lh @ CHR ''.'' # msg) ! 1 = msg"
    and "1 < length (go_split CHR ''.'' (lh @ CHR ''.'' # msg))"
  using assms by (simp_all add: go_split_first go_split_no_sep)

lemma go_split_index_cases:
  "go_index (go_split CHR ''.'' s) (Suc 0) =
     (if CHR ''.'' \<in> set s then Inr (go_split CHR ''.'' s ! Suc 0) else Inl IndexOutOfRange)"
  by (auto simp: go_index_def length_go_split count_list_0_iff go_split_no_sep)

lemma receive_object_returns:
  assumes "CHR ''.'' \<in> set (omd_ObjectID m)"
  shows "\<exists>outcome. receive_object unmarshal regs level (Some m) fetched = Inr outcome \<and>
    (\<forall>b. outcome = BundleReceived b \<longrightarrow>
       (\<exists>r buffer. fetched = Some buffer \<and>
         regs (go_split CHR ''.'' (omd_ObjectID m) ! 1) = Some r \<and> tr_Predicate r level \<and>
         unmarshal buffer (tr_CreateBundleFunc r) = Inr b))"
  using assms
  by (auto simp: receive_object_def go_split_index_cases split: option.splits sum.splits)

end
