(* ===== verification/Worker_Pool.thy ===== *)
theory Worker_Pool
  imports Conflation_Manager
begin

text \<open>
  The pool of database workers (\<open>pkg/db/worker-pool\<close>). Every worker is a goroutine that offers
  itself on the pool's channel, waits for a job or for the end of the context, runs the job's handler
  and reports the result. A channel is the list of what it buffers, a flag when it is closed, and its
  capacity. An operation is \<open>None\<close> when it blocks.
\<close>

section \<open>State\<close>

record db_job =
  job_bundle :: "status_bundle option"
  job_bundleMetadata :: "meta_ref option"
  job_handlerFunc :: bundle_handler
  job_resultReporter :: cu_ref

definition NewDBJob ::
  "status_bundle option \<Rightarrow> meta_ref option \<Rightarrow> bundle_handler \<Rightarrow> cu_ref \<Rightarrow> db_job" where
  "NewDBJob b metadata handlerFunction reporter =
     \<lparr>job_bundle = b, job_bundleMetadata = metadata, job_handlerFunc = handlerFunction,
      job_resultReporter = reporter\<rparr>"

text \<open>
  Where a worker's loop is: about to send itself to the pool's channel, in the select, inside the
  handler of a job, or returned.
\<close>

datatype worker_pc =
    WorkerOffering
  | WorkerSelect
  | WorkerRunning db_job
  | WorkerStopped

record db_worker =
  wk_pc :: worker_pc
  wk_jobsQueue :: "db_job list"
  wk_jobsQueueClosed :: bool

text \<open>
  Workers are numbered from 0 here; \<open>wp_dbWorkers\<close> is the channel of available workers, which \<open>wp_closed\<close>
  tells closed. \<open>wp_cancelled\<close> tells that the context is done, \<open>wp_dbClosed\<close> that the pool of database
  connections has been closed.
\<close>

record db_worker_pool =
  wp_workers :: "db_worker list"
  wp_dbWorkers :: "nat list"
  wp_capacity :: nat
  wp_closed :: bool
  wp_cancelled :: bool
  wp_dbClosed :: bool

definition NewDBWorker :: db_worker where
  "NewDBWorker = \<lparr>wk_pc = WorkerOffering, wk_jobsQueue = [], wk_jobsQueueClosed = False\<rparr>"

definition jobsQueueCapacity :: nat where
  "jobsQueueCapacity = 1"

text \<open>
  The environment decides whether the database can be reached; \<open>connect\<close> is the size of its
  connection pool or the error of \<open>NewPostgreSQL\<close>.
\<close>

definition NewDBWorkerPool :: "(go_error + nat) \<Rightarrow> go_error + db_worker_pool" where
  "NewDBWorkerPool connect =
     (case connect of
        Inl err \<Rightarrow> Inl (''failed to initialize db worker pool - '' @ err)
      | Inr poolSize \<Rightarrow> Inr \<lparr>wp_workers = [], wp_dbWorkers = [], wp_capacity = poolSize,
                            wp_closed = False, wp_cancelled = False, wp_dbClosed = False\<rparr>)"

text \<open>The loop of \<open>Start\<close>: one started worker per connection.\<close>

fun start_workers :: "nat \<Rightarrow> db_worker_pool \<Rightarrow> db_worker_pool" where
  "start_workers 0 pool = pool"
| "start_workers (Suc n) pool = start_workers n (pool\<lparr>wp_workers := wp_workers pool @ [NewDBWorker]\<rparr>)"

definition pool_Start :: "db_worker_pool \<Rightarrow> db_worker_pool" where
  "pool_Start pool = start_workers (wp_capacity pool) pool"

definition set_worker :: "db_worker_pool \<Rightarrow> nat \<Rightarrow> db_worker \<Rightarrow> db_worker_pool" where
  "set_worker pool w wk = pool\<lparr>wp_workers := (wp_workers pool)[w := wk]\<rparr>"

section \<open>Steps of a worker\<close>

text \<open>\<open>worker.dbWorkersPool <- worker\<close>\<close>

definition worker_offer :: "nat \<Rightarrow> db_worker_pool \<Rightarrow> db_worker_pool go option" where
  "worker_offer w pool =
     (if w < length (wp_workers pool) \<and> wk_pc (wp_workers pool ! w) = WorkerOffering
      then if wp_closed pool then Some (Inl SendOnClosedChannel)
           else if length (wp_dbWorkers pool) < wp_capacity pool
           then Some (Inr ((set_worker pool w ((wp_workers pool ! w)\<lparr>wk_pc := WorkerSelect\<rparr>))
                             \<lparr>wp_dbWorkers := wp_dbWorkers pool @ [w]\<rparr>))
           else None
      else None)"

text \<open>\<open>case <-ctx.Done(): close(worker.jobsQueue); return\<close>\<close>

definition worker_stop :: "nat \<Rightarrow> db_worker_pool \<Rightarrow> db_worker_pool go option" where
  "worker_stop w pool =
     (if w < length (wp_workers pool) \<and> wk_pc (wp_workers pool ! w) = WorkerSelect \<and> wp_cancelled pool
      then Some (if wk_jobsQueueClosed (wp_workers pool ! w) then Inl CloseOfClosedChannel
                 else Inr (set_worker pool w
                   ((wp_workers pool ! w)\<lparr>wk_pc := WorkerStopped, wk_jobsQueueClosed := True\<rparr>)))
      else None)"

text \<open>
  \<open>case job := <-worker.jobsQueue\<close>, and the log line that reads the job's bundle before the handler
  is called.
\<close>

definition worker_receive :: "nat \<Rightarrow> db_worker_pool \<Rightarrow> db_worker_pool go option" where
  "worker_receive w pool =
     (if w < length (wp_workers pool) \<and> wk_pc (wp_workers pool ! w) = WorkerSelect
      then (case wk_jobsQueue (wp_workers pool ! w) of
              [] \<Rightarrow> None
            | job # jobs \<Rightarrow>
                Some (bind_go (go_deref (job_bundle job)) (\<lambda>_.
                  Inr (set_worker pool w
                    ((wp_workers pool ! w)\<lparr>wk_pc := WorkerRunning job, wk_jobsQueue := jobs\<rparr>)))))
      else None)"

text \<open>
  The handler has returned \<open>err\<close>: the result is reported to the conflation unit of the job and the
  worker goes round its loop.
\<close>

definition worker_finish ::
  "nat \<Rightarrow> go_error option \<Rightarrow>
   db_worker_pool \<times> conflation_manager \<times> conflation_ready_queue \<Rightarrow>
   (db_worker_pool \<times> conflation_manager \<times> conflation_ready_queue) go option" where
  "worker_finish w err = (\<lambda>(pool, cm, rq).
     (if w < length (wp_workers pool)
      then (case wk_pc (wp_workers pool ! w) of
              WorkerRunning job \<Rightarrow>
                Some (bind_go
                  (with_unit (job_resultReporter job)
                     (\<lambda>cu. ReportResult (job_resultReporter job) (job_bundleMetadata job) err (cu, rq)) cm)
                  (\<lambda>(cm', rq').
                     Inr (set_worker pool w ((wp_workers pool ! w)\<lparr>wk_pc := WorkerOffering\<rparr>), cm', rq')))
            | _ \<Rightarrow> None)
      else None))"

section \<open>Operations of the pool\<close>

text \<open>
  Receiving from the channel of available workers: the oldest one, nil once the channel is closed and
  drained, blocked while it is open and empty.
\<close>

definition Acquire :: "db_worker_pool \<Rightarrow> (nat option \<times> db_worker_pool) option" where
  "Acquire pool =
     (case wp_dbWorkers pool of
        w # ws \<Rightarrow> Some (Some w, pool\<lparr>wp_dbWorkers := ws\<rparr>)
      | [] \<Rightarrow> if wp_closed pool then Some (None, pool) else None)"

definition RunAsync :: "nat option \<Rightarrow> db_job \<Rightarrow> db_worker_pool \<Rightarrow> db_worker_pool go option" where
  "RunAsync worker job pool =
     (case worker of
        None \<Rightarrow> Some (Inl NilDereference)
      | Some w \<Rightarrow>
          let wk = wp_workers pool ! w
          in if wk_jobsQueueClosed wk then Some (Inl SendOnClosedChannel)
             else if length (wk_jobsQueue wk) < jobsQueueCapacity
             then Some (Inr (set_worker pool w (wk\<lparr>wk_jobsQueue := wk_jobsQueue wk @ [job]\<rparr>)))
             else None)"

text \<open>
  \<open>Stop\<close> in three steps: the context is cancelled, the pool of connections is closed, then the channel
  is. \<open>Close\<close> of the connections waits until those in use are given back. A worker uses one only inside
  a call of the database, not from one call to the next, so at the granularity of these steps none is in
  use; what later calls return, an error, is left open by the steps of the workers.
\<close>

definition pool_cancel :: "db_worker_pool \<Rightarrow> db_worker_pool" where
  "pool_cancel pool = pool\<lparr>wp_cancelled := True\<rparr>"

definition pool_stop_db :: "db_worker_pool \<Rightarrow> db_worker_pool" where
  "pool_stop_db pool = pool\<lparr>wp_dbClosed := True\<rparr>"

definition pool_close :: "db_worker_pool \<Rightarrow> db_worker_pool go" where
  "pool_close pool =
     (if wp_closed pool then Inl CloseOfClosedChannel else Inr (pool\<lparr>wp_closed := True\<rparr>))"

lemma start_workers_eq:
  "start_workers n pool = pool\<lparr>wp_workers := wp_workers pool @ replicate n NewDBWorker\<rparr>"
  by (induction n arbitrary: pool) (simp_all add: replicate_app_Cons_same)

lemma set_worker_simps [simp]:
  "length (wp_workers (set_worker pool w wk)) = length (wp_workers pool)"
  "wp_dbWorkers (set_worker pool w wk) = wp_dbWorkers pool"
  "wp_capacity (set_worker pool w wk) = wp_capacity pool"
  "wp_closed (set_worker pool w wk) = wp_closed pool"
  "wp_cancelled (set_worker pool w wk) = wp_cancelled pool"
  "wp_dbClosed (set_worker pool w wk) = wp_dbClosed pool"
  by (simp_all add: set_worker_def)

lemma set_worker_nth:
  "w < length (wp_workers pool) \<Longrightarrow>
     wp_workers (set_worker pool w wk) ! v = (if v = w then wk else wp_workers pool ! v)"
  by (simp add: set_worker_def)

end
