(* ===== verification/Dispatcher.thy ===== *)
theory Dispatcher
  imports Worker_Pool
begin

text \<open>
  The dispatcher (\<open>pkg/controller/dispatcher/dispatcher.go\<close>): it takes a conflation unit off the ready
  queue, acquires a worker, asks the unit for its next bundle and hands the job to the worker. Each
  call that can block or that another goroutine can observe is one step of \<open>dispatch\<close>.
\<close>

datatype dispatcher_pc =
    DispSelect
  | DispDequeue
  | DispAcquire cu_ref
  | DispGetNext cu_ref "nat option"
  | DispRun "nat option" db_job
  | DispStopped

record dispatcher =
  dp_pc :: dispatcher_pc
  dp_cancelled :: bool

definition NewDispatcher :: dispatcher where
  "NewDispatcher = \<lparr>dp_pc = DispSelect, dp_cancelled = False\<rparr>"

text \<open>The state \<open>dispatch\<close> works on: itself and what it shares with the other goroutines.\<close>

record bridge =
  br_dispatcher :: dispatcher
  br_manager :: conflation_manager
  br_readyQueue :: conflation_ready_queue
  br_pool :: db_worker_pool

definition goto :: "bridge \<Rightarrow> dispatcher_pc \<Rightarrow> bridge" where
  "goto s pc = s\<lparr>br_dispatcher := (br_dispatcher s)\<lparr>dp_pc := pc\<rparr>\<rparr>"

text \<open>\<open>Start\<close> cancels the context when the stop channel is closed.\<close>

definition dispatcher_cancel :: "bridge \<Rightarrow> bridge" where
  "dispatcher_cancel s = s\<lparr>br_dispatcher := (br_dispatcher s)\<lparr>dp_cancelled := True\<rparr>\<rparr>"

definition dispatch :: "bridge \<Rightarrow> bridge go option" where
  "dispatch s =
     (case dp_pc (br_dispatcher s) of
        DispSelect \<Rightarrow>
          Some (Inr (goto s (if dp_cancelled (br_dispatcher s) then DispStopped else DispDequeue)))
      | DispDequeue \<Rightarrow>
          (case BlockingDequeue (br_readyQueue s) of
             None \<Rightarrow> None
           | Some (cu, rq) \<Rightarrow> Some (Inr (goto (s\<lparr>br_readyQueue := rq\<rparr>) (DispAcquire cu))))
      | DispAcquire cu \<Rightarrow>
          (case Acquire (br_pool s) of
             None \<Rightarrow> None
           | Some (w, pool) \<Rightarrow> Some (Inr (goto (s\<lparr>br_pool := pool\<rparr>) (DispGetNext cu w))))
      | DispGetNext cu w \<Rightarrow>
          Some (bind_go (with_unit cu GetNext (br_manager s)) (\<lambda>(cm, result).
            Inr (case result of
                   Inl err \<Rightarrow> goto (s\<lparr>br_manager := cm\<rparr>) DispSelect
                 | Inr nb \<Rightarrow> goto (s\<lparr>br_manager := cm\<rparr>)
                     (DispRun w (NewDBJob (nb_bundle nb) (nb_metadata nb) (nb_handlerFunc nb) cu)))))
      | DispRun w job \<Rightarrow>
          (case RunAsync w job (br_pool s) of
             None \<Rightarrow> None
           | Some r \<Rightarrow> Some (bind_go r (\<lambda>pool. Inr (goto (s\<lparr>br_pool := pool\<rparr>) DispSelect))))
      | DispStopped \<Rightarrow> None)"

end
