(* ===== verification/Bridge_System.thy ===== *)
theory Bridge_System
  imports Dispatcher
begin

text \<open>
  The running bridge: the transport inserts bundles, the dispatcher and the workers take their steps,
  in any order. An event is one atomic step of one goroutine; \<open>perform\<close> is \<open>None\<close> when that goroutine
  is blocked there, and a panic when the step panics.
\<close>

section \<open>Events\<close>

datatype bridge_event =
    EvInsert status_bundle object_meta_data
  | EvDispatch
  | EvOffer nat
  | EvReceive nat
  | EvFinish nat "go_error option"
  | EvWorkerStop nat
  | EvDispatcherCancel
  | EvPoolCancel
  | EvPoolStopDB
  | EvPoolClose

fun perform :: "bridge_event \<Rightarrow> bridge \<Rightarrow> bridge go option" where
  "perform (EvInsert b metadata) s =
     Some (bind_go (cm_Insert b metadata (br_manager s, br_readyQueue s)) (\<lambda>(cm, rq).
       Inr (s\<lparr>br_manager := cm, br_readyQueue := rq\<rparr>)))"
| "perform EvDispatch s = dispatch s"
| "perform (EvOffer w) s =
     map_option (\<lambda>r. bind_go r (\<lambda>pool. Inr (s\<lparr>br_pool := pool\<rparr>))) (worker_offer w (br_pool s))"
| "perform (EvReceive w) s =
     map_option (\<lambda>r. bind_go r (\<lambda>pool. Inr (s\<lparr>br_pool := pool\<rparr>))) (worker_receive w (br_pool s))"
| "perform (EvFinish w err) s =
     map_option (\<lambda>r. bind_go r (\<lambda>(pool, cm, rq).
         Inr (s\<lparr>br_pool := pool, br_manager := cm, br_readyQueue := rq\<rparr>)))
       (worker_finish w err (br_pool s, br_manager s, br_readyQueue s))"
| "perform (EvWorkerStop w) s =
     map_option (\<lambda>r. bind_go r (\<lambda>pool. Inr (s\<lparr>br_pool := pool\<rparr>))) (worker_stop w (br_pool s))"
| "perform EvDispatcherCancel s = Some (Inr (dispatcher_cancel s))"
| "perform EvPoolCancel s = Some (Inr (s\<lparr>br_pool := pool_cancel (br_pool s)\<rparr>))"
| "perform EvPoolStopDB s = Some (Inr (s\<lparr>br_pool := pool_stop_db (br_pool s)\<rparr>))"
| "perform EvPoolClose s =
     Some (bind_go (pool_close (br_pool s)) (\<lambda>pool. Inr (s\<lparr>br_pool := pool\<rparr>)))"

text \<open>The events of a run in which the worker pool has not been stopped.\<close>

fun running_event :: "bridge_event \<Rightarrow> bool" where
  "running_event EvPoolCancel = False"
| "running_event EvPoolStopDB = False"
| "running_event EvPoolClose = False"
| "running_event _ = True"

text \<open>
  The state after the setup: the registrations are in place, the pool of the given size has been
  started, nothing has been received.
\<close>

definition initial_bridge :: "conflation_registration list \<Rightarrow> nat \<Rightarrow> bridge" where
  "initial_bridge rs poolSize =
     \<lparr>br_dispatcher = NewDispatcher,
      br_manager = foldl Register NewConflationManager rs,
      br_readyQueue = NewConflationReadyQueue,
      br_pool = pool_Start \<lparr>wp_workers = [], wp_dbWorkers = [], wp_capacity = poolSize,
                            wp_closed = False, wp_cancelled = False, wp_dbClosed = False\<rparr>\<rparr>"

inductive reachable :: "bridge \<Rightarrow> bridge \<Rightarrow> bool" for s0 where
  start: "reachable s0 s0"
| step: "reachable s0 s \<Longrightarrow> running_event e \<Longrightarrow> perform e s = Some (Inr t) \<Longrightarrow> reachable s0 t"

lemma run_reachable:
  "reachable s0 s \<Longrightarrow> list_all running_event es \<Longrightarrow> run_steps perform es s = Some (Inr t) \<Longrightarrow>
     reachable s0 t"
  by (induction es arbitrary: s) (auto intro: reachable.step split: option.splits sum.splits)

section \<open>Where units, jobs and workers are\<close>

datatype place = AtDispatcher | AtWorker nat

definition worker_job :: "db_worker \<Rightarrow> db_job option" where
  "worker_job wk =
     (case wk_pc wk of
        WorkerRunning j \<Rightarrow> Some j
      | _ \<Rightarrow> (case wk_jobsQueue wk of [] \<Rightarrow> None | j # _ \<Rightarrow> Some j))"

definition job_at :: "bridge \<Rightarrow> place \<Rightarrow> db_job option" where
  "job_at s p =
     (case p of
        AtDispatcher \<Rightarrow> (case dp_pc (br_dispatcher s) of DispRun w j \<Rightarrow> Some j | _ \<Rightarrow> None)
      | AtWorker i \<Rightarrow>
          if i < length (wp_workers (br_pool s)) then worker_job (wp_workers (br_pool s) ! i) else None)"

definition held_unit :: "bridge \<Rightarrow> cu_ref option" where
  "held_unit s =
     (case dp_pc (br_dispatcher s) of
        DispAcquire cu \<Rightarrow> Some cu | DispGetNext cu w \<Rightarrow> Some cu | _ \<Rightarrow> None)"

definition held_worker :: "bridge \<Rightarrow> nat option" where
  "held_worker s =
     (case dp_pc (br_dispatcher s) of DispGetNext cu w \<Rightarrow> w | DispRun w j \<Rightarrow> w | _ \<Rightarrow> None)"

abbreviation units :: "bridge \<Rightarrow> string \<rightharpoonup> conflation_unit" where
  "units s \<equiv> cm_conflationUnits (br_manager s)"

section \<open>Invariant\<close>

text \<open>A unit holds the bundles of its leaf hub, and the slots are those of the registrations.\<close>

definition unit_matches :: "conflation_registration list \<Rightarrow> string \<Rightarrow> conflation_unit \<Rightarrow> bool" where
  "unit_matches rs name u \<longleftrightarrow>
     nslots u = length rs \<and>
     (\<forall>r \<in> set rs. priority_of u (reg_bundleType r) = reg_priority r \<and>
        ce_handlerFunction (slot u (reg_priority r)) = reg_handlerFunction r \<and>
        ce_dependency (slot u (reg_priority r)) = reg_dependency r) \<and>
     (\<forall>i < nslots u. \<forall>b. ce_bundle (slot u i) = Some b \<longrightarrow> GetLeafHubName b = name)"

text \<open>
  A unit is at most once in the ready queue or in the dispatcher's hands, and then it has the flag
  that keeps it from being enqueued again.
\<close>

definition queue_ok :: "bridge \<Rightarrow> bool" where
  "queue_ok s \<longleftrightarrow>
     distinct (rq_queue (br_readyQueue s)) \<and>
     (\<forall>cu. held_unit s = Some cu \<longrightarrow> cu \<notin> set (rq_queue (br_readyQueue s))) \<and>
     (\<forall>cu. cu \<in> set (rq_queue (br_readyQueue s)) \<or> held_unit s = Some cu \<longrightarrow>
        (\<exists>u. units s cu = Some u \<and> cu_isInReadyQueue u))"

definition good_job :: "bridge \<Rightarrow> db_job \<Rightarrow> bool" where
  "good_job s j \<longleftrightarrow>
     (\<exists>u b r. units s (job_resultReporter j) = Some u \<and> job_bundle j = Some b \<and>
        job_bundleMetadata j = Some r \<and> job_ok u b r \<and> GetLeafHubName b = job_resultReporter j \<and>
        (\<forall>reg \<in> set (cm_registrations (br_manager s)).
           reg_bundleType reg = GetBundleType b \<longrightarrow> job_handlerFunc j = reg_handlerFunction reg))"

definition jobs_ok :: "bridge \<Rightarrow> bool" where
  "jobs_ok s \<longleftrightarrow>
     (\<forall>p j. job_at s p = Some j \<longrightarrow> good_job s j) \<and>
     (\<forall>p q j k. job_at s p = Some j \<longrightarrow> job_at s q = Some k \<longrightarrow>
        job_resultReporter j = job_resultReporter k \<longrightarrow> p = q) \<and>
     (\<forall>name u. units s name = Some u \<longrightarrow> busy u \<longrightarrow>
        (\<exists>p j. job_at s p = Some j \<and> job_resultReporter j = name))"

text \<open>
  A worker in the channel or in the dispatcher's hands waits in its select with an empty queue; no
  worker is in both; a worker about to offer itself or running a job has an empty queue.
\<close>

definition worker_ok :: "db_worker \<Rightarrow> bool" where
  "worker_ok wk \<longleftrightarrow>
     \<not> wk_jobsQueueClosed wk \<and> wk_pc wk \<noteq> WorkerStopped \<and>
     length (wk_jobsQueue wk) \<le> jobsQueueCapacity \<and>
     (wk_pc wk \<noteq> WorkerSelect \<longrightarrow> wk_jobsQueue wk = [])"

definition worker_free :: "db_worker_pool \<Rightarrow> nat \<Rightarrow> bool" where
  "worker_free pool w \<longleftrightarrow>
     w < length (wp_workers pool) \<and> wk_pc (wp_workers pool ! w) = WorkerSelect \<and>
     wk_jobsQueue (wp_workers pool ! w) = []"

definition pool_ok :: "bridge \<Rightarrow> bool" where
  "pool_ok s \<longleftrightarrow>
     (let pool = br_pool s in
       length (wp_workers pool) = wp_capacity pool \<and> \<not> wp_closed pool \<and> \<not> wp_cancelled pool \<and>
       (\<forall>w < length (wp_workers pool). worker_ok (wp_workers pool ! w)) \<and>
       distinct (wp_dbWorkers pool) \<and>
       (\<forall>w. w \<in> set (wp_dbWorkers pool) \<or> held_worker s = Some w \<longrightarrow> worker_free pool w) \<and>
       (\<forall>w. held_worker s = Some w \<longrightarrow> w \<notin> set (wp_dbWorkers pool)) \<and>
       (\<forall>cu. dp_pc (br_dispatcher s) \<noteq> DispGetNext cu None) \<and>
       (\<forall>j. dp_pc (br_dispatcher s) \<noteq> DispRun None j))"

definition bridge_inv :: "bridge \<Rightarrow> bool" where
  "bridge_inv s \<longleftrightarrow>
     manager_inv (br_manager s) \<and>
     (\<forall>name u. units s name = Some u \<longrightarrow> unit_matches (cm_registrations (br_manager s)) name u) \<and>
     queue_ok s \<and> jobs_ok s \<and> pool_ok s"

end
