(* ===== verification/Bridge_Invariant.thy ===== *)
theory Bridge_Invariant
  imports Bridge_System
begin

text \<open>
  Every step of a running bridge returns and keeps the invariant: one lemma per event, then the
  reachable states through an interpretation of the invariant rule.
\<close>

section \<open>Single units\<close>

lemma newConflationUnit_matches:
  assumes "registrations_ok rs" "newConflationUnit rs = Inr cu"
  shows "unit_matches rs name cu"
proof (rule newConflationUnit_slots [OF assms(1)])
  fix cu'
  assume cu': "newConflationUnit rs = Inr cu'" "nslots cu' = length rs"
    "\<And>r. r \<in> set rs \<Longrightarrow> cu_priorityQueue cu' ! reg_priority r = Some (newConflationElement r)"
    "\<And>r. r \<in> set rs \<Longrightarrow> priority_of cu' (reg_bundleType r) = reg_priority r"
    "\<And>i. i < length rs \<Longrightarrow> \<exists>r \<in> set rs. reg_priority r = i"
  have slots: "slot cu' (reg_priority r) = newConflationElement r" if "r \<in> set rs" for r
    using cu'(3) [OF that] by (simp add: slot_def)
  have "ce_bundle (slot cu' i) = None" if "i < length rs" for i
    using cu'(5) [OF that] slots by (auto simp: newConflationElement_def)
  then show ?thesis
    using cu'(1,2,4) slots assms(2) by (auto simp: unit_matches_def newConflationElement_def)
qed

lemma unit_matches_settle [simp]:
  "unit_matches rs name (fst (settle me u rq)) = unit_matches rs name u"
  by (simp add: unit_matches_def)

lemma unit_matches_slots:
  assumes "unit_matches rs name u" "nslots u' = nslots u" "\<And>t. priority_of u' t = priority_of u t"
    and "\<And>i. ce_handlerFunction (slot u' i) = ce_handlerFunction (slot u i)"
    and "\<And>i. ce_dependency (slot u' i) = ce_dependency (slot u i)"
    and "\<And>i b. i < nslots u \<Longrightarrow> ce_bundle (slot u' i) = Some b \<Longrightarrow>
           ce_bundle (slot u i) = Some b \<or> GetLeafHubName b = name"
  shows "unit_matches rs name u'"
proof -
  have "GetLeafHubName b = name" if "i < nslots u" "ce_bundle (slot u' i) = Some b" for i b
    using assms(1) assms(6) [OF that] that(1) by (auto simp: unit_matches_def)
  then show ?thesis using assms(1-5) by (simp add: unit_matches_def)
qed

lemma unit_matches_stored:
  "unit_matches rs (GetLeafHubName b) u \<Longrightarrow> cu_shape u \<Longrightarrow>
     unit_matches rs (GetLeafHubName b) (stored u b m)"
  by (erule unit_matches_slots) (auto simp: slot_stored split: if_splits)

lemma unit_matches_taken:
  "unit_matches rs name u \<Longrightarrow> i < nslots u \<Longrightarrow> unit_matches rs name (taken u i)"
  by (erule unit_matches_slots) (auto simp: slot_taken split: if_splits)

lemma unit_matches_reported:
  "unit_matches rs name u \<Longrightarrow> cu_shape u \<Longrightarrow> unit_matches rs name (reported u b err)"
  by (erule unit_matches_slots) (auto simp: slot_reported finished_element_def split: if_splits)

lemma unit_of_matches:
  assumes "bridge_inv s"
  shows "unit_matches (cm_registrations (br_manager s)) name (unit_of (br_manager s) name)"
proof (cases "units s name")
  case None
  have regs: "registrations_ok (cm_registrations (br_manager s))"
    using assms by (simp add: bridge_inv_def manager_inv_def)
  obtain cu where "newConflationUnit (cm_registrations (br_manager s)) = Inr cu"
    by (rule newConflationUnit_inv [OF regs]) (rule that)
  with None newConflationUnit_matches [OF regs] show ?thesis by (simp add: unit_of_def)
next
  case (Some u)
  with assms show ?thesis by (simp add: unit_of_def bridge_inv_def)
qed

lemma job_ok_busy: "cu_shape u \<Longrightarrow> job_ok u b r \<Longrightarrow> busy u"
  by (auto simp: job_ok_def busy_def Let_def intro: priority_of_in)

section \<open>Frames\<close>

lemma job_at_cong:
  assumes "br_dispatcher s = br_dispatcher t" "br_pool s = br_pool t"
  shows "job_at s = job_at t"
  unfolding job_at_def assms ..

lemma places_frame [simp]:
  "job_at (s\<lparr>br_manager := cm\<rparr>) = job_at s"
  "job_at (s\<lparr>br_readyQueue := rq\<rparr>) = job_at s"
  "held_unit (s\<lparr>br_manager := cm\<rparr>) = held_unit s"
  "held_unit (s\<lparr>br_readyQueue := rq\<rparr>) = held_unit s"
  "held_unit (s\<lparr>br_pool := pool\<rparr>) = held_unit s"
  "held_worker (s\<lparr>br_manager := cm\<rparr>) = held_worker s"
  "held_worker (s\<lparr>br_readyQueue := rq\<rparr>) = held_worker s"
  "held_worker (s\<lparr>br_pool := pool\<rparr>) = held_worker s"
  by (simp_all add: held_unit_def held_worker_def cong: job_at_cong)

lemma pool_ok_frame [simp]:
  "pool_ok (s\<lparr>br_manager := cm\<rparr>) = pool_ok s"
  "pool_ok (s\<lparr>br_readyQueue := rq\<rparr>) = pool_ok s"
  by (simp_all add: pool_ok_def)

lemma jobs_ok_frame [simp]: "jobs_ok (s\<lparr>br_readyQueue := rq\<rparr>) = jobs_ok s"
  by (simp add: jobs_ok_def good_job_def)

text \<open>One unit changes, the jobs stay where they are.\<close>

lemma jobs_ok_unit_upd:
  assumes jobs: "jobs_ok s"
    and new: "units s n = None \<Longrightarrow> \<not> busy u'"
    and old: "\<And>u. units s n = Some u \<Longrightarrow> busy u' \<Longrightarrow> busy u"
    and keep: "\<And>u b r. units s n = Some u \<Longrightarrow> job_ok u b r \<Longrightarrow> job_ok u' b r"
  shows "jobs_ok (s\<lparr>br_manager := (br_manager s)\<lparr>cm_conflationUnits := (units s)(n \<mapsto> u')\<rparr>\<rparr>)"
    (is "jobs_ok ?s")
proof -
  have good: "good_job ?s j" if "good_job s j" for j
  proof (cases "job_resultReporter j = n")
    case True
    with that keep show ?thesis by (fastforce simp: good_job_def)
  next
    case False
    with that show ?thesis by (simp add: good_job_def)
  qed
  have "\<exists>p j. job_at s p = Some j \<and> job_resultReporter j = name"
    if u: "((units s)(n \<mapsto> u')) name = Some u" "busy u" for name u
  proof (cases "name = n")
    case True
    then have "busy u'" using u by simp
    with new old True jobs show ?thesis by (cases "units s n") (auto simp: jobs_ok_def)
  next
    case False
    with u jobs show ?thesis by (auto simp: jobs_ok_def)
  qed
  with jobs good show ?thesis by (simp add: jobs_ok_def)
qed

lemma queue_okD:
  assumes "queue_ok s" "cu \<in> set (rq_queue (br_readyQueue s)) \<or> held_unit s = Some cu"
  obtains u where "units s cu = Some u" "cu_isInReadyQueue u"
  using assms unfolding queue_ok_def by blast

lemma queue_ok_unit_upd:
  assumes q: "queue_ok s"
    and flag: "\<And>u. units s n = Some u \<Longrightarrow> cu_isInReadyQueue u \<Longrightarrow> cu_isInReadyQueue u'"
  shows "queue_ok (s\<lparr>br_manager := (br_manager s)\<lparr>cm_conflationUnits := (units s)(n \<mapsto> u')\<rparr>\<rparr>)"
    (is "queue_ok ?s")
proof -
  have "\<exists>u. units ?s cu = Some u \<and> cu_isInReadyQueue u"
    if "cu \<in> set (rq_queue (br_readyQueue s)) \<or> held_unit s = Some cu" for cu
    by (rule queue_okD [OF q that]) (use flag in auto)
  with q show ?thesis by (simp add: queue_ok_def)
qed

text \<open>A unit that is not flagged is neither queued nor held; it may join the queue.\<close>

lemma queue_ok_enqueue:
  assumes q: "queue_ok s" and u: "units s n = Some u" "cu_isInReadyQueue u"
    and free: "n \<notin> set (rq_queue (br_readyQueue s))" "held_unit s \<noteq> Some n"
  shows "queue_ok (s\<lparr>br_readyQueue := Enqueue (br_readyQueue s) n\<rparr>)"
  using q u free by (auto simp: queue_ok_def rq.contents_enq)

lemma queue_ok_settle:
  assumes q: "queue_ok s"
    and flag: "\<And>u. units s n = Some u \<Longrightarrow> cu_isInReadyQueue u' = cu_isInReadyQueue u"
    and new: "units s n = None \<Longrightarrow> \<not> cu_isInReadyQueue u'"
    and eq: "settle n u' (br_readyQueue s) = (u'', rq)"
  shows "queue_ok (s\<lparr>br_manager := (br_manager s)\<lparr>cm_conflationUnits := (units s)(n \<mapsto> u'')\<rparr>,
                     br_readyQueue := rq\<rparr>)"
proof (cases rule: settle_cases [of n u' "br_readyQueue s"])
  case quiet
  with eq have "u'' = u'" "rq = br_readyQueue s" by simp_all
  with queue_ok_unit_upd [OF q, of n u'] flag show ?thesis by simp
next
  case enqueue
  have "\<not> (n \<in> set (rq_queue (br_readyQueue s)) \<or> held_unit s = Some n)"
    using queue_okD [OF q, of n] flag enqueue(2) by metis
  then have free: "n \<notin> set (rq_queue (br_readyQueue s))" "held_unit s \<noteq> Some n" by simp_all
  have eqs: "u'' = u'\<lparr>cu_isInReadyQueue := True\<rparr>" "rq = Enqueue (br_readyQueue s) n"
    using eq enqueue(1) by simp_all
  have "queue_ok (s\<lparr>br_manager := (br_manager s)\<lparr>cm_conflationUnits := (units s)(n \<mapsto> u'')\<rparr>\<rparr>)"
    by (rule queue_ok_unit_upd [OF q]) (simp add: eqs)
  from queue_ok_enqueue [OF this, of n u''] free eqs show ?thesis by simp
qed

section \<open>insert\<close>

lemma perform_insert_inv:
  assumes inv: "bridge_inv s"
  shows "\<exists>t. perform (EvInsert b m) s = Some (Inr t) \<and> bridge_inv t"
proof -
  let ?n = "GetLeafHubName b"
  let ?u = "unit_of (br_manager s) ?n"
  have mi: "manager_inv (br_manager s)" using inv by (simp add: bridge_inv_def)
  obtain u' rq' where ins: "inserted_unit (br_manager s) b m (br_readyQueue s) = (u', rq')"
    by (cases "inserted_unit (br_manager s) b m (br_readyQueue s)")
  let ?t = "s\<lparr>br_manager := (br_manager s)\<lparr>cm_conflationUnits := (units s)(?n \<mapsto> u')\<rparr>,
              br_readyQueue := rq'\<rparr>"
  have step: "perform (EvInsert b m) s = Some (Inr ?t)"
    by (simp add: cm_Insert_eq [OF mi] ins)
  have u: "cu_inv ?u" "cu_core ?u" "cu_shape ?u"
    using getConflationUnit_eq(2) [OF mi] by (simp_all add: cu_inv_def cu_core_def)
  have Some: "?u = u0" if "units s ?n = Some u0" for u0 using that by (simp add: unit_of_def)
  note None = getConflationUnit_eq(3) [OF mi, of ?n]
  have mt: "unit_matches (cm_registrations (br_manager s)) ?n ?u" by (rule unit_of_matches [OF inv])
  have q: "queue_ok s" and j: "jobs_ok s" using inv by (simp_all add: bridge_inv_def)
  have "manager_inv (br_manager ?t)"
    using manager_inv_upd [OF mi, of u' ?n] inserted_unit_inv [OF mi, of b m "br_readyQueue s"] ins
    by simp
  moreover have "unit_matches (cm_registrations (br_manager s)) ?n u' \<and> queue_ok ?t \<and> jobs_ok ?t"
  proof (cases "accepts ?u b")
    case True
    then have eq: "settle ?n (stored ?u b m) (br_readyQueue s) = (u', rq')"
      using ins by (simp add: inserted_unit_def Let_def)
    have u': "u' = fst (settle ?n (stored ?u b m) (br_readyQueue s))" using eq by simp
    have "unit_matches (cm_registrations (br_manager s)) ?n u'"
      unfolding u' using unit_matches_stored [OF mt u(3)] by simp
    moreover have "queue_ok ?t"
      by (rule queue_ok_settle [OF q _ _ eq]) (use Some None in auto)
    moreover have "jobs_ok ?t"
    proof -
      have "busy u' = busy ?u" unfolding u' by (simp add: busy_stored [OF u(3)])
      moreover have "job_ok u' jb r" if "job_ok ?u jb r" for jb r
        unfolding u' using stored_job_ok [OF u(2) True that] by simp
      ultimately have "jobs_ok (s\<lparr>br_manager := (br_manager s)\<lparr>cm_conflationUnits := (units s)(?n \<mapsto> u')\<rparr>\<rparr>)"
        using Some None by (intro jobs_ok_unit_upd [OF j]) auto
      then show ?thesis by simp
    qed
    ultimately show ?thesis by simp
  next
    case False
    then have eq: "u' = ?u" "rq' = br_readyQueue s" using ins by (auto simp: inserted_unit_def Let_def)
    have "queue_ok ?t" using queue_ok_unit_upd [OF q, of ?n ?u] Some unfolding eq by simp
    moreover have "jobs_ok ?t" using jobs_ok_unit_upd [OF j, of ?n ?u] Some None unfolding eq by auto
    ultimately show ?thesis using mt eq by simp
  qed
  ultimately have "bridge_inv ?t" using inv by (simp add: bridge_inv_def)
  with step show ?thesis by blast
qed

section \<open>Steps of the workers\<close>

lemma jobs_ok_cong:
  assumes "job_at t = job_at s" "br_manager t = br_manager s"
  shows "jobs_ok t = jobs_ok s"
  unfolding jobs_ok_def good_job_def assms ..

lemma queue_ok_cong:
  assumes "held_unit t = held_unit s" "br_manager t = br_manager s" "br_readyQueue t = br_readyQueue s"
  shows "queue_ok t = queue_ok s"
  unfolding queue_ok_def assms ..

text \<open>A step that moves no job and touches only the pool and the dispatcher.\<close>

lemma bridge_inv_move:
  assumes "bridge_inv s" "br_manager t = br_manager s" "br_readyQueue t = br_readyQueue s"
    and "job_at t = job_at s" "held_unit t = held_unit s" "pool_ok t"
  shows "bridge_inv t"
  using assms jobs_ok_cong [of t s] queue_ok_cong [of t s] by (simp add: bridge_inv_def)

lemma jobs_okD: "jobs_ok s \<Longrightarrow> job_at s p = Some j \<Longrightarrow> good_job s j"
  by (simp add: jobs_ok_def)

lemma jobs_ok_unique:
  "jobs_ok s \<Longrightarrow> job_at s p = Some j \<Longrightarrow> job_at s q = Some k \<Longrightarrow>
     job_resultReporter j = job_resultReporter k \<Longrightarrow> p = q"
  unfolding jobs_ok_def by blast

lemma jobs_ok_busy:
  assumes "jobs_ok s" "units s name = Some u" "busy u"
  obtains p j where "job_at s p = Some j" "job_resultReporter j = name"
  using assms unfolding jobs_ok_def by blast

lemma pool_okD:
  assumes "pool_ok s" "w < length (wp_workers (br_pool s))"
  shows "worker_ok (wp_workers (br_pool s) ! w)"
  using assms by (simp add: pool_ok_def Let_def)

lemma job_at_set_worker:
  assumes "w < length (wp_workers (br_pool s))" "br_dispatcher t = br_dispatcher s"
    and "wp_workers (br_pool t) = (wp_workers (br_pool s))[w := wk]"
    and "worker_job (wp_workers (br_pool s) ! w) = worker_job wk"
  shows "job_at t = job_at s"
proof
  fix p
  show "job_at t p = job_at s p"
  proof (cases p)
    case AtDispatcher
    then show ?thesis by (simp add: job_at_def assms(2))
  next
    case (AtWorker v)
    then show ?thesis
      using assms(1,3,4) by (cases "v = w") (simp_all add: job_at_def)
  qed
qed

lemma perform_offer_inv:
  assumes inv: "bridge_inv s" and p: "perform (EvOffer w) s = Some r"
  shows "\<exists>t. r = Inr t \<and> bridge_inv t"
proof -
  let ?pool = "br_pool s"
  let ?wk = "(wp_workers ?pool ! w)\<lparr>wk_pc := WorkerSelect\<rparr>"
  let ?t = "s\<lparr>br_pool := (set_worker ?pool w ?wk)\<lparr>wp_dbWorkers := wp_dbWorkers ?pool @ [w]\<rparr>\<rparr>"
  have po: "pool_ok s" using inv by (simp add: bridge_inv_def)
  then have "\<not> wp_closed ?pool" by (simp add: pool_ok_def Let_def)
  with p have w: "w < length (wp_workers ?pool)" "wk_pc (wp_workers ?pool ! w) = WorkerOffering"
    and r: "r = Inr ?t"
    by (auto simp: worker_offer_def split: if_splits)
  have q: "wk_jobsQueue (wp_workers ?pool ! w) = []"
    using pool_okD [OF po w(1)] w(2) by (simp add: worker_ok_def)
  have "job_at ?t = job_at s"
    by (rule job_at_set_worker [OF w(1), of _ ?wk]) (simp_all add: w q set_worker_def worker_job_def)
  moreover have "\<not> worker_free ?pool w" using w(2) by (simp add: worker_free_def)
  then have "pool_ok ?t"
    using po w q
    by (auto simp: pool_ok_def Let_def set_worker_nth worker_free_def worker_ok_def)
  ultimately have "bridge_inv ?t" by (intro bridge_inv_move [OF inv]) simp_all
  with r show ?thesis by blast
qed

lemma perform_receive_inv:
  assumes inv: "bridge_inv s" and p: "perform (EvReceive w) s = Some r"
  shows "\<exists>t. r = Inr t \<and> bridge_inv t"
proof -
  let ?pool = "br_pool s"
  have po: "pool_ok s" using inv by (simp add: bridge_inv_def)
  from p obtain job jobs where w: "w < length (wp_workers ?pool)"
      "wk_pc (wp_workers ?pool ! w) = WorkerSelect" "wk_jobsQueue (wp_workers ?pool ! w) = job # jobs"
    by (auto simp: worker_receive_def split: if_splits list.splits)
  have jobs: "jobs = []"
    using pool_okD [OF po w(1)] w(3) by (simp add: worker_ok_def jobsQueueCapacity_def)
  have "job_at s (AtWorker w) = Some job" using w by (simp add: job_at_def worker_job_def)
  then have "good_job s job" using inv jobs_okD by (simp add: bridge_inv_def)
  then obtain b where b: "job_bundle job = Some b" by (auto simp: good_job_def)
  let ?wk = "(wp_workers ?pool ! w)\<lparr>wk_pc := WorkerRunning job, wk_jobsQueue := []\<rparr>"
  let ?t = "s\<lparr>br_pool := set_worker ?pool w ?wk\<rparr>"
  have r: "r = Inr ?t" using p w jobs b by (simp add: worker_receive_def)
  have "job_at ?t = job_at s"
    by (rule job_at_set_worker [OF w(1), of _ ?wk]) (simp_all add: w set_worker_def worker_job_def)
  moreover have "\<not> worker_free ?pool w" using w(3) by (simp add: worker_free_def)
  then have "pool_ok ?t"
    using po w
    by (auto simp: pool_ok_def Let_def set_worker_nth worker_free_def worker_ok_def)
  ultimately have "bridge_inv ?t" by (intro bridge_inv_move [OF inv]) simp_all
  with r show ?thesis by blast
qed

section \<open>Jobs that appear, end and move\<close>

lemma good_job_other:
  assumes "good_job s j" "job_resultReporter j \<noteq> n" "units t = (units s)(n \<mapsto> u')"
    and "cm_registrations (br_manager t) = cm_registrations (br_manager s)"
  shows "good_job t j"
  using assms by (simp add: good_job_def)

lemma jobs_ok_remove:
  assumes jobs: "jobs_ok s" and at: "job_at s p = Some j" and n: "job_resultReporter j = n"
    and t: "job_at t = (job_at s)(p := None)" "units t = (units s)(n \<mapsto> u')"
      "cm_registrations (br_manager t) = cm_registrations (br_manager s)"
    and idle: "\<not> busy u'"
  shows "jobs_ok t"
  unfolding jobs_ok_def
proof (intro conjI allI impI)
  fix q k assume "job_at t q = Some k"
  then have q: "q \<noteq> p" "job_at s q = Some k" by (auto simp: t split: if_splits)
  then have "job_resultReporter k \<noteq> n" using jobs_ok_unique [OF jobs at q(2)] n by auto
  then show "good_job t k" by (rule good_job_other [OF jobs_okD [OF jobs q(2)] _ t(2,3)])
next
  fix q q' k k'
  assume "job_at t q = Some k" "job_at t q' = Some k'" "job_resultReporter k = job_resultReporter k'"
  then show "q = q'" using jobs_ok_unique [OF jobs] by (auto simp: t split: if_splits)
next
  fix name u assume u: "units t name = Some u" "busy u"
  then have "name \<noteq> n" "units s name = Some u" using idle by (auto simp: t split: if_splits)
  then show "\<exists>q k. job_at t q = Some k \<and> job_resultReporter k = name"
    using jobs_ok_busy [OF jobs _ u(2)] at n by (metis fun_upd_apply option.inject t(1))
qed

lemma jobs_ok_add:
  assumes jobs: "jobs_ok s" and n: "job_resultReporter j = n"
    and free: "\<And>q k. job_at s q = Some k \<Longrightarrow> job_resultReporter k \<noteq> n" "job_at s p = None"
    and t: "job_at t = (job_at s)(p := Some j)" "units t = (units s)(n \<mapsto> u')"
      "cm_registrations (br_manager t) = cm_registrations (br_manager s)"
    and good: "good_job t j"
  shows "jobs_ok t"
  unfolding jobs_ok_def
proof (intro conjI allI impI)
  fix q k assume q: "job_at t q = Some k"
  show "good_job t k"
  proof (cases "q = p")
    case True
    with q good show ?thesis by (simp add: t)
  next
    case False
    with q have "job_at s q = Some k" by (simp add: t)
    with free(1) show ?thesis by (auto intro: good_job_other [OF jobs_okD [OF jobs] _ t(2,3)])
  qed
next
  fix q q' k k'
  assume "job_at t q = Some k" "job_at t q' = Some k'" "job_resultReporter k = job_resultReporter k'"
  then show "q = q'"
    using jobs_ok_unique [OF jobs] free(1) n by (auto simp: t split: if_splits)
next
  fix name u assume u: "units t name = Some u" "busy u"
  show "\<exists>q k. job_at t q = Some k \<and> job_resultReporter k = name"
  proof (cases "name = n")
    case True
    with n show ?thesis by (auto simp: t)
  next
    case False
    then have "units s name = Some u" using u by (simp add: t)
    from jobs_ok_busy [OF jobs this u(2)] free(2) show ?thesis
      by (metis fun_upd_apply option.distinct(1) t(1))
  qed
qed

lemma jobs_ok_relocate:
  assumes jobs: "jobs_ok s" and at: "job_at s p = Some j" "job_at s q = None"
    and t: "job_at t = (job_at s)(p := None, q := Some j)" "br_manager t = br_manager s"
  shows "jobs_ok t"
proof -
  have good: "good_job t k = good_job s k" for k by (simp add: good_job_def t(2))
  have neq: "p \<noteq> q" using at by auto
  show ?thesis
    unfolding jobs_ok_def good
  proof (intro conjI allI impI)
    fix a k assume "job_at t a = Some k"
    then show "good_job s k"
      using at jobs_okD [OF jobs] by (auto simp: t split: if_splits)
  next
    fix a a' k k'
    assume "job_at t a = Some k" "job_at t a' = Some k'" "job_resultReporter k = job_resultReporter k'"
    then show "a = a'"
      using jobs_ok_unique [OF jobs] at by (auto simp: t split: if_splits)
  next
    fix name u assume u: "units t name = Some u" "busy u"
    then obtain a k where a: "job_at s a = Some k" "job_resultReporter k = name"
      using jobs_ok_busy [OF jobs] by (metis t(2))
    show "\<exists>a k. job_at t a = Some k \<and> job_resultReporter k = name"
    proof (cases "a = p")
      case True
      with a at show ?thesis by (intro exI [of _ q] exI [of _ k]) (simp add: t)
    next
      case False
      with a at show ?thesis by (intro exI [of _ a] exI [of _ k]) (auto simp: t)
    qed
  qed
qed

lemma bridge_inv_cu:
  "bridge_inv s \<Longrightarrow> units s n = Some u \<Longrightarrow> cu_core u \<and> cu_shape u \<and> cu_inv u \<and>
     unit_matches (cm_registrations (br_manager s)) n u"
  by (auto simp: bridge_inv_def manager_inv_def cu_inv_def cu_core_def)

text \<open>The parts of the invariant that concern the one unit a step has changed.\<close>

lemma bridge_inv_unit:
  assumes inv: "bridge_inv s"
    and t: "br_manager t = (br_manager s)\<lparr>cm_conflationUnits := (units s)(n \<mapsto> u')\<rparr>"
    and u': "cu_inv u'" "unit_matches (cm_registrations (br_manager s)) n u'"
    and rest: "queue_ok t" "jobs_ok t" "pool_ok t"
  shows "bridge_inv t"
  using assms manager_inv_upd [of "br_manager s" u' n] by (simp add: bridge_inv_def)

lemma perform_finish_inv:
  assumes inv: "bridge_inv s" and p: "perform (EvFinish w err) s = Some r"
  shows "\<exists>t. r = Inr t \<and> bridge_inv t"
proof -
  let ?pool = "br_pool s"
  have po: "pool_ok s" and jobs: "jobs_ok s" and qo: "queue_ok s"
    using inv by (simp_all add: bridge_inv_def)
  from p obtain job where w: "w < length (wp_workers ?pool)"
      "wk_pc (wp_workers ?pool ! w) = WorkerRunning job"
    by (auto simp: worker_finish_def split: if_splits worker_pc.splits)
  have wq: "wk_jobsQueue (wp_workers ?pool ! w) = []"
    using pool_okD [OF po w(1)] w(2) by (simp add: worker_ok_def)
  have at: "job_at s (AtWorker w) = Some job" using w by (simp add: job_at_def worker_job_def)
  let ?n = "job_resultReporter job"
  obtain u b rf where u: "units s ?n = Some u" "job_bundle job = Some b"
      "job_bundleMetadata job = Some rf" "job_ok u b rf"
    using jobs_okD [OF jobs at] by (auto simp: good_job_def)
  have cu: "cu_core u" "cu_shape u" "unit_matches (cm_registrations (br_manager s)) ?n u"
    using bridge_inv_cu [OF inv u(1)] by simp_all
  obtain u' rq' where st: "settle ?n (reported u b err) (br_readyQueue s) = (u', rq')"
    by (cases "settle ?n (reported u b err) (br_readyQueue s)")
  then have u': "u' = fst (settle ?n (reported u b err) (br_readyQueue s))" by simp
  let ?wk = "(wp_workers ?pool ! w)\<lparr>wk_pc := WorkerOffering\<rparr>"
  let ?t = "s\<lparr>br_pool := set_worker ?pool w ?wk,
              br_manager := (br_manager s)\<lparr>cm_conflationUnits := (units s)(?n \<mapsto> u')\<rparr>,
              br_readyQueue := rq'\<rparr>"
  have r: "r = Inr ?t"
    using p w u st by (simp add: worker_finish_def with_unit_def ReportResult_eq [OF cu(2) u(4)])
  have idle: "\<not> busy u'" using reported_not_busy [OF cu(1) u(4), of err] by (simp add: u')
  have at': "job_at ?t = (job_at s)(AtWorker w := None)"
  proof
    fix q show "job_at ?t q = ((job_at s)(AtWorker w := None)) q"
      using w wq by (cases q) (auto simp: job_at_def set_worker_nth worker_job_def)
  qed
  have "cu_inv u'" "unit_matches (cm_registrations (br_manager s)) ?n u'"
    unfolding u' using settle_inv [OF reported_core [OF cu(1) u(4)]]
      unit_matches_reported [OF cu(3,2)] by simp_all
  moreover have "jobs_ok ?t"
    by (rule jobs_ok_remove [OF jobs at refl at' _ _ idle]) simp_all
  moreover have "queue_ok (s\<lparr>br_manager := (br_manager s)\<lparr>cm_conflationUnits := (units s)(?n \<mapsto> u')\<rparr>,
      br_readyQueue := rq'\<rparr>)"
    by (rule queue_ok_settle [OF qo _ _ st]) (simp_all add: u)
  then have "queue_ok ?t" by (simp add: queue_ok_def held_unit_def)
  moreover have "\<not> worker_free ?pool w" using w(2) by (simp add: worker_free_def)
  then have "pool_ok ?t"
    using po w wq by (auto simp: pool_ok_def Let_def set_worker_nth worker_free_def worker_ok_def held_worker_def)
  ultimately have "bridge_inv ?t" by (intro bridge_inv_unit [OF inv]) simp_all
  with r show ?thesis by blast
qed

section \<open>Steps of the dispatcher\<close>

lemma goto_simps [simp]:
  "br_manager (goto s pc) = br_manager s" "br_readyQueue (goto s pc) = br_readyQueue s"
  "br_pool (goto s pc) = br_pool s" "dp_pc (br_dispatcher (goto s pc)) = pc"
  by (simp_all add: goto_def)

lemma job_at_goto:
  "job_at (goto s pc) p =
     (case p of AtDispatcher \<Rightarrow> (case pc of DispRun w j \<Rightarrow> Some j | _ \<Rightarrow> None) | AtWorker i \<Rightarrow> job_at s p)"
  by (cases p) (simp_all add: job_at_def)

text \<open>A step within the dispatcher that carries no job before or after.\<close>

lemma job_at_goto_same:
  assumes "\<And>w j. dp_pc (br_dispatcher s) \<noteq> DispRun w j" "\<And>w j. pc \<noteq> DispRun w j"
  shows "job_at (goto s pc) = job_at s"
proof
  fix p show "job_at (goto s pc) p = job_at s p"
    using assms by (cases p) (auto simp: job_at_def split: dispatcher_pc.splits)
qed

lemma dispatch_select_inv:
  assumes inv: "bridge_inv s" and pc: "dp_pc (br_dispatcher s) = DispSelect"
    and new: "pc' = DispStopped \<or> pc' = DispDequeue"
  shows "bridge_inv (goto s pc')"
proof (rule bridge_inv_move [OF inv])
  show "job_at (goto s pc') = job_at s" by (rule job_at_goto_same) (use pc new in auto)
  show "held_unit (goto s pc') = held_unit s" using pc new by (auto simp: held_unit_def)
  show "pool_ok (goto s pc')"
    using inv pc new by (auto simp: bridge_inv_def pool_ok_def Let_def held_worker_def)
qed simp_all

lemma dispatch_dequeue_inv:
  assumes inv: "bridge_inv s" and pc: "dp_pc (br_dispatcher s) = DispDequeue"
    and dq: "BlockingDequeue (br_readyQueue s) = Some (cu, rq)"
  shows "bridge_inv (goto (s\<lparr>br_readyQueue := rq\<rparr>) (DispAcquire cu))" (is "bridge_inv ?t")
proof -
  have "job_at ?t = job_at (s\<lparr>br_readyQueue := rq\<rparr>)" by (rule job_at_goto_same) (use pc in auto)
  then have "jobs_ok ?t" using inv jobs_ok_cong [of ?t s] by (simp add: bridge_inv_def)
  moreover have "queue_ok ?t"
    using inv rq.contents_deq [OF dq] by (auto simp: bridge_inv_def queue_ok_def held_unit_def)
  moreover have "pool_ok ?t"
    using inv pc by (auto simp: bridge_inv_def pool_ok_def Let_def held_worker_def)
  ultimately show ?thesis using inv by (simp add: bridge_inv_def)
qed

lemma dispatch_acquire_inv:
  assumes inv: "bridge_inv s" and pc: "dp_pc (br_dispatcher s) = DispAcquire cu"
    and aq: "Acquire (br_pool s) = Some (w, pool)"
  shows "bridge_inv (goto (s\<lparr>br_pool := pool\<rparr>) (DispGetNext cu w))" (is "bridge_inv ?t")
proof -
  have po: "pool_ok s" using inv by (simp add: bridge_inv_def)
  obtain v ws where v: "w = Some v" "wp_dbWorkers (br_pool s) = v # ws"
      "pool = (br_pool s)\<lparr>wp_dbWorkers := ws\<rparr>"
    using aq po by (auto simp: Acquire_def pool_ok_def Let_def split: list.splits)
  have "job_at ?t = job_at s"
  proof
    fix p show "job_at ?t p = job_at s p" using pc v by (cases p) (simp_all add: job_at_def)
  qed
  moreover have "held_unit ?t = held_unit s" using pc by (simp add: held_unit_def)
  moreover have "pool_ok ?t"
    using po pc v by (auto simp: pool_ok_def Let_def held_worker_def worker_free_def)
  ultimately show ?thesis by (intro bridge_inv_move [OF inv]) simp_all
qed

lemma dispatch_getnext_error_inv:
  assumes inv: "bridge_inv s" and pc: "dp_pc (br_dispatcher s) = DispGetNext cu w"
  shows "bridge_inv (goto s DispSelect)"
proof -
  have "job_at (goto s DispSelect) = job_at s" by (rule job_at_goto_same) (use pc in auto)
  then have "jobs_ok (goto s DispSelect)"
    using inv jobs_ok_cong [of "goto s DispSelect" s] by (simp add: bridge_inv_def)
  moreover have "queue_ok (goto s DispSelect)"
    using inv by (auto simp: bridge_inv_def queue_ok_def held_unit_def)
  moreover have "pool_ok (goto s DispSelect)"
    using inv pc by (auto simp: bridge_inv_def pool_ok_def Let_def held_worker_def)
  ultimately show ?thesis using inv by (simp add: bridge_inv_def)
qed

lemma dispatch_getnext_inv:
  assumes inv: "bridge_inv s" and pc: "dp_pc (br_dispatcher s) = DispGetNext n w"
    and u: "units s n = Some u" and i: "i < nslots u" and rdy: "ready u i"
  shows "bridge_inv (goto
     (s\<lparr>br_manager := (br_manager s)\<lparr>cm_conflationUnits := (units s)(n \<mapsto> taken u i)\<rparr>\<rparr>)
     (DispRun w (NewDBJob (ce_bundle (slot u i)) (ce_bundleMetadata (slot u i))
                   (ce_handlerFunction (slot u i)) n)))" (is "bridge_inv ?t")
proof -
  let ?rs = "cm_registrations (br_manager s)"
  have jobs: "jobs_ok s" and qo: "queue_ok s" and po: "pool_ok s"
    using inv by (simp_all add: bridge_inv_def)
  have cu: "cu_core u" "cu_shape u" "unit_matches ?rs n u"
    using bridge_inv_cu [OF inv u] by simp_all
  have held: "held_unit s = Some n" using pc by (simp add: held_unit_def)
  have flag: "cu_isInReadyQueue u" by (rule queue_okD [OF qo, of n]) (use held u in auto)
  then have idle: "\<not> busy u" using cu(1) by (simp add: cu_core_def)
  obtain b r where b: "ce_bundle (slot u i) = Some b" "ce_bundleMetadata (slot u i) = Some r"
      "job_ok (taken u i) b r" "priority_of u (GetBundleType b) = i"
    by (rule taken_job_ok [OF cu(1) i rdy])
  have none: "job_resultReporter k \<noteq> n" if "job_at s q = Some k" for q k
    using jobs_okD [OF jobs that] idle u cu(2) job_ok_busy by (auto simp: good_job_def)
  let ?j = "NewDBJob (ce_bundle (slot u i)) (ce_bundleMetadata (slot u i)) (ce_handlerFunction (slot u i)) n"
  have good: "good_job ?t ?j"
    using b cu(3) i by (auto simp: good_job_def NewDBJob_def unit_matches_def)
  have at: "job_at ?t = (job_at s)(AtDispatcher := Some ?j)"
  proof
    fix q show "job_at ?t q = ((job_at s)(AtDispatcher := Some ?j)) q"
      by (cases q) (simp_all add: job_at_def)
  qed
  have "jobs_ok ?t"
    by (rule jobs_ok_add [OF jobs _ none _ at _ _ good]) (use pc in \<open>simp_all add: NewDBJob_def job_at_def\<close>)
  moreover have "queue_ok ?t"
  proof -
    have "n \<notin> set (rq_queue (br_readyQueue s))" using qo held by (simp add: queue_ok_def)
    with qo show ?thesis by (auto simp: queue_ok_def held_unit_def)
  qed
  moreover have "pool_ok ?t"
    using po pc by (auto simp: pool_ok_def Let_def held_worker_def)
  ultimately show ?thesis
    using taken_inv [OF cu(1) idle i rdy] unit_matches_taken [OF cu(3) i]
    by (intro bridge_inv_unit [OF inv, of _ n "taken u i"]) simp_all
qed

lemma dispatch_run_inv:
  assumes inv: "bridge_inv s" and pc: "dp_pc (br_dispatcher s) = DispRun w j"
  obtains pool where "RunAsync w j (br_pool s) = Some (Inr pool)"
    "bridge_inv (goto (s\<lparr>br_pool := pool\<rparr>) DispSelect)"
proof -
  have jobs: "jobs_ok s" and po: "pool_ok s" using inv by (simp_all add: bridge_inv_def)
  obtain v where v: "w = Some v" using po pc by (cases w) (auto simp: pool_ok_def Let_def)
  let ?wk = "wp_workers (br_pool s) ! v"
  have fr: "worker_free (br_pool s) v" "v \<notin> set (wp_dbWorkers (br_pool s))"
    using po pc v by (auto simp: pool_ok_def Let_def held_worker_def)
  then have wk: "v < length (wp_workers (br_pool s))" "wk_pc ?wk = WorkerSelect" "wk_jobsQueue ?wk = []"
    by (simp_all add: worker_free_def)
  have ok: "worker_ok ?wk" by (rule pool_okD [OF po wk(1)])
  let ?pool = "set_worker (br_pool s) v (?wk\<lparr>wk_jobsQueue := [j]\<rparr>)"
  let ?t = "goto (s\<lparr>br_pool := ?pool\<rparr>) DispSelect"
  have run: "RunAsync w j (br_pool s) = Some (Inr ?pool)"
    using ok wk v by (simp add: RunAsync_def worker_ok_def jobsQueueCapacity_def)
  have at: "job_at ?t = (job_at s)(AtDispatcher := None, AtWorker v := Some j)"
  proof
    fix q show "job_at ?t q = ((job_at s)(AtDispatcher := None, AtWorker v := Some j)) q"
      using wk by (cases q) (auto simp: job_at_def set_worker_nth worker_job_def)
  qed
  have "jobs_ok ?t"
    by (rule jobs_ok_relocate [OF jobs _ _ at]) (use pc wk in \<open>simp_all add: job_at_def worker_job_def\<close>)
  moreover have "queue_ok ?t" using inv pc by (simp add: bridge_inv_def queue_ok_def held_unit_def)
  moreover have "pool_ok ?t"
    using po pc fr ok v
    by (auto simp: pool_ok_def Let_def set_worker_nth worker_free_def worker_ok_def held_worker_def
        jobsQueueCapacity_def)
  ultimately have "bridge_inv ?t" using inv by (simp add: bridge_inv_def)
  with run show ?thesis by (rule that)
qed

lemma perform_dispatch_inv:
  assumes inv: "bridge_inv s" and p: "perform EvDispatch s = Some r"
  shows "\<exists>t. r = Inr t \<and> bridge_inv t"
proof (cases "dp_pc (br_dispatcher s)")
  case DispSelect
  with p dispatch_select_inv [OF inv DispSelect] show ?thesis by (auto simp: dispatch_def)
next
  case DispDequeue
  with p dispatch_dequeue_inv [OF inv DispDequeue] show ?thesis
    by (auto simp: dispatch_def split: option.splits)
next
  case (DispAcquire cu)
  with p dispatch_acquire_inv [OF inv DispAcquire] show ?thesis
    by (auto simp: dispatch_def split: option.splits)
next
  case (DispGetNext n w)
  have "held_unit s = Some n" using DispGetNext by (simp add: held_unit_def)
  obtain u where u: "units s n = Some u"
    by (rule queue_okD [of s n]) (use \<open>held_unit s = Some n\<close> inv in \<open>auto simp: bridge_inv_def\<close>)
  have sh: "cu_shape u" using bridge_inv_cu [OF inv u] by simp
  show ?thesis
  proof (rule GetNext_cases [OF sh])
    assume none: "GetNext u = Inr (u, Inl errNoReadyBundle)"
    have "(br_manager s)\<lparr>cm_conflationUnits := (units s)(n \<mapsto> u)\<rparr> = br_manager s"
      using u by (simp add: map_upd_triv)
    with p none u DispGetNext dispatch_getnext_error_inv [OF inv DispGetNext] show ?thesis
      by (auto simp: dispatch_def with_unit_def)
  next
    fix i
    assume some: "i < nslots u" "ready u i"
      "GetNext u = Inr (taken u i, Inr \<lparr>nb_bundle = ce_bundle (slot u i),
         nb_metadata = ce_bundleMetadata (slot u i), nb_handlerFunc = ce_handlerFunction (slot u i)\<rparr>)"
    with p u DispGetNext dispatch_getnext_inv [OF inv DispGetNext u some(1,2)] show ?thesis
      by (auto simp: dispatch_def with_unit_def)
  qed
next
  case (DispRun w j)
  then obtain pool where "RunAsync w j (br_pool s) = Some (Inr pool)"
      "bridge_inv (goto (s\<lparr>br_pool := pool\<rparr>) DispSelect)"
    using dispatch_run_inv [OF inv] by blast
  with p DispRun show ?thesis by (auto simp: dispatch_def)
next
  case DispStopped
  with p show ?thesis by (simp add: dispatch_def)
qed

section \<open>All steps, all reachable states\<close>

lemma running_step_inv:
  assumes inv: "bridge_inv s" and run: "running_event e" and p: "perform e s = Some r"
  shows "\<exists>t. r = Inr t \<and> bridge_inv t"
proof (cases e)
  case (EvInsert b m)
  with p perform_insert_inv [OF inv, of b m] show ?thesis by auto
next
  case (EvWorkerStop w)
  with p inv show ?thesis
    by (simp add: worker_stop_def bridge_inv_def pool_ok_def Let_def split: if_splits)
next
  case EvDispatcherCancel
  let ?t = "dispatcher_cancel s"
  have "job_at ?t = job_at s"
    by (rule ext) (simp add: job_at_def dispatcher_cancel_def split: place.split)
  moreover have "held_unit ?t = held_unit s" "held_worker ?t = held_worker s"
    by (simp_all add: held_unit_def held_worker_def dispatcher_cancel_def)
  moreover have "br_pool ?t = br_pool s" "dp_pc (br_dispatcher ?t) = dp_pc (br_dispatcher s)"
      "br_manager ?t = br_manager s" "br_readyQueue ?t = br_readyQueue s"
    by (simp_all add: dispatcher_cancel_def)
  moreover have "pool_ok ?t" using inv calculation by (simp add: bridge_inv_def pool_ok_def)
  ultimately have "bridge_inv ?t" by (intro bridge_inv_move [OF inv]) simp_all
  with p EvDispatcherCancel show ?thesis by auto
qed (use p run perform_dispatch_inv [OF inv] perform_offer_inv [OF inv]
       perform_receive_inv [OF inv] perform_finish_inv [OF inv] in auto)

lemma foldl_Register: "foldl Register cm rs = cm\<lparr>cm_registrations := cm_registrations cm @ rs\<rparr>"
  by (induction rs arbitrary: cm) (simp_all add: Register_def)

lemma initial_bridge_inv:
  assumes "registrations_ok rs"
  shows "bridge_inv (initial_bridge rs n)"
  using assms
  by (auto simp: bridge_inv_def initial_bridge_def foldl_Register NewConflationManager_def
      manager_inv_def queue_ok_def jobs_ok_def pool_ok_def NewDispatcher_def rq.contents_new
      held_unit_def held_worker_def job_at_def pool_Start_def start_workers_eq NewDBWorker_def
      worker_ok_def worker_job_def Let_def split: place.splits if_splits)

definition running_perform :: "bridge_event \<Rightarrow> bridge \<Rightarrow> bridge go option" where
  "running_perform e s = (if running_event e then perform e s else None)"

interpretation running: step_invariant
  "\<lambda>s. \<exists>rs n. registrations_ok rs \<and> s = initial_bridge rs n" running_perform bridge_inv
proof unfold_locales
  fix s assume "\<exists>rs n. registrations_ok rs \<and> s = initial_bridge rs n"
  then show "bridge_inv s" by (auto intro: initial_bridge_inv)
next
  fix s e r assume "bridge_inv s" "running_perform e s = Some r"
  then show "\<exists>t. r = Inr t \<and> bridge_inv t"
    by (auto simp: running_perform_def dest: running_step_inv split: if_splits)
qed

lemma reachable_inv:
  assumes "reachable (initial_bridge rs n) s" "registrations_ok rs"
  shows "bridge_inv s"
  using assms(1)
proof (induction rule: reachable.induct)
  case start
  show ?case using assms(2) by (rule initial_bridge_inv)
next
  case (step s e t)
  then show ?case using running.step_keeps [of s e] by (fastforce simp: running_perform_def)
qed

lemma reachable_no_panic:
  assumes "reachable (initial_bridge rs n) s" "registrations_ok rs" "running_event e"
  shows "perform e s \<noteq> Some (Inl p)"
  using running_step_inv [OF reachable_inv [OF assms(1,2)] assms(3)] by auto

end
