(* ===== verification/Setup.thy ===== *)
theory Setup
  imports Sync_Service Bridge_Invariant
begin

text \<open>
  The initial setup (\<open>pkg/controller/controllers.go\<close>, the config controller, and the registration
  functions of \<open>pkg/dbsyncer\<close>): which message ids the transport accepts, under which aggregation
  level, and which bundle types the conflation manager handles, with their priorities and the one
  dependency.
\<close>

section \<open>Priorities\<close>

definition ManagedClustersPriority :: nat where "ManagedClustersPriority = 0"
definition ClustersPerPolicyPriority :: nat where "ClustersPerPolicyPriority = 1"
definition ComplianceStatusPriority :: nat where "ComplianceStatusPriority = 2"
definition MinimalComplianceStatusPriority :: nat where "MinimalComplianceStatusPriority = 3"

lemmas priorities_def = ManagedClustersPriority_def ClustersPerPolicyPriority_def
  ComplianceStatusPriority_def MinimalComplianceStatusPriority_def

section \<open>Registrations of the syncers\<close>

text \<open>The constants of the data types' repository: message keys and aggregation levels.\<close>

record data_types =
  dt_ManagedClustersMsgKey :: string
  dt_ClustersPerPolicyMsgKey :: string
  dt_PolicyComplianceMsgKey :: string
  dt_MinimalPolicyComplianceMsgKey :: string
  dt_Full :: string
  dt_Minimal :: string
  dt_HohSystemNamespace :: string

text \<open>
  What \<open>Setup\<close> knows of a syncer, the interface \<open>DBSyncer\<close>: it registers at the transport and at the
  conflation manager. The syncers keep functions that create empty bundles; the policies syncer also
  has the configuration, which the predicates read when they are called, as the level given to them.
\<close>

record db_syncer =
  ds_RegisterCreateBundleFunctions :: "sync_service \<Rightarrow> sync_service"
  ds_RegisterBundleHandlerFunctions :: "conflation_manager \<Rightarrow> conflation_manager"

record managed_clusters_db_syncer =
  mcs_createBundleFunc :: "unit \<Rightarrow> status_bundle"

record policies_db_syncer =
  ps_createClustersPerPolicyBundleFunc :: "unit \<Rightarrow> status_bundle"
  ps_createComplianceStatusBundleFunc :: "unit \<Rightarrow> status_bundle"
  ps_createMinComplianceStatusBundleFunc :: "unit \<Rightarrow> status_bundle"

definition ManagedClusters_RegisterCreateBundleFunctions ::
  "managed_clusters_db_syncer \<Rightarrow> data_types \<Rightarrow> sync_service \<Rightarrow> sync_service" where
  "ManagedClusters_RegisterCreateBundleFunctions syncer dt =
     ss_Register \<lparr>tr_MsgID = dt_ManagedClustersMsgKey dt,
                  tr_CreateBundleFunc = mcs_createBundleFunc syncer (), tr_Predicate = (\<lambda>_. True)\<rparr>"

definition ManagedClusters_RegisterBundleHandlerFunctions ::
  "managed_clusters_db_syncer \<Rightarrow> conflation_manager \<Rightarrow> conflation_manager" where
  "ManagedClusters_RegisterBundleHandlerFunctions syncer cm =
     Register cm (NewConflationRegistration ManagedClustersPriority
       (GetBundleType (mcs_createBundleFunc syncer ())) ManagedClustersHandler)"

definition NewManagedClustersDBSyncer :: "data_types \<Rightarrow> db_syncer" where
  "NewManagedClustersDBSyncer dt =
     (let dbSyncer = \<lparr>mcs_createBundleFunc = (\<lambda>_. NewManagedClustersStatusBundle)\<rparr>
      in \<lparr>ds_RegisterCreateBundleFunctions = ManagedClusters_RegisterCreateBundleFunctions dbSyncer dt,
          ds_RegisterBundleHandlerFunctions = ManagedClusters_RegisterBundleHandlerFunctions dbSyncer\<rparr>)"

definition Policies_RegisterCreateBundleFunctions ::
  "policies_db_syncer \<Rightarrow> data_types \<Rightarrow> sync_service \<Rightarrow> sync_service" where
  "Policies_RegisterCreateBundleFunctions syncer dt s =
     (let fullStatusPredicate = (\<lambda>level. level = dt_Full dt);
          minimalStatusPredicate = (\<lambda>level. level = dt_Minimal dt);
          s1 = ss_Register \<lparr>tr_MsgID = dt_ClustersPerPolicyMsgKey dt,
                 tr_CreateBundleFunc = ps_createClustersPerPolicyBundleFunc syncer (),
                 tr_Predicate = fullStatusPredicate\<rparr> s;
          s2 = ss_Register \<lparr>tr_MsgID = dt_PolicyComplianceMsgKey dt,
                 tr_CreateBundleFunc = ps_createComplianceStatusBundleFunc syncer (),
                 tr_Predicate = fullStatusPredicate\<rparr> s1
      in ss_Register \<lparr>tr_MsgID = dt_MinimalPolicyComplianceMsgKey dt,
           tr_CreateBundleFunc = ps_createMinComplianceStatusBundleFunc syncer (),
           tr_Predicate = minimalStatusPredicate\<rparr> s2)"

definition Policies_RegisterBundleHandlerFunctions ::
  "policies_db_syncer \<Rightarrow> conflation_manager \<Rightarrow> conflation_manager" where
  "Policies_RegisterBundleHandlerFunctions syncer cm =
     (let clustersPerPolicyBundleType = GetBundleType (ps_createClustersPerPolicyBundleFunc syncer ());
          cm1 = Register cm (NewConflationRegistration ClustersPerPolicyPriority
                  clustersPerPolicyBundleType ClustersPerPolicyHandler);
          cm2 = Register cm1 (WithDependency (NewConflationRegistration ComplianceStatusPriority
                  (GetBundleType (ps_createComplianceStatusBundleFunc syncer ())) ComplianceHandler)
                  (NewDependency clustersPerPolicyBundleType))
      in Register cm2 (NewConflationRegistration MinimalComplianceStatusPriority
           (GetBundleType (ps_createMinComplianceStatusBundleFunc syncer ())) MinimalComplianceHandler))"

definition NewPoliciesDBSyncer :: "data_types \<Rightarrow> db_syncer" where
  "NewPoliciesDBSyncer dt =
     (let dbSyncer = \<lparr>ps_createClustersPerPolicyBundleFunc = (\<lambda>_. NewClustersPerPolicyBundle),
                      ps_createComplianceStatusBundleFunc = (\<lambda>_. NewComplianceStatusBundle),
                      ps_createMinComplianceStatusBundleFunc = (\<lambda>_. NewMinimalComplianceStatusBundle)\<rparr>
      in \<lparr>ds_RegisterCreateBundleFunctions = Policies_RegisterCreateBundleFunctions dbSyncer dt,
          ds_RegisterBundleHandlerFunctions = Policies_RegisterBundleHandlerFunctions dbSyncer\<rparr>)"

lemmas syncers_def = NewManagedClustersDBSyncer_def NewPoliciesDBSyncer_def
  ManagedClusters_RegisterCreateBundleFunctions_def ManagedClusters_RegisterBundleHandlerFunctions_def
  Policies_RegisterCreateBundleFunctions_def Policies_RegisterBundleHandlerFunctions_def

section \<open>Setup\<close>

text \<open>
  The runtime manager belongs to a library: each of its calls either succeeds or returns the error
  given. The configuration is the aggregation level, shared with the predicates.
\<close>

text \<open>
  The controller the runtime manager is given is its event filter, a predicate on the namespace of the
  object of an event, and its \<open>Reconcile\<close>.
\<close>

record config_controller =
  cc_eventFilter :: "string \<Rightarrow> bool"

definition hohNamespacePredicate :: "data_types \<Rightarrow> string \<Rightarrow> bool" where
  "hohNamespacePredicate dt namespace \<longleftrightarrow> namespace = dt_HohSystemNamespace dt"

definition AddConfigController :: "data_types \<Rightarrow> go_error option \<Rightarrow> go_error + config_controller" where
  "AddConfigController dt complete =
     (case complete of
        Some err \<Rightarrow> Inl (''failed to add config controller to manager - '' @ err)
      | None \<Rightarrow> Inr \<lparr>cc_eventFilter = hohNamespacePredicate dt\<rparr>)"

definition addConfigController :: "data_types \<Rightarrow> go_error option \<Rightarrow> go_error + string" where
  "addConfigController dt complete =
     (case AddConfigController dt complete of
        Inl err \<Rightarrow> Inl (''failed to add controller: '' @ err)
      | Inr _ \<Rightarrow> Inr (dt_Full dt))"

definition addDispatcher :: "go_error option \<Rightarrow> go_error + dispatcher" where
  "addDispatcher added =
     (case added of Some err \<Rightarrow> Inl (''failed to add dispatcher: '' @ err) | None \<Rightarrow> Inr NewDispatcher)"

definition Setup ::
  "data_types \<Rightarrow> go_error option \<Rightarrow> go_error option \<Rightarrow> sync_service \<times> conflation_manager \<Rightarrow>
   go_error + (string \<times> dispatcher \<times> sync_service \<times> conflation_manager)" where
  "Setup dt complete added = (\<lambda>(s, cm).
     case addConfigController dt complete of
       Inl err \<Rightarrow> Inl (''failed to add config controller to manager - '' @ err)
     | Inr level \<Rightarrow>
         (case addDispatcher added of
            Inl err \<Rightarrow> Inl (''failed to add dispatcher to manager - '' @ err)
          | Inr disp \<Rightarrow>
              (let dbSyncers = [NewManagedClustersDBSyncer dt, NewPoliciesDBSyncer dt];
                   (s', cm') = foldl (\<lambda>(s, cm) dbsyncerObj.
                     (ds_RegisterCreateBundleFunctions dbsyncerObj s,
                      ds_RegisterBundleHandlerFunctions dbsyncerObj cm)) (s, cm) dbSyncers
               in Inr (level, disp, s', cm'))))"

text \<open>
  \<open>Reconcile\<close> reads the configuration resource into the shared configuration. What the client
  returns is an argument; the result is the requeue delay in seconds, if any, and the error.
\<close>

datatype client_get =
    GetFound string
  | GetNotFound
  | GetFailed go_error

definition requeuePeriodSeconds :: nat where
  "requeuePeriodSeconds = 5"

definition Reconcile :: "client_get \<Rightarrow> string \<Rightarrow> string \<times> nat option \<times> go_error option" where
  "Reconcile got level =
     (case got of
        GetFound level' \<Rightarrow> (level', None, None)
      | GetNotFound \<Rightarrow> (level, None, None)
      | GetFailed err \<Rightarrow> (level, Some requeuePeriodSeconds, Some (''reconciliation failed: '' @ err)))"

section \<open>Facts\<close>

text \<open>The registrations \<open>Setup\<close> leaves in the conflation manager, in order.\<close>

definition setup_registrations :: "conflation_registration list" where
  "setup_registrations =
     [\<lparr>reg_priority = 0, reg_bundleType = ''ManagedClustersStatusBundle'',
       reg_handlerFunction = ManagedClustersHandler, reg_dependency = None\<rparr>,
      \<lparr>reg_priority = 1, reg_bundleType = ''ClustersPerPolicyBundle'',
       reg_handlerFunction = ClustersPerPolicyHandler, reg_dependency = None\<rparr>,
      \<lparr>reg_priority = 2, reg_bundleType = ''ComplianceStatusBundle'',
       reg_handlerFunction = ComplianceHandler, reg_dependency = Some ''ClustersPerPolicyBundle''\<rparr>,
      \<lparr>reg_priority = 3, reg_bundleType = ''MinimalComplianceStatusBundle'',
       reg_handlerFunction = MinimalComplianceHandler, reg_dependency = None\<rparr>]"

lemma setup_registrations_ok: "registrations_ok setup_registrations"
  by (simp add: registrations_ok_def setup_registrations_def)

definition setup_transport :: "data_types \<Rightarrow> sync_service \<Rightarrow> sync_service" where
  "setup_transport dt s =
     ds_RegisterCreateBundleFunctions (NewPoliciesDBSyncer dt)
       (ds_RegisterCreateBundleFunctions (NewManagedClustersDBSyncer dt) s)"

lemma Setup_registrations:
  "Setup dt None None (s, NewConflationManager) =
     Inr (dt_Full dt, NewDispatcher, setup_transport dt s,
       foldl Register NewConflationManager setup_registrations)"
  by (simp add: Setup_def Let_def addConfigController_def AddConfigController_def addDispatcher_def
      setup_transport_def syncers_def Register_def NewConflationRegistration_def WithDependency_def
      NewDependency_def priorities_def setup_registrations_def NewManagedClustersStatusBundle_def
      NewClustersPerPolicyBundle_def NewComplianceStatusBundle_def NewMinimalComplianceStatusBundle_def)

text \<open>The registration the transport finds for each message id.\<close>

definition msg_keys :: "data_types \<Rightarrow> string list" where
  "msg_keys dt = [dt_ManagedClustersMsgKey dt, dt_ClustersPerPolicyMsgKey dt,
     dt_PolicyComplianceMsgKey dt, dt_MinimalPolicyComplianceMsgKey dt]"

lemma setup_transport_map:
  assumes "distinct (msg_keys dt)"
  shows "ss_msgIDToRegistrationMap (setup_transport dt s) (dt_ManagedClustersMsgKey dt) =
      Some \<lparr>tr_MsgID = dt_ManagedClustersMsgKey dt,
            tr_CreateBundleFunc = NewManagedClustersStatusBundle, tr_Predicate = (\<lambda>_. True)\<rparr>"
    and "ss_msgIDToRegistrationMap (setup_transport dt s) (dt_ClustersPerPolicyMsgKey dt) =
      Some \<lparr>tr_MsgID = dt_ClustersPerPolicyMsgKey dt, tr_CreateBundleFunc = NewClustersPerPolicyBundle,
            tr_Predicate = (\<lambda>level. level = dt_Full dt)\<rparr>"
    and "ss_msgIDToRegistrationMap (setup_transport dt s) (dt_PolicyComplianceMsgKey dt) =
      Some \<lparr>tr_MsgID = dt_PolicyComplianceMsgKey dt, tr_CreateBundleFunc = NewComplianceStatusBundle,
            tr_Predicate = (\<lambda>level. level = dt_Full dt)\<rparr>"
    and "ss_msgIDToRegistrationMap (setup_transport dt s) (dt_MinimalPolicyComplianceMsgKey dt) =
      Some \<lparr>tr_MsgID = dt_MinimalPolicyComplianceMsgKey dt,
            tr_CreateBundleFunc = NewMinimalComplianceStatusBundle,
            tr_Predicate = (\<lambda>level. level = dt_Minimal dt)\<rparr>"
    and "k \<notin> set (msg_keys dt) \<Longrightarrow>
      ss_msgIDToRegistrationMap (setup_transport dt s) k = ss_msgIDToRegistrationMap s k"
  using assms
  by (auto simp: setup_transport_def syncers_def Let_def ss_Register_def msg_keys_def)

end
