(* ===== verification/Conflation_Properties.thy ===== *)
theory Conflation_Properties
  imports Setup
begin

text \<open>
  Properties of one conflation unit: construction, conflation of inserted bundles, the choice of the
  next bundle, the report of a result. The concrete unit of the witnesses is the one the setup's
  registrations give.
\<close>

section \<open>A concrete unit\<close>

definition sample_unit :: conflation_unit where
  "sample_unit = \<lparr>cu_priorityQueue = map (Some \<circ> newConflationElement) setup_registrations,
     cu_bundleTypeToPriority = [''ManagedClustersStatusBundle'' \<mapsto> 0, ''ClustersPerPolicyBundle'' \<mapsto> 1,
       ''ComplianceStatusBundle'' \<mapsto> 2, ''MinimalComplianceStatusBundle'' \<mapsto> 3],
     cu_isInReadyQueue = False, cu_metas = []\<rparr>"

definition sample_clusters :: "u64 \<Rightarrow> status_bundle" where
  "sample_clusters g = ManagedClustersStatusBundle
     \<lparr>mcb_Objects = [], mcb_LeafHubName = ''hub1'', mcb_Generation = g\<rparr>"

definition sample_policies :: "u64 \<Rightarrow> status_bundle" where
  "sample_policies g = ClustersPerPolicyBundle
     \<lparr>cpb_Objects = [], cpb_LeafHubName = ''hub1'', cpb_Generation = g\<rparr>"

definition sample_compliance :: "u64 \<Rightarrow> u64 \<Rightarrow> status_bundle" where
  "sample_compliance base g = ComplianceStatusBundle
     \<lparr>csb_Objects = [], csb_LeafHubName = ''hub1'', csb_BaseBundleGeneration = base,
      csb_Generation = g\<rparr>"

definition sample_metadata :: object_meta_data where
  "sample_metadata = \<lparr>omd_ObjectID = ''hub1.x''\<rparr>"

lemmas sample_defs = sample_clusters_def sample_policies_def sample_compliance_def sample_metadata_def

lemma sample_unit_new: "newConflationUnit setup_registrations = Inr sample_unit"
  by (simp add: newConflationUnit_def setup_registrations_def sample_unit_def addRegistration_def
      eval_nat_numeral)

lemma sample_unit_inv: "cu_inv sample_unit" "cu_core sample_unit" "cu_shape sample_unit"
proof -
  obtain cu where "newConflationUnit setup_registrations = Inr cu" "cu_inv cu"
    by (rule newConflationUnit_inv [OF setup_registrations_ok]) (rule that)
  then show "cu_inv sample_unit" by (simp add: sample_unit_new)
  then show "cu_core sample_unit" by (simp add: cu_inv_def)
  then show "cu_shape sample_unit" by (rule cu_core_shape)
qed

lemma length_setup [simp]: "length setup_registrations = 4"
  by (simp add: setup_registrations_def)

lemma sample_slot: "i < 4 \<Longrightarrow> slot sample_unit i = newConflationElement (setup_registrations ! i)"
  by (simp add: slot_def sample_unit_def)

lemma sample_nslots: "nslots sample_unit = 4"
  by (simp add: sample_unit_def setup_registrations_def)

lemma sample_priority:
  "priority_of sample_unit (GetBundleType (sample_clusters g)) = 0"
  "priority_of sample_unit (GetBundleType (sample_policies g)) = 1"
  "priority_of sample_unit (GetBundleType (sample_compliance h g)) = 2"
  by (simp_all add: sample_defs priority_of_def sample_unit_def)

lemma sample_generation [simp]:
  "GetGeneration (sample_clusters g) = g" "GetGeneration (sample_policies g) = g"
  "GetGeneration (sample_compliance h g) = g"
  by (simp_all add: sample_defs)

lemma sample_element:
  "slot sample_unit 0 = \<lparr>ce_bundleType = ''ManagedClustersStatusBundle'', ce_bundle = None,
     ce_bundleMetadata = None, ce_handlerFunction = ManagedClustersHandler, ce_dependency = None,
     ce_isInProcess = False, ce_lastProcessedBundleGeneration = 0\<rparr>"
  by (simp add: sample_slot setup_registrations_def newConflationElement_def)

lemma sample_accepts: "accepts sample_unit (sample_clusters 1)"
  by (simp add: accepts_def sample_priority sample_element)

text \<open>The unit after one insertion, with its bundle ready.\<close>

definition sample_pending :: conflation_unit where
  "sample_pending = fst (settle ''hub1'' (stored sample_unit (sample_clusters 1) sample_metadata)
     NewConflationReadyQueue)"

lemma sample_pending_slot:
  "slot sample_pending j = (if j = 0 then (slot sample_unit 0)
     \<lparr>ce_bundle := Some (sample_clusters 1),
      ce_bundleMetadata := Some (stored_ref sample_unit (sample_clusters 1) sample_metadata)\<rparr>
     else slot sample_unit j)"
  by (simp add: sample_pending_def slot_stored [OF sample_unit_inv(3)] sample_priority)

lemma sample_pending_inv: "cu_inv sample_pending" "cu_core sample_pending" "cu_shape sample_pending"
proof -
  show inv: "cu_inv sample_pending"
    unfolding sample_pending_def
    by (rule settle_inv [OF stored_core [OF sample_unit_inv(2) sample_accepts]])
  then show "cu_core sample_pending" by (simp add: cu_inv_def)
  then show "cu_shape sample_pending" by (rule cu_core_shape)
qed

lemma sample_pending_nslots: "nslots sample_pending = 4"
  by (simp add: sample_pending_def sample_nslots)

lemma sample_pending_ready: "ready sample_pending 0"
  by (simp add: ready_def dependency_satisfied_def chain_busy_unfold [of _ 0] sample_pending_slot
      sample_element)

section \<open>Insertion\<close>

text \<open>A sequence of insertions, and the bundles of it that go to a slot.\<close>

definition insert_all ::
  "cu_ref \<Rightarrow> (status_bundle \<times> object_meta_data) list \<Rightarrow> conflation_unit \<times> conflation_ready_queue \<Rightarrow>
   (conflation_unit \<times> conflation_ready_queue) go" where
  "insert_all me ins s = fold_go (\<lambda>s (b, m). cu_insert me b m s) s ins"

definition bundles_for :: "conflation_unit \<Rightarrow> nat \<Rightarrow> (status_bundle \<times> object_meta_data) list \<Rightarrow> status_bundle list" where
  "bundles_for cu i ins = filter (\<lambda>b. priority_of cu (GetBundleType b) = i) (map fst ins)"

text \<open>The bundle a slot must hold: the newest of what it held and what arrived, if new enough.\<close>

definition newest_held ::
  "u64 \<Rightarrow> status_bundle option \<Rightarrow> status_bundle list \<Rightarrow> status_bundle option \<Rightarrow> bool" where
  "newest_held processed old arrived new \<longleftrightarrow>
     (\<forall>b \<in> set arrived. processed < GetGeneration b \<longrightarrow>
        (\<exists>b'. new = Some b' \<and> GetGeneration b \<le> GetGeneration b')) \<and>
     (new = old \<or>
      (\<exists>b \<in> set arrived. new = Some b \<and> processed < GetGeneration b \<and>
         (\<forall>b0. old = Some b0 \<longrightarrow> GetGeneration b0 < GetGeneration b)))"

lemma newest_held_refl: "newest_held g old [] old"
  by (simp add: newest_held_def)

lemma newest_held_skip:
  assumes "newest_held g old arrived new"
    and "g < GetGeneration b \<Longrightarrow> \<exists>b0. old = Some b0 \<and> GetGeneration b \<le> GetGeneration b0"
  shows "newest_held g old (b # arrived) new"
  using assms unfolding newest_held_def by (auto intro: less_imp_le dest: less_le_trans le_less_trans)

lemma newest_held_take:
  assumes "newest_held g (Some b) arrived new" "g < GetGeneration b"
    and "\<And>b0. old = Some b0 \<Longrightarrow> GetGeneration b0 < GetGeneration b"
  shows "newest_held g old (b # arrived) new"
  using assms unfolding newest_held_def by (auto intro: less_imp_le dest: less_trans)

lemma insert_all_core:
  assumes "cu_core cu"
  shows "\<exists>cu' rq'. insert_all me ins (cu, rq) = Inr (cu', rq') \<and> cu_core cu' \<and> nslots cu' = nslots cu \<and>
    (\<forall>i. ce_lastProcessedBundleGeneration (slot cu' i) = ce_lastProcessedBundleGeneration (slot cu i) \<and>
         ce_isInProcess (slot cu' i) = ce_isInProcess (slot cu i) \<and>
         newest_held (ce_lastProcessedBundleGeneration (slot cu i)) (ce_bundle (slot cu i))
           (bundles_for cu i ins) (ce_bundle (slot cu' i)))"
  using assms
proof (induction ins arbitrary: cu rq)
  case Nil
  then show ?case by (simp add: insert_all_def bundles_for_def newest_held_refl)
next
  case (Cons x ins)
  obtain b m where x: "x = (b, m)" by (cases x)
  note sh = cu_core_shape [OF Cons.prems]
  show ?case
  proof (cases "accepts cu b")
    case False
    then have "insert_all me (x # ins) (cu, rq) = insert_all me ins (cu, rq)"
      by (simp add: insert_all_def x cu_insert_eq [OF sh])
    moreover have "newest_held (ce_lastProcessedBundleGeneration (slot cu i)) (ce_bundle (slot cu i))
        (bundles_for cu i (x # ins)) new"
      if "newest_held (ce_lastProcessedBundleGeneration (slot cu i)) (ce_bundle (slot cu i))
        (bundles_for cu i ins) new" for i new
      using that newest_held_skip [OF that, of b] False
      by (auto simp: bundles_for_def x accepts_def Let_def not_less)
    ultimately show ?thesis using Cons.IH [OF Cons.prems, of rq] by auto
  next
    case True
    let ?cu = "fst (settle me (stored cu b m) rq)" and ?rq = "snd (settle me (stored cu b m) rq)"
    have step: "insert_all me (x # ins) (cu, rq) = insert_all me ins (?cu, ?rq)"
      using True by (simp add: insert_all_def x cu_insert_eq [OF sh])
    have core: "cu_core ?cu" using settle_inv [OF stored_core [OF Cons.prems True]] by (simp add: cu_inv_def)
    have bf: "bundles_for ?cu i ins = bundles_for cu i ins" for i by (simp add: bundles_for_def)
    have "newest_held (ce_lastProcessedBundleGeneration (slot cu i)) (ce_bundle (slot cu i))
        (bundles_for cu i (x # ins)) new"
      if "newest_held (ce_lastProcessedBundleGeneration (slot ?cu i)) (ce_bundle (slot ?cu i))
        (bundles_for cu i ins) new" for i new
      using that True newest_held_take [of "ce_lastProcessedBundleGeneration (slot cu i)" b]
      by (auto simp: bundles_for_def x accepts_def Let_def slot_stored [OF sh])
    with Cons.IH [OF core, of ?rq] show ?thesis
      unfolding step bf by (auto simp: slot_stored [OF sh])
  qed
qed

section \<open>Properties\<close>

text \<open>C37: For every well-formed list of registrations (priorities \<open>0, 1, \<dots>\<close> in some order, each
  dependency on a type of lower priority number) the constructor of a conflation unit returns: the
  unit satisfies the invariant, is idle, and has one empty element per registration, at the
  registration's priority, with its type, handler and dependency.\<close>

theorem new_unit_well_formed:
  assumes "registrations_ok rs"
  shows "\<exists>cu. newConflationUnit rs = Inr cu \<and> cu_inv cu \<and> \<not> cu_isInReadyQueue cu \<and>
    nslots cu = length rs \<and>
    (\<forall>r \<in> set rs. priority_of cu (reg_bundleType r) = reg_priority r \<and>
       element_at cu (reg_priority r) = Inr (newConflationElement r))"
proof -
  obtain cu where cu: "newConflationUnit rs = Inr cu" "nslots cu = length rs"
    "\<And>r. r \<in> set rs \<Longrightarrow> cu_priorityQueue cu ! reg_priority r = Some (newConflationElement r)"
    "\<And>r. r \<in> set rs \<Longrightarrow> priority_of cu (reg_bundleType r) = reg_priority r"
    "\<not> cu_isInReadyQueue cu"
    by (rule newConflationUnit_slots [OF assms]) (rule that)
  have "cu_inv cu" by (rule newConflationUnit_inv [OF assms]) (use cu(1) in simp)
  moreover have "reg_priority r < nslots cu" if "r \<in> set rs" for r
    using assms that cu(2) by (simp add: registrations_ok_def list_all_iff)
  ultimately show ?thesis using cu by (auto simp: element_at_def)
qed

lemma new_unit_well_formed_witness:
  "\<exists>cu. newConflationUnit setup_registrations = Inr cu \<and> cu_inv cu \<and> nslots cu = 4"
  using new_unit_well_formed [OF setup_registrations_ok] by (auto simp: setup_registrations_def)

text \<open>C38: In a well-formed unit the recursion along the dependencies of an element ends, without a
  panic, and its answer is whether the element or one it depends on, directly or through others, is
  in process.\<close>

theorem dependency_walk_terminates:
  assumes "cu_shape cu" "i < nslots cu"
  shows "\<exists>r. walk_dependencies cu (slot cu i) = Some (Inr r) \<and>
    r = (\<exists>j. (dep_edge cu)\<^sup>*\<^sup>* i j \<and> ce_isInProcess (slot cu j))"
  using walk_dependencies_eq [OF assms] by (simp add: chain_busy_def)

lemma dependency_walk_terminates_witness:
  "\<exists>r. walk_dependencies sample_unit (slot sample_unit 2) = Some (Inr r)"
  using dependency_walk_terminates [OF sample_unit_inv(3), of 2]
  by (auto simp: sample_unit_def setup_registrations_def)

text \<open>C27: After any sequence of insertions, of any types, each slot of a unit holds the newest bundle
  among the one it held and the ones of its type that arrived, ignoring those that are not newer than
  the generation already processed; no insertion panics, none changes what is in process or what has
  been processed.\<close>

theorem insertions_keep_newest:
  assumes "cu_core cu"
  shows "\<exists>cu' rq'. insert_all me ins (cu, rq) = Inr (cu', rq') \<and>
    (\<forall>i < nslots cu.
       ce_lastProcessedBundleGeneration (slot cu' i) = ce_lastProcessedBundleGeneration (slot cu i) \<and>
       ce_isInProcess (slot cu' i) = ce_isInProcess (slot cu i) \<and>
       newest_held (ce_lastProcessedBundleGeneration (slot cu i)) (ce_bundle (slot cu i))
         (bundles_for cu i ins) (ce_bundle (slot cu' i)))"
  using insert_all_core [OF assms, of me ins rq] by blast

lemma insertions_keep_newest_witness:
  "\<exists>cu' rq'. insert_all ''hub1'' [(sample_clusters 2, sample_metadata), (sample_clusters 1, sample_metadata)]
      (sample_unit, NewConflationReadyQueue) = Inr (cu', rq') \<and>
    (\<exists>b'. ce_bundle (slot cu' 0) = Some b' \<and> 2 \<le> GetGeneration b')"
proof -
  have z: "ce_lastProcessedBundleGeneration (slot sample_unit 0) = 0" "0 < nslots sample_unit"
    by (simp_all add: slot_def sample_unit_def setup_registrations_def newConflationElement_def)
  have "sample_clusters 2 \<in> set (bundles_for sample_unit 0
      [(sample_clusters 2, sample_metadata), (sample_clusters 1, sample_metadata)])"
    by (simp add: bundles_for_def sample_defs priority_of_def sample_unit_def)
  with z insertions_keep_newest [OF sample_unit_inv(2), of "''hub1''"
      "[(sample_clusters 2, sample_metadata), (sample_clusters 1, sample_metadata)]"
      NewConflationReadyQueue]
  show ?thesis unfolding newest_held_def by (fastforce simp: sample_clusters_def)
qed

text \<open>C28: When \<open>GetNext\<close> hands out a bundle, it is the one of the lowest priority number that is
  ready: it is not in process, nor is any bundle it depends on, and the generation it depends on has
  been processed. \<open>GetNext\<close> marks that element as in process, takes the unit off the ready queue's
  books and changes nothing else; its handler and metadata are the element's.\<close>

theorem GetNext_lowest_ready:
  assumes "cu_shape cu" "GetNext cu = Inr (cu', Inr nb)"
  shows "\<exists>i < nslots cu. ready cu i \<and> (\<forall>j < i. \<not> ready cu j) \<and>
    nb_bundle nb = ce_bundle (slot cu i) \<and> nb_bundle nb \<noteq> None \<and>
    nb_metadata nb = ce_bundleMetadata (slot cu i) \<and>
    nb_handlerFunc nb = ce_handlerFunction (slot cu i) \<and>
    \<not> cu_isInReadyQueue cu' \<and> cu_metas cu' = cu_metas cu \<and>
    (\<forall>j < nslots cu. slot cu' j = (if j = i then (slot cu i)\<lparr>ce_isInProcess := True\<rparr> else slot cu j))"
proof (cases rule: GetNext_cases [OF assms(1)])
  case 1
  with assms(2) show ?thesis by simp
next
  case (2 i)
  with assms(2) show ?thesis by (intro exI [of _ i]) (auto simp: slot_taken ready_def)
qed

lemma GetNext_lowest_ready_witness:
  "\<exists>cu' nb. GetNext sample_pending = Inr (cu', Inr nb) \<and> \<not> cu_isInReadyQueue cu' \<and> nb_bundle nb \<noteq> None"
proof -
  obtain cu' nb where gn: "GetNext sample_pending = Inr (cu', Inr nb)"
    by (rule GetNext_cases [OF sample_pending_inv(3)])
       (use sample_pending_ready sample_pending_nslots in auto)
  with GetNext_lowest_ready [OF sample_pending_inv(3) gn] show ?thesis by blast
qed

text \<open>C36: \<open>GetNext\<close> never panics on a well-formed unit. It returns its error, leaving the unit as it
  is, exactly when every pending bundle waits: it or one it depends on is in process, or the
  generation it depends on has not been processed.\<close>

theorem GetNext_error_iff:
  assumes "cu_shape cu"
  shows "(\<exists>r. GetNext cu = Inr r) \<and>
    (GetNext cu = Inr (cu, Inl errNoReadyBundle) \<longleftrightarrow>
      (\<forall>i < nslots cu. ce_bundle (slot cu i) \<noteq> None \<longrightarrow>
         chain_busy cu i \<or> \<not> dependency_satisfied cu i))"
  by (rule GetNext_cases [OF assms]) (auto simp: ready_def)

lemma GetNext_error_iff_witness:
  "GetNext sample_unit = Inr (sample_unit, Inl errNoReadyBundle) \<and>
   GetNext sample_pending \<noteq> Inr (sample_pending, Inl errNoReadyBundle)"
proof -
  have "GetNext sample_unit = Inr (sample_unit, Inl errNoReadyBundle)"
    using GetNext_error_iff [OF sample_unit_inv(3)]
    by (simp add: sample_nslots sample_slot newConflationElement_def)
  moreover have "GetNext sample_pending \<noteq> Inr (sample_pending, Inl errNoReadyBundle)"
    using GetNext_error_iff [OF sample_pending_inv(3)] sample_pending_ready sample_pending_nslots
    by (auto simp: ready_def intro!: exI [of _ 0])
  ultimately show ?thesis ..
qed

text \<open>C29: A failed job leaves its bundle pending. When the worker reports an error and no newer bundle
  has replaced the one processed, the element keeps its bundle and its last processed generation, is no
  longer in process, and, its dependency being satisfied, the unit is back in the ready queue to be
  tried again.\<close>

theorem failed_bundle_is_retried:
  assumes "cu_core cu" "\<not> cu_isInReadyQueue cu" "job_ok cu b r"
    and "ce_bundle (slot cu p) = Some b" "p = priority_of cu (GetBundleType b)"
    and "dependency_satisfied cu p"
  shows "\<exists>cu'. ReportResult me (Some r) (Some err) (cu, rq) = Inr (cu', Enqueue rq me) \<and>
    cu_isInReadyQueue cu' \<and> cu_inv cu' \<and> slot cu' p = (slot cu p)\<lparr>ce_isInProcess := False\<rparr> \<and>
    (\<forall>j. j \<noteq> p \<longrightarrow> slot cu' j = slot cu j)"
proof -
  let ?cu = "reported cu b (Some err)"
  note sh = cu_core_shape [OF assms(1)]
  have sl: "slot ?cu j = (if j = p then (slot cu p)\<lparr>ce_isInProcess := False\<rparr> else slot cu j)" for j
    using assms(5) by (simp add: slot_reported [OF sh] finished_element_def)
  have idle: "\<not> busy ?cu" by (rule reported_not_busy [OF assms(1,3)])
  have p: "p < nslots cu" using assms(5) priority_of_in [OF sh] by simp
  have "dependency_satisfied ?cu p" using assms(6) by (auto simp: dependency_satisfied_def sl)
  moreover have "\<not> chain_busy ?cu p"
    by (rule not_busy_chain [OF shape_reported [OF sh] idle]) (simp add: p)
  ultimately have "ready ?cu p" using assms(4) by (simp add: ready_def sl)
  then have st: "settle me ?cu rq = (?cu\<lparr>cu_isInReadyQueue := True\<rparr>, Enqueue rq me)"
    using idle assms(2) p by (auto simp: settle_def)
  have "cu_inv (fst (settle me ?cu rq))" by (rule settle_inv [OF reported_core [OF assms(1,3)]])
  with st show ?thesis
    using ReportResult_eq [OF sh assms(3), of me "Some err" rq] by (auto simp: sl)
qed

definition sample_running :: conflation_unit where
  "sample_running = taken sample_pending 0"

lemma sample_running_job:
  "cu_core sample_running"
  "job_ok sample_running (sample_clusters 1) (stored_ref sample_unit (sample_clusters 1) sample_metadata)"
  "slot sample_running 0 = (slot sample_pending 0)\<lparr>ce_isInProcess := True\<rparr>"
  "priority_of sample_running (GetBundleType (sample_clusters g)) = 0"
  "\<not> cu_isInReadyQueue sample_running"
proof -
  have n: "0 < nslots sample_pending" by (simp add: sample_pending_nslots)
  have "\<not> busy sample_pending"
    by (auto simp: busy_def sample_pending_slot sample_pending_nslots sample_slot newConflationElement_def)
  with taken_inv [OF sample_pending_inv(2) _ n sample_pending_ready] show "cu_core sample_running"
    by (simp add: sample_running_def cu_inv_def)
  obtain b r where b: "ce_bundle (slot sample_pending 0) = Some b"
      "ce_bundleMetadata (slot sample_pending 0) = Some r" "job_ok (taken sample_pending 0) b r"
    by (rule taken_job_ok [OF sample_pending_inv(2) n sample_pending_ready]) (rule that)
  then show "job_ok sample_running (sample_clusters 1)
      (stored_ref sample_unit (sample_clusters 1) sample_metadata)"
    by (simp add: sample_pending_slot sample_running_def)
  show "slot sample_running 0 = (slot sample_pending 0)\<lparr>ce_isInProcess := True\<rparr>"
    using n by (simp add: sample_running_def slot_taken)
  show "priority_of sample_running (GetBundleType (sample_clusters g)) = 0"
    using sample_priority(1) [of g] by (simp add: sample_running_def sample_pending_def)
  show "\<not> cu_isInReadyQueue sample_running" by (simp add: sample_running_def)
qed

lemma sample_running_slot:
  "ce_bundle (slot sample_running 0) = Some (sample_clusters 1)"
  "ce_dependency (slot sample_running 0) = None"
  by (simp_all add: sample_running_job sample_pending_slot sample_element)

lemma failed_bundle_is_retried_witness:
  "\<exists>cu'. ReportResult ''hub1'' (Some (stored_ref sample_unit (sample_clusters 1) sample_metadata))
      (Some ''timeout'') (sample_running, NewConflationReadyQueue) =
      Inr (cu', Enqueue NewConflationReadyQueue ''hub1'') \<and> cu_isInReadyQueue cu'"
  using failed_bundle_is_retried [OF sample_running_job(1,5,2), of 0 "''hub1''" "''timeout''"
      NewConflationReadyQueue] sample_running_job(4) sample_running_slot
  by (auto simp: dependency_satisfied_def)

text \<open>A successful report advances the last processed generation to that of the job's bundle. The
  element is emptied when it still holds that bundle; a newer bundle that arrived meanwhile stays
  pending. No other element changes.\<close>

theorem successful_report:
  assumes "cu_core cu" "job_ok cu b r" "p = priority_of cu (GetBundleType b)"
  shows "\<exists>cu' rq'. ReportResult me (Some r) None (cu, rq) = Inr (cu', rq') \<and> cu_inv cu' \<and>
    ce_lastProcessedBundleGeneration (slot cu' p) = GetGeneration b \<and>
    \<not> ce_isInProcess (slot cu' p) \<and>
    (ce_bundle (slot cu p) = Some b \<longrightarrow>
       ce_bundle (slot cu' p) = None \<and> ce_bundleMetadata (slot cu' p) = None) \<and>
    (ce_bundle (slot cu p) \<noteq> Some b \<longrightarrow>
       ce_bundle (slot cu' p) = ce_bundle (slot cu p) \<and>
       ce_bundleMetadata (slot cu' p) = ce_bundleMetadata (slot cu p)) \<and>
    (\<forall>j. j \<noteq> p \<longrightarrow> slot cu' j = slot cu j)"
proof -
  note sh = cu_core_shape [OF assms(1)]
  let ?cu = "fst (settle me (reported cu b None) rq)"
  have inv: "cu_inv ?cu" by (rule settle_inv [OF reported_core [OF assms(1,2)]])
  obtain b' where "ce_bundle (slot cu p) = Some b'" "b' = b \<or> GetGeneration b < GetGeneration b'"
    using assms(2,3) by (auto simp: job_ok_def Let_def)
  then show ?thesis
    using inv ReportResult_eq [OF sh assms(2), of me None rq] assms(3)
    by (intro exI [of _ ?cu] exI [of _ "snd (settle me (reported cu b None) rq)"])
       (auto simp: slot_reported [OF sh] finished_element_def)
qed

lemma successful_report_witness:
  "\<exists>cu' rq'. ReportResult ''hub1'' (Some (stored_ref sample_unit (sample_clusters 1) sample_metadata))
      None (sample_running, NewConflationReadyQueue) = Inr (cu', rq') \<and>
    ce_bundle (slot cu' 0) = None \<and> ce_lastProcessedBundleGeneration (slot cu' 0) = 1"
  using successful_report [OF sample_running_job(1,2), of 0 "''hub1''" NewConflationReadyQueue]
    sample_running_job(4) sample_running_slot
  by auto

end
