(* ===== verification/Bridge_Steps.thy ===== *)
theory Bridge_Steps
  imports Bridge_Invariant
begin

text \<open>
  What one step of the running bridge changes in the conflation units: nothing, an insertion into one
  unit, the hand-out of a bundle of one unit, or the report of one job. From that: processed
  generations never go back, metadata of a job is never written, and what becomes of a unit that has
  the flag of the ready queue without being in it.
\<close>

section \<open>Kinds of steps\<close>

definition queued_unit :: "bridge \<Rightarrow> cu_ref \<Rightarrow> bool" where
  "queued_unit s n \<longleftrightarrow> n \<in> set (rq_queue (br_readyQueue s)) \<or> held_unit s = Some n"

lemma insert_step:
  assumes inv: "bridge_inv s" and p: "perform (EvInsert b m) s = Some (Inr t)"
  shows "t = s\<lparr>br_manager := (br_manager s)\<lparr>cm_conflationUnits := (units s)(GetLeafHubName b \<mapsto>
              fst (inserted_unit (br_manager s) b m (br_readyQueue s)))\<rparr>,
            br_readyQueue := snd (inserted_unit (br_manager s) b m (br_readyQueue s))\<rparr>"
proof -
  have mi: "manager_inv (br_manager s)" using inv by (simp add: bridge_inv_def)
  show ?thesis using p by (simp add: cm_Insert_eq [OF mi] split: prod.splits)
qed

lemma finish_step:
  assumes inv: "bridge_inv s" and p: "perform (EvFinish w err) s = Some (Inr t)"
  obtains j u b r where "w < length (wp_workers (br_pool s))"
    "wk_pc (wp_workers (br_pool s) ! w) = WorkerRunning j" "job_at s (AtWorker w) = Some j"
    "units s (job_resultReporter j) = Some u" "job_bundle j = Some b" "job_bundleMetadata j = Some r"
    "job_ok u b r"
    "t = s\<lparr>br_pool := set_worker (br_pool s) w ((wp_workers (br_pool s) ! w)\<lparr>wk_pc := WorkerOffering\<rparr>),
           br_manager := (br_manager s)\<lparr>cm_conflationUnits := (units s)(job_resultReporter j \<mapsto>
             fst (settle (job_resultReporter j) (reported u b err) (br_readyQueue s)))\<rparr>,
           br_readyQueue := snd (settle (job_resultReporter j) (reported u b err) (br_readyQueue s))\<rparr>"
proof -
  have jobs: "jobs_ok s" using inv by (simp add: bridge_inv_def)
  from p obtain j where w: "w < length (wp_workers (br_pool s))"
      "wk_pc (wp_workers (br_pool s) ! w) = WorkerRunning j"
    by (auto simp: worker_finish_def split: if_splits worker_pc.splits)
  have at: "job_at s (AtWorker w) = Some j" using w by (simp add: job_at_def worker_job_def)
  obtain u b r where u: "units s (job_resultReporter j) = Some u" "job_bundle j = Some b"
      "job_bundleMetadata j = Some r" "job_ok u b r"
    using jobs_okD [OF jobs at] by (auto simp: good_job_def)
  have sh: "cu_shape u" using bridge_inv_cu [OF inv u(1)] by simp
  obtain u' rq' where st: "settle (job_resultReporter j) (reported u b err) (br_readyQueue s) = (u', rq')"
    by (cases "settle (job_resultReporter j) (reported u b err) (br_readyQueue s)")
  show ?thesis
    by (rule that [OF w at u])
       (use p w u st in \<open>simp add: worker_finish_def with_unit_def ReportResult_eq [OF sh u(4)]\<close>)
qed

lemma getnext_step:
  assumes inv: "bridge_inv s" and pc: "dp_pc (br_dispatcher s) = DispGetNext n w"
    and p: "perform EvDispatch s = Some (Inr t)"
  obtains (none) u where "units s n = Some u" "\<forall>i < nslots u. \<not> ready u i" "t = goto s DispSelect"
  | (take) u i where "units s n = Some u" "i < nslots u" "ready u i" "\<forall>j < i. \<not> ready u j"
      "t = goto (s\<lparr>br_manager := (br_manager s)\<lparr>cm_conflationUnits := (units s)(n \<mapsto> taken u i)\<rparr>\<rparr>)
        (DispRun w (NewDBJob (ce_bundle (slot u i)) (ce_bundleMetadata (slot u i))
           (ce_handlerFunction (slot u i)) n))"
proof -
  have "held_unit s = Some n" using pc by (simp add: held_unit_def)
  then obtain u where u: "units s n = Some u"
    using inv by (auto simp: bridge_inv_def intro: queue_okD)
  have sh: "cu_shape u" using bridge_inv_cu [OF inv u] by simp
  have id: "(br_manager s)\<lparr>cm_conflationUnits := (units s)(n \<mapsto> u)\<rparr> = br_manager s"
    using u by (simp add: map_upd_triv)
  show ?thesis
    by (rule GetNext_cases [OF sh])
       (use p pc u id none take in \<open>auto simp: dispatch_def with_unit_def\<close>)
qed

lemma running_step_cases:
  assumes inv: "bridge_inv s" and run: "running_event e" and p: "perform e s = Some (Inr t)"
  obtains (same) "units t = units s" "\<And>n. queued_unit t n \<Longrightarrow> queued_unit s n"
  | (insert) b m where "e = EvInsert b m"
      "units t = (units s)(GetLeafHubName b \<mapsto> fst (inserted_unit (br_manager s) b m (br_readyQueue s)))"
      "br_readyQueue t = snd (inserted_unit (br_manager s) b m (br_readyQueue s))"
      "held_unit t = held_unit s"
  | (take) n u i where "e = EvDispatch" "held_unit s = Some n" "units s n = Some u" "i < nslots u"
      "ready u i" "units t = (units s)(n \<mapsto> taken u i)" "br_readyQueue t = br_readyQueue s"
      "held_unit t = None"
  | (report) w err j u b r where "e = EvFinish w err" "job_at s (AtWorker w) = Some j"
      "units s (job_resultReporter j) = Some u" "job_bundle j = Some b" "job_ok u b r"
      "units t = (units s)(job_resultReporter j \<mapsto>
         fst (settle (job_resultReporter j) (reported u b err) (br_readyQueue s)))"
      "br_readyQueue t = snd (settle (job_resultReporter j) (reported u b err) (br_readyQueue s))"
      "held_unit t = held_unit s"
proof (cases e)
  case (EvInsert b m)
  with insert_step [OF inv, of b m t] p show ?thesis by (intro insert [of b m]) simp_all
next
  case (EvFinish w err)
  show ?thesis
    by (rule finish_step [OF inv, of w err t], use p EvFinish in simp)
       (use EvFinish in \<open>intro report, simp_all add: held_unit_def\<close>)
next
  case EvDispatch
  show ?thesis
  proof (cases "dp_pc (br_dispatcher s)")
    case (DispGetNext n w)
    have h: "held_unit s = Some n" using DispGetNext by (simp add: held_unit_def)
    show ?thesis
    proof (rule getnext_step [OF inv DispGetNext])
      show "perform EvDispatch s = Some (Inr t)" using p EvDispatch by simp
    next
      fix u assume "t = goto s DispSelect"
      then show ?thesis by (intro same) (auto simp: queued_unit_def held_unit_def)
    next
      fix u i assume "units s n = Some u" "i < nslots u" "ready u i"
        "t = goto (s\<lparr>br_manager := (br_manager s)\<lparr>cm_conflationUnits := (units s)(n \<mapsto> taken u i)\<rparr>\<rparr>)
          (DispRun w (NewDBJob (ce_bundle (slot u i)) (ce_bundleMetadata (slot u i))
             (ce_handlerFunction (slot u i)) n))"
      with EvDispatch h show ?thesis by (intro take [of n u i]) (auto simp: held_unit_def)
    qed
  next
    case DispDequeue
    with p EvDispatch obtain n rq where d: "BlockingDequeue (br_readyQueue s) = Some (n, rq)"
        "t = goto (s\<lparr>br_readyQueue := rq\<rparr>) (DispAcquire n)"
      by (auto simp: dispatch_def split: option.splits)
    with rq.contents_deq [OF d(1)] show ?thesis
      by (intro same) (auto simp: queued_unit_def held_unit_def)
  next
    case (DispRun w j)
    with p EvDispatch show ?thesis
      by (intro same)
         (auto simp: dispatch_def queued_unit_def held_unit_def bind_go_eq_Inr split: option.splits)
  qed (use p EvDispatch in \<open>intro same; auto simp: dispatch_def queued_unit_def held_unit_def
         split: option.splits if_splits\<close>)+
qed (use p run in \<open>intro same; auto simp: queued_unit_def held_unit_def dispatcher_cancel_def bind_go_eq_Inr
       split: option.splits\<close>)+

lemma step_registrations:
  assumes inv: "bridge_inv s" and run: "running_event e" and p: "perform e s = Some (Inr t)"
  shows "cm_registrations (br_manager t) = cm_registrations (br_manager s)"
proof (cases e)
  case (EvInsert b m)
  with insert_step [OF inv, of b m t] p show ?thesis by simp
next
  case (EvFinish w err)
  show ?thesis by (rule finish_step [OF inv, of w err t]) (use p EvFinish in simp_all)
next
  case EvDispatch
  show ?thesis
  proof (cases "dp_pc (br_dispatcher s)")
    case (DispGetNext n w)
    show ?thesis by (rule getnext_step [OF inv DispGetNext, of t]) (use p EvDispatch in simp_all)
  qed (use p EvDispatch in \<open>auto simp: dispatch_def bind_go_eq_Inr split: option.splits\<close>)
qed (use p run in \<open>auto simp: dispatcher_cancel_def bind_go_eq_Inr split: option.splits\<close>)

section \<open>Processed generations never go back\<close>

lemma unit_of_Some: "units s n = Some u \<Longrightarrow> unit_of (br_manager s) n = u"
  by (simp add: unit_of_def)

lemma reported_processed:
  assumes "cu_shape u" "job_ok u b r"
  shows "ce_lastProcessedBundleGeneration (slot u i) \<le>
    ce_lastProcessedBundleGeneration (slot (reported u b err) i)"
  using assms(2) by (auto simp: slot_reported [OF assms(1)] finished_element_def job_ok_def Let_def)

text \<open>What later states keep of a unit.\<close>

definition unit_grows :: "conflation_unit \<Rightarrow> conflation_unit \<Rightarrow> bool" where
  "unit_grows u u' \<longleftrightarrow>
     (\<forall>t. priority_of u' t = priority_of u t) \<and>
     (\<forall>i. ce_lastProcessedBundleGeneration (slot u i) \<le> ce_lastProcessedBundleGeneration (slot u' i))"

lemma unit_grows_refl [simp]: "unit_grows u u"
  by (simp add: unit_grows_def)

lemma unit_grows_trans: "unit_grows u v \<Longrightarrow> unit_grows v w \<Longrightarrow> unit_grows u w"
  unfolding unit_grows_def by (metis order_trans)

lemma step_unit_grows:
  assumes inv: "bridge_inv s" and run: "running_event e" and p: "perform e s = Some (Inr t)"
    and u: "units s n = Some u"
  shows "\<exists>u'. units t n = Some u' \<and> unit_grows u u'"
proof (cases rule: running_step_cases [OF inv run p])
  case 1
  with u show ?thesis by simp
next
  case (2 b m)
  show ?thesis
  proof (cases "n = GetLeafHubName b")
    case True
    have sh: "cu_shape u" using bridge_inv_cu [OF inv u] by simp
    show ?thesis
      using 2(2) u True
      by (auto simp: unit_of_Some [OF u [unfolded True]] inserted_unit_def Let_def unit_grows_def
          slot_stored [OF sh])
  qed (use 2 u in simp)
next
  case (3 n' u' i)
  then show ?thesis using u by (cases "n = n'") (auto simp: unit_grows_def slot_taken)
next
  case (4 w err j u' b r)
  show ?thesis
  proof (cases "n = job_resultReporter j")
    case True
    then have "u' = u" using u 4(3) by simp
    moreover have "cu_shape u" using bridge_inv_cu [OF inv u] by simp
    ultimately show ?thesis
      using 4 True reported_processed [of u b r] by (auto simp: unit_grows_def)
  qed (use 4 u in simp)
qed

lemma reachable_from_inv:
  assumes "reachable s t" "bridge_inv s"
  shows "bridge_inv t"
  using assms
proof (induction rule: reachable.induct)
  case (step t e v)
  then show ?case using running_step_inv [of t e "Inr v"] by auto
qed

lemma reachable_unit_grows:
  assumes "reachable s t" "bridge_inv s" "units s n = Some u"
  shows "\<exists>u'. units t n = Some u' \<and> unit_grows u u'"
  using assms
proof (induction rule: reachable.induct)
  case start
  then show ?case by simp
next
  case (step t e v)
  then obtain u1 where u1: "units t n = Some u1" "unit_grows u u1" by blast
  have "bridge_inv t" using reachable_from_inv step by blast
  from step_unit_grows [OF this step(2,3) u1(1)] u1(2) show ?case by (blast intro: unit_grows_trans)
qed

section \<open>Metadata of jobs\<close>

lemma job_metadata_kept:
  assumes core: "cu_core u" and job: "job_ok u jb r"
  shows "cu_metas (stored u b m) ! r = cu_metas u ! r"
proof (rule stored_other_metadata)
  show "r < length (cu_metas u)" using job by (simp add: job_ok_def Let_def metadata_ok_def)
  have "priority_of u (GetBundleType b) < nslots u" by (rule priority_of_in [OF cu_core_shape [OF core]])
  then show "ce_bundleMetadata (slot u (priority_of u (GetBundleType b))) = Some r \<longrightarrow>
      ce_isInProcess (slot u (priority_of u (GetBundleType b)))"
    using job by (cases "priority_of u (GetBundleType b) = priority_of u (GetBundleType jb)")
      (auto simp: job_ok_def Let_def)
qed

section \<open>Units the ready queue has lost\<close>

text \<open>
  A lost unit has the flag that says it is in the ready queue, but it is neither in the queue nor in
  the dispatcher's hands.
\<close>

definition lost :: "bridge \<Rightarrow> cu_ref \<Rightarrow> bool" where
  "lost s n \<longleftrightarrow> \<not> queued_unit s n \<and> (\<exists>u. units s n = Some u \<and> cu_isInReadyQueue u)"

lemma flagged_idle: "bridge_inv s \<Longrightarrow> units s n = Some u \<Longrightarrow> cu_isInReadyQueue u \<Longrightarrow> \<not> busy u"
  using bridge_inv_cu by (fastforce simp: cu_core_def)

lemma lost_no_job:
  assumes inv: "bridge_inv s" and l: "lost s n" and j: "job_at s p = Some j"
  shows "job_resultReporter j \<noteq> n"
proof
  assume n: "job_resultReporter j = n"
  obtain u where u: "units s n = Some u" "cu_isInReadyQueue u" using l by (auto simp: lost_def)
  have "good_job s j" using inv j by (auto simp: bridge_inv_def intro: jobs_okD)
  then obtain b r where "job_ok u b r" using n u(1) by (auto simp: good_job_def)
  moreover have "cu_shape u" using bridge_inv_cu [OF inv u(1)] by simp
  ultimately show False using job_ok_busy flagged_idle [OF inv u] by blast
qed

lemma lost_step:
  assumes inv: "bridge_inv s" and run: "running_event e" and p: "perform e s = Some (Inr t)"
    and l: "lost s n"
  shows "lost t n"
proof -
  obtain u where u: "units s n = Some u" "cu_isInReadyQueue u" and nq: "\<not> queued_unit s n"
    using l by (auto simp: lost_def)
  show ?thesis
  proof (cases rule: running_step_cases [OF inv run p])
    case 1
    with u nq show ?thesis by (auto simp: lost_def)
  next
    case (2 b m)
    show ?thesis
    proof (cases "n = GetLeafHubName b")
      case True
      then have "inserted_unit (br_manager s) b m (br_readyQueue s) =
          (if accepts u b then stored u b m else u, br_readyQueue s)"
        using u unit_of_Some [OF u(1)] by (simp add: inserted_unit_def Let_def settle_def)
      with 2 u nq True show ?thesis by (simp add: lost_def queued_unit_def)
    next
      case False
      have "n \<notin> set (rq_queue (snd (inserted_unit (br_manager s) b m (br_readyQueue s))))"
        using nq False
        by (auto simp: inserted_unit_def Let_def settle_def queued_unit_def rq.contents_enq)
      with 2 u nq False show ?thesis by (simp add: lost_def queued_unit_def)
    qed
  next
    case (3 n' u' i)
    then have "n \<noteq> n'" using nq by (auto simp: queued_unit_def)
    with 3 u nq show ?thesis by (simp add: lost_def queued_unit_def)
  next
    case (4 w err j u' b r)
    have "n \<noteq> job_resultReporter j" using lost_no_job [OF inv l 4(2)] by simp
    with 4 u nq show ?thesis
      by (auto simp: lost_def queued_unit_def settle_def rq.contents_enq)
  qed
qed

lemma lost_forever:
  assumes "reachable s t" "bridge_inv s" "lost s n"
  shows "lost t n"
  using assms
proof (induction rule: reachable.induct)
  case (step t e v)
  have "bridge_inv t" using reachable_from_inv step by blast
  from lost_step [OF this step(2,3)] step show ?case by blast
qed

text \<open>A call of \<open>GetNext\<close> by the dispatcher that returns an error, and the runs without one.\<close>

definition getnext_fails :: "bridge_event \<Rightarrow> bridge \<Rightarrow> bool" where
  "getnext_fails e s \<longleftrightarrow> e = EvDispatch \<and>
     (case dp_pc (br_dispatcher s) of
        DispGetNext n w \<Rightarrow>
          (case with_unit n GetNext (br_manager s) of Inr (_, Inl err) \<Rightarrow> True | _ \<Rightarrow> False)
      | _ \<Rightarrow> False)"

inductive error_free :: "bridge \<Rightarrow> bridge \<Rightarrow> bool" for s0 where
  error_free_start: "error_free s0 s0"
| error_free_step: "error_free s0 s \<Longrightarrow> running_event e \<Longrightarrow> \<not> getnext_fails e s \<Longrightarrow>
    perform e s = Some (Inr t) \<Longrightarrow> error_free s0 t"

fun error_free_steps :: "bridge_event list \<Rightarrow> bridge \<Rightarrow> bool" where
  "error_free_steps [] s = True"
| "error_free_steps (e # es) s \<longleftrightarrow> running_event e \<and> \<not> getnext_fails e s \<and>
     (case perform e s of Some (Inr t) \<Rightarrow> error_free_steps es t | _ \<Rightarrow> False)"

lemma error_free_run:
  "error_free s0 s \<Longrightarrow> error_free_steps es s \<Longrightarrow> run_steps perform es s = Some (Inr t) \<Longrightarrow> error_free s0 t"
  by (induction es arbitrary: s) (auto intro: error_free_step split: option.splits sum.splits)

lemma error_free_reachable: "error_free s0 s \<Longrightarrow> reachable s0 s"
  by (induction rule: error_free.induct) (auto intro: reachable.intros)

text \<open>Without such an error a unit leaves the queue and the dispatcher's hands only with its flag cleared.\<close>

lemma queued_unit_kept:
  assumes inv: "bridge_inv s" and run: "running_event e" and p: "perform e s = Some (Inr t)"
    and ok: "\<not> getnext_fails e s" and q: "queued_unit s n"
  shows "queued_unit t n \<or> (\<exists>u. units t n = Some u \<and> \<not> cu_isInReadyQueue u)"
proof (cases e)
  case (EvInsert b m)
  with insert_step [OF inv, of b m t] p q show ?thesis
    by (auto simp: queued_unit_def held_unit_def inserted_unit_def Let_def settle_def rq.contents_enq)
next
  case (EvFinish w err)
  show ?thesis
    by (rule finish_step [OF inv, of w err t], use p EvFinish in simp)
       (use q in \<open>auto simp: queued_unit_def held_unit_def settle_def rq.contents_enq\<close>)
next
  case EvDispatch
  show ?thesis
  proof (cases "dp_pc (br_dispatcher s)")
    case (DispGetNext m w)
    show ?thesis
    proof (rule getnext_step [OF inv DispGetNext])
      show "perform EvDispatch s = Some (Inr t)" using p EvDispatch by simp
    next
      fix u assume u: "units s m = Some u" "\<forall>i < nslots u. \<not> ready u i"
      have sh: "cu_shape u" using bridge_inv_cu [OF inv u(1)] by simp
      have "getnext_fails e s"
        by (rule GetNext_cases [OF sh])
           (use u EvDispatch DispGetNext in \<open>auto simp: getnext_fails_def with_unit_def\<close>)
      with ok show ?thesis by simp
    next
      fix u i assume "t = goto (s\<lparr>br_manager := (br_manager s)\<lparr>cm_conflationUnits := (units s)(m \<mapsto> taken u i)\<rparr>\<rparr>)
          (DispRun w (NewDBJob (ce_bundle (slot u i)) (ce_bundleMetadata (slot u i))
             (ce_handlerFunction (slot u i)) m))"
      with q DispGetNext show ?thesis by (cases "n = m") (auto simp: queued_unit_def held_unit_def taken_def)
    qed
  next
    case DispDequeue
    with p EvDispatch obtain m rq where d: "BlockingDequeue (br_readyQueue s) = Some (m, rq)"
        "t = goto (s\<lparr>br_readyQueue := rq\<rparr>) (DispAcquire m)"
      by (auto simp: dispatch_def split: option.splits)
    with rq.contents_deq [OF d(1)] q DispDequeue show ?thesis
      by (auto simp: queued_unit_def held_unit_def)
  next
    case (DispRun w j)
    with p q EvDispatch show ?thesis
      by (auto simp: dispatch_def queued_unit_def held_unit_def bind_go_eq_Inr split: option.splits)
  qed (use p q EvDispatch in \<open>auto simp: dispatch_def queued_unit_def held_unit_def
         split: option.splits if_splits\<close>)+
qed (use p q run in \<open>auto simp: queued_unit_def held_unit_def dispatcher_cancel_def bind_go_eq_Inr
       split: option.splits\<close>)+

lemma not_lost_step:
  assumes inv: "bridge_inv s" and run: "running_event e" and p: "perform e s = Some (Inr t)"
    and ok: "\<not> getnext_fails e s" and nl: "\<not> lost s n"
  shows "\<not> lost t n"
proof
  assume "lost t n"
  then obtain u' where u': "units t n = Some u'" "cu_isInReadyQueue u'" and nq: "\<not> queued_unit t n"
    by (auto simp: lost_def)
  have nqs: "\<not> queued_unit s n" using queued_unit_kept [OF inv run p ok, of n] u' nq by auto
  then have unflagged: "\<not> cu_isInReadyQueue u" if "units s n = Some u" for u
    using nl that by (auto simp: lost_def)
  show False
  proof (cases rule: running_step_cases [OF inv run p])
    case 1
    with u' unflagged show False by simp
  next
    case (2 b m)
    show False
    proof (cases "n = GetLeafHubName b")
      case True
      have "\<not> cu_isInReadyQueue (unit_of (br_manager s) n)"
      proof (cases "units s n")
        case None
        then show ?thesis using getConflationUnit_eq(3) [of "br_manager s" n] inv by (simp add: bridge_inv_def)
      qed (use unflagged unit_of_Some in simp)
      with 2 True u' nq show False
        by (auto simp: inserted_unit_def Let_def settle_def queued_unit_def rq.contents_enq split: if_splits)
    qed (use 2 u' unflagged in simp)
  next
    case (3 m u i)
    then have "n \<noteq> m" using nqs by (auto simp: queued_unit_def)
    with 3 u' unflagged show False by simp
  next
    case (4 w err j u b r)
    show False
    proof (cases "n = job_resultReporter j")
      case True
      with 4 u' nq unflagged show False
        by (auto simp: settle_def reported_def Let_def queued_unit_def rq.contents_enq split: if_splits)
    qed (use 4 u' unflagged in simp)
  qed
qed

lemma error_free_not_lost:
  assumes "error_free s0 s" "bridge_inv s0" "\<And>n. \<not> lost s0 n"
  shows "\<not> lost s n"
  using assms(1)
proof (induction rule: error_free.induct)
  case (error_free_step s e t)
  have "bridge_inv s" using error_free_reachable [OF error_free_step.hyps(1)] assms(2) reachable_from_inv by blast
  from not_lost_step [OF this error_free_step.hyps(2,4,3) error_free_step.IH] show ?case .
qed (rule assms(3))

section \<open>Workers the pool has lost\<close>

text \<open>An orphaned worker waits for a job but is neither available nor in the dispatcher's hands.\<close>

definition orphaned :: "bridge \<Rightarrow> nat \<Rightarrow> bool" where
  "orphaned s w \<longleftrightarrow>
     worker_free (br_pool s) w \<and> w \<notin> set (wp_dbWorkers (br_pool s)) \<and> held_worker s \<noteq> Some w"

lemma worker_free_other:
  "v \<noteq> w \<Longrightarrow> worker_free (set_worker pool v wk) w = worker_free pool w"
  by (auto simp: worker_free_def set_worker_def)

lemma worker_free_frame [simp]:
  "worker_free (pool\<lparr>wp_dbWorkers := ws\<rparr>) w = worker_free pool w"
  by (simp add: worker_free_def)

lemma orphaned_dispatch:
  assumes inv: "bridge_inv s" and p: "perform EvDispatch s = Some (Inr t)" and o: "orphaned s w"
  shows "orphaned t w"
proof (cases "dp_pc (br_dispatcher s)")
  case (DispGetNext n v)
  show ?thesis
    by (rule getnext_step [OF inv DispGetNext p])
       (use o DispGetNext in \<open>auto simp: orphaned_def held_worker_def\<close>)
next
  case (DispAcquire n)
  with p o show ?thesis
    by (auto simp: dispatch_def Acquire_def orphaned_def held_worker_def split: list.splits if_splits)
next
  case (DispRun v j)
  with inv obtain v' where v': "v = Some v'" by (cases v) (auto simp: bridge_inv_def pool_ok_def Let_def)
  with DispRun o have "v' \<noteq> w" by (auto simp: orphaned_def held_worker_def)
  with p o DispRun v' show ?thesis
    by (auto simp: dispatch_def RunAsync_def orphaned_def held_worker_def worker_free_other Let_def
        split: if_splits)
qed (use p o in \<open>auto simp: dispatch_def orphaned_def held_worker_def split: option.splits if_splits\<close>)

lemma orphaned_step:
  assumes inv: "bridge_inv s" and run: "running_event e" and p: "perform e s = Some (Inr t)"
    and o: "orphaned s w"
  shows "orphaned t w"
proof (cases e)
  case (EvInsert b m)
  with insert_step [OF inv, of b m t] p o show ?thesis by (simp add: orphaned_def)
next
  case EvDispatch
  with orphaned_dispatch [OF inv _ o] p show ?thesis by simp
next
  case (EvOffer v)
  with p o have "v \<noteq> w" by (auto simp: worker_offer_def orphaned_def worker_free_def split: if_splits)
  with EvOffer p o show ?thesis
    by (auto simp: worker_offer_def orphaned_def worker_free_other split: if_splits)
next
  case (EvReceive v)
  with p o have "v \<noteq> w"
    by (auto simp: worker_receive_def orphaned_def worker_free_def split: if_splits)
  with EvReceive p o show ?thesis
    by (auto simp: worker_receive_def orphaned_def worker_free_other bind_go_eq_Inr
        split: if_splits list.splits)
next
  case (EvFinish v err)
  show ?thesis
  proof (rule finish_step [OF inv, of v err t])
    show "perform (EvFinish v err) s = Some (Inr t)" using p EvFinish by simp
  next
    fix j u b r
    assume v: "wk_pc (wp_workers (br_pool s) ! v) = WorkerRunning j"
      and t: "t = s\<lparr>br_pool := set_worker (br_pool s) v ((wp_workers (br_pool s) ! v)\<lparr>wk_pc := WorkerOffering\<rparr>),
           br_manager := (br_manager s)\<lparr>cm_conflationUnits := (units s)(job_resultReporter j \<mapsto>
             fst (settle (job_resultReporter j) (reported u b err) (br_readyQueue s)))\<rparr>,
           br_readyQueue := snd (settle (job_resultReporter j) (reported u b err) (br_readyQueue s))\<rparr>"
    have "v \<noteq> w" using v o by (auto simp: orphaned_def worker_free_def)
    with o show ?thesis unfolding t by (simp add: orphaned_def worker_free_other held_worker_def)
  qed
next
  case (EvWorkerStop v)
  with p inv show ?thesis
    by (simp add: worker_stop_def bridge_inv_def pool_ok_def Let_def split: if_splits)
next
  case EvDispatcherCancel
  with p o show ?thesis by (auto simp: dispatcher_cancel_def orphaned_def held_worker_def)
qed (use run in simp_all)

lemma orphaned_forever:
  assumes "reachable s t" "bridge_inv s" "orphaned s w"
  shows "orphaned t w"
  using assms
proof (induction rule: reachable.induct)
  case (step t e v)
  have "bridge_inv t" using reachable_from_inv step by blast
  from orphaned_step [OF this step(2,3)] step show ?case by blast
qed

end
