(* ===== verification/Bridge_Properties.thy ===== *)
theory Bridge_Properties
  imports Conflation_Properties Bridge_Steps
begin

text \<open>
  Properties of the running bridge: any interleaving of the transport's insertions, the dispatcher's
  steps and the workers' steps from the state the setup leaves, as long as the worker pool has not
  been stopped. Concrete runs start from the setup's registrations with one worker.
\<close>

section \<open>Concrete runs\<close>

definition bridge0 :: bridge where
  "bridge0 = initial_bridge setup_registrations 1"

definition run_from :: "bridge_event list \<Rightarrow> bridge" where
  "run_from es = (case run_steps perform es bridge0 of Some (Inr s) \<Rightarrow> s | _ \<Rightarrow> bridge0)"

lemma run_from_reachable: "list_all running_event es \<Longrightarrow> reachable bridge0 (run_from es)"
  by (auto simp: run_from_def intro: reachable.start run_reachable split: option.splits sum.splits)

lemma reachable0_inv: "reachable bridge0 s \<Longrightarrow> bridge_inv s"
  using setup_registrations_ok by (auto simp: bridge0_def intro: reachable_inv)

text \<open>Five steps of the dispatcher take a unit to a worker, which then receives the job.\<close>

definition dispatched_run :: "bridge_event list" where
  "dispatched_run = [EvOffer 0, EvInsert (sample_clusters 1) sample_metadata, EvDispatch, EvDispatch,
     EvDispatch, EvDispatch, EvDispatch, EvReceive 0]"

lemma dispatched_running: "list_all running_event dispatched_run"
  by (simp add: dispatched_run_def)

definition sample_job :: db_job where
  "sample_job = \<lparr>job_bundle = Some (sample_clusters 1), job_bundleMetadata = Some 0,
     job_handlerFunc = ManagedClustersHandler, job_resultReporter = ''hub1''\<rparr>"

lemma dispatched_job: "job_at (run_from dispatched_run) (AtWorker 0) = Some sample_job"
  by code_simp

lemma dispatched_pc: "wk_pc (wp_workers (br_pool (run_from dispatched_run)) ! 0) = WorkerRunning sample_job"
  by code_simp

section \<open>Properties\<close>

text \<open>No step of the running bridge panics: whatever bundles arrive, however the steps of the
  transport, the dispatcher and the workers interleave and whatever the handlers return, no index is
  out of range, no nil pointer is read, no closed channel is used and no recursion is endless.\<close>

theorem running_bridge_never_panics:
  assumes "registrations_ok rs" "reachable (initial_bridge rs n) s" "running_event e"
  shows "perform e s \<noteq> Some (Inl p)"
  using running_step_inv [OF reachable_inv [OF assms(2,1)] assms(3)] by auto

lemma running_bridge_never_panics_witness:
  "perform (EvFinish 0 None) (run_from dispatched_run) \<noteq> Some (Inl NilDereference)"
  by (rule running_bridge_never_panics [OF setup_registrations_ok, of 1])
     (use run_from_reachable [OF dispatched_running] in \<open>simp_all add: bridge0_def\<close>)

text \<open>C12: A conflation unit is in one place at a time. It is at most once in the ready queue, and not
  in it while the dispatcher holds it; at most one job of it exists, in the dispatcher's hands or at
  one worker; and while it has a job it is neither in the ready queue nor held.\<close>

theorem unit_in_one_place:
  assumes "registrations_ok rs" "reachable (initial_bridge rs n) s"
  shows "distinct (rq_queue (br_readyQueue s)) \<and>
    (\<forall>cu. held_unit s = Some cu \<longrightarrow> cu \<notin> set (rq_queue (br_readyQueue s))) \<and>
    (\<forall>p q j k. job_at s p = Some j \<longrightarrow> job_at s q = Some k \<longrightarrow>
       job_resultReporter j = job_resultReporter k \<longrightarrow> p = q) \<and>
    (\<forall>p j. job_at s p = Some j \<longrightarrow>
       job_resultReporter j \<notin> set (rq_queue (br_readyQueue s)) \<and>
       held_unit s \<noteq> Some (job_resultReporter j))"
proof -
  have inv: "bridge_inv s" by (rule reachable_inv [OF assms(2,1)])
  then have q: "queue_ok s" and js: "jobs_ok s" by (simp_all add: bridge_inv_def)
  have "\<not> queued_unit s (job_resultReporter j)" if "job_at s p = Some j" for p j
  proof
    assume "queued_unit s (job_resultReporter j)"
    then obtain u where u: "units s (job_resultReporter j) = Some u" "cu_isInReadyQueue u"
      using queue_okD [OF q] by (auto simp: queued_unit_def)
    then have "\<not> busy u" "cu_shape u" using flagged_idle [OF inv] bridge_inv_cu [OF inv] by simp_all
    with jobs_okD [OF js that] u(1) show False using job_ok_busy by (auto simp: good_job_def)
  qed
  with q js show ?thesis
    unfolding queue_ok_def queued_unit_def by (blast intro: jobs_ok_unique)
qed

lemma unit_in_one_place_witness:
  "\<exists>j. job_at (run_from dispatched_run) (AtWorker 0) = Some j \<and>
     job_resultReporter j \<notin> set (rq_queue (br_readyQueue (run_from dispatched_run)))"
  using unit_in_one_place [OF setup_registrations_ok, of 1 "run_from dispatched_run"]
    run_from_reachable [OF dispatched_running] dispatched_job
  by (simp add: bridge0_def)

text \<open>C26: Bundles and metadata that were handed to a worker are not changed by what arrives later.
  While a job exists its metadata has the generation of its bundle, and an insertion of any bundle
  leaves the job and its metadata as they are.\<close>

theorem inflight_metadata_untouched:
  assumes "registrations_ok rs" "reachable (initial_bridge rs n) s"
    and "job_at s p = Some j" "perform (EvInsert b m) s = Some (Inr t)"
  shows "job_at t p = Some j \<and>
    (\<exists>u u' jb r. units s (job_resultReporter j) = Some u \<and> units t (job_resultReporter j) = Some u' \<and>
       job_bundle j = Some jb \<and> job_bundleMetadata j = Some r \<and>
       md_generation (cu_metas u ! r) = GetGeneration jb \<and> cu_metas u' ! r = cu_metas u ! r)"
proof -
  have inv: "bridge_inv s" by (rule reachable_inv [OF assms(2,1)])
  note t = insert_step [OF inv assms(4)]
  have at: "job_at t p = Some j" using assms(3) by (simp add: t)
  have "good_job s j" using inv assms(3) by (auto simp: bridge_inv_def intro: jobs_okD)
  then obtain u jb r where u: "units s (job_resultReporter j) = Some u" "job_bundle j = Some jb"
      "job_bundleMetadata j = Some r" "job_ok u jb r" by (auto simp: good_job_def)
  have core: "cu_core u" using bridge_inv_cu [OF inv u(1)] by simp
  have gen: "md_generation (cu_metas u ! r) = GetGeneration jb"
    using u(4) by (simp add: job_ok_def Let_def metadata_ok_def)
  show ?thesis
  proof (cases "GetLeafHubName b = job_resultReporter j")
    case True
    with u(1) have "unit_of (br_manager s) (GetLeafHubName b) = u" by (simp add: unit_of_def)
    then have "cu_metas (fst (inserted_unit (br_manager s) b m (br_readyQueue s))) ! r = cu_metas u ! r"
      using job_metadata_kept [OF core u(4), of b m] by (simp add: inserted_unit_def Let_def)
    with True at u gen show ?thesis by (simp add: t)
  qed (use at u gen in \<open>simp add: t\<close>)
qed

lemma inflight_metadata_untouched_witness:
  "\<exists>t. perform (EvInsert (sample_clusters 2) sample_metadata) (run_from dispatched_run) = Some (Inr t) \<and>
     job_at t (AtWorker 0) = Some sample_job"
proof -
  have r: "reachable (initial_bridge setup_registrations 1) (run_from dispatched_run)"
    using run_from_reachable [OF dispatched_running] by (simp add: bridge0_def)
  obtain t where t: "perform (EvInsert (sample_clusters 2) sample_metadata) (run_from dispatched_run) =
      Some (Inr t)"
    using perform_insert_inv [OF reachable_inv [OF r setup_registrations_ok]] by blast
  with inflight_metadata_untouched [OF setup_registrations_ok r dispatched_job t] show ?thesis by blast
qed

text \<open>Bundles of one type of one leaf hub are processed in the order of their generations. After a
  job has finished successfully, every later job of the same leaf hub and bundle type has a bundle of
  a strictly newer generation.\<close>

theorem processed_in_generation_order:
  assumes "registrations_ok rs" "reachable (initial_bridge rs n) s"
    and "job_at s (AtWorker w) = Some j" "job_bundle j = Some b"
    and "perform (EvFinish w None) s = Some (Inr t)" "reachable t v"
    and "job_at v p = Some k" "job_bundle k = Some c"
    and "job_resultReporter k = job_resultReporter j" "GetBundleType c = GetBundleType b"
  shows "GetGeneration b < GetGeneration c"
proof -
  have inv: "bridge_inv s" by (rule reachable_inv [OF assms(2,1)])
  obtain u r where u: "units s (job_resultReporter j) = Some u" "job_ok u b r"
    "units t (job_resultReporter j) = Some (fst (settle (job_resultReporter j) (reported u b None)
       (br_readyQueue s)))"
    by (rule finish_step [OF inv assms(5)]) (use assms(3,4) in auto)
  have sh: "cu_shape u" using bridge_inv_cu [OF inv u(1)] by simp
  let ?q = "priority_of u (GetBundleType b)"
  let ?u = "fst (settle (job_resultReporter j) (reported u b None) (br_readyQueue s))"
  have last: "ce_lastProcessedBundleGeneration (slot ?u ?q) = GetGeneration b"
    by (simp add: slot_reported [OF sh] finished_element_def)
  have inv_t: "bridge_inv t" using running_step_inv [OF inv _ assms(5)] by simp
  obtain u' where u': "units v (job_resultReporter j) = Some u'" "unit_grows ?u u'"
    using reachable_unit_grows [OF assms(6) inv_t u(3)] by blast
  have "bridge_inv v" by (rule reachable_from_inv [OF assms(6) inv_t])
  then have "good_job v k" using assms(7) by (auto simp: bridge_inv_def intro: jobs_okD)
  then obtain r' where "job_ok u' c r'" using u'(1) assms(8,9) by (auto simp: good_job_def)
  moreover have "priority_of u' (GetBundleType c) = ?q"
    using u'(2) assms(10) by (simp add: unit_grows_def)
  ultimately have "ce_lastProcessedBundleGeneration (slot u' ?q) < GetGeneration c"
    by (simp add: job_ok_def Let_def)
  moreover have "GetGeneration b \<le> ce_lastProcessedBundleGeneration (slot u' ?q)"
    using u'(2) unfolding unit_grows_def last [symmetric] by blast
  ultimately show ?thesis by simp
qed

definition second_run :: "bridge_event list" where
  "second_run = [EvOffer 0, EvInsert (sample_clusters 2) sample_metadata, EvDispatch, EvDispatch,
     EvDispatch, EvDispatch, EvDispatch, EvReceive 0]"

lemma second_run_result:
  "case run_steps perform (EvFinish 0 None # second_run) (run_from dispatched_run) of
     Some (Inr s) \<Rightarrow> map_option job_bundle (job_at s (AtWorker 0)) = Some (Some (sample_clusters 2)) \<and>
       map_option job_resultReporter (job_at s (AtWorker 0)) = Some ''hub1''
   | _ \<Rightarrow> False"
  by code_simp

lemma processed_in_generation_order_witness:
  "\<exists>v k. run_steps perform (EvFinish 0 None # second_run) (run_from dispatched_run) = Some (Inr v) \<and>
     job_at v (AtWorker 0) = Some k \<and> (1::u64) < 2"
proof -
  have r: "reachable (initial_bridge setup_registrations 1) (run_from dispatched_run)"
    using run_from_reachable [OF dispatched_running] by (simp add: bridge0_def)
  obtain v k where v: "run_steps perform (EvFinish 0 None # second_run) (run_from dispatched_run) =
      Some (Inr v)" "job_at v (AtWorker 0) = Some k" "job_bundle k = Some (sample_clusters 2)"
      "job_resultReporter k = ''hub1''"
    using second_run_result by (auto split: option.splits sum.splits)
  then obtain t where t: "perform (EvFinish 0 None) (run_from dispatched_run) = Some (Inr t)"
      "run_steps perform second_run t = Some (Inr v)"
    by (auto split: option.splits sum.splits)
  have "reachable t v"
    by (rule run_reachable [OF reachable.start _ t(2)]) (simp add: second_run_def)
  from processed_in_generation_order [OF setup_registrations_ok r dispatched_job _ t(1) this v(2,3)]
  have "(1::u64) < 2" using v(4) by (simp add: sample_job_def sample_clusters_def)
  with v show ?thesis by blast
qed

text \<open>C30: A job belongs to one leaf hub and one handler. The bundle of every job comes from the leaf hub
  of the conflation unit the job reports to, and its handler is the one registered for the bundle's
  type.\<close>

theorem jobs_are_isolated:
  assumes "registrations_ok rs" "reachable (initial_bridge rs n) s" "job_at s p = Some j"
  shows "\<exists>b. job_bundle j = Some b \<and> GetLeafHubName b = job_resultReporter j \<and>
    (\<forall>r \<in> set rs. reg_bundleType r = GetBundleType b \<longrightarrow> job_handlerFunc j = reg_handlerFunction r)"
proof -
  have regs: "cm_registrations (br_manager s) = rs"
    using assms(2)
  proof (induction rule: reachable.induct)
    case start
    show ?case by (simp add: initial_bridge_def foldl_Register NewConflationManager_def)
  next
    case (step s e t)
    have "bridge_inv s" by (rule reachable_inv [OF step(1) assms(1)])
    from step_registrations [OF this step(2,3)] step(4) show ?case by simp
  qed
  have "bridge_inv s" by (rule reachable_inv [OF assms(2,1)])
  then have "good_job s j" using assms(3) by (auto simp: bridge_inv_def intro: jobs_okD)
  then show ?thesis using regs by (auto simp: good_job_def)
qed

lemma jobs_are_isolated_witness:
  "\<exists>b. job_bundle sample_job = Some b \<and> GetLeafHubName b = ''hub1''"
  using jobs_are_isolated [OF setup_registrations_ok _ dispatched_job, of 1]
    run_from_reachable [OF dispatched_running]
  by (auto simp: bridge0_def sample_job_def)

text \<open>C32: The dispatcher never waits in \<open>RunAsync\<close>: the worker it has acquired is idle in its select and
  its queue is empty, so the job is accepted at once.\<close>

theorem RunAsync_never_blocks:
  assumes "registrations_ok rs" "reachable (initial_bridge rs n) s"
    and "dp_pc (br_dispatcher s) = DispRun w j"
  shows "\<exists>v pool. w = Some v \<and> worker_free (br_pool s) v \<and>
    RunAsync w j (br_pool s) = Some (Inr pool) \<and> wk_jobsQueue (wp_workers pool ! v) = [j]"
proof -
  have inv: "bridge_inv s" by (rule reachable_inv [OF assms(2,1)])
  obtain pool where pool: "RunAsync w j (br_pool s) = Some (Inr pool)"
    by (rule dispatch_run_inv [OF inv assms(3)]) (rule that)
  have po: "pool_ok s" using inv by (simp add: bridge_inv_def)
  obtain v where v: "w = Some v" using po assms(3) by (cases w) (auto simp: pool_ok_def Let_def)
  have free: "worker_free (br_pool s) v"
    using po assms(3) v by (auto simp: pool_ok_def Let_def held_worker_def)
  with pool v have "wk_jobsQueue (wp_workers pool ! v) = [j]"
    by (auto simp: RunAsync_def worker_free_def Let_def set_worker_nth split: if_splits)
  with v free pool show ?thesis by blast
qed

definition offering_run :: "bridge_event list" where
  "offering_run = [EvOffer 0, EvInsert (sample_clusters 1) sample_metadata, EvDispatch, EvDispatch,
     EvDispatch, EvDispatch]"

lemma offering_pc: "dp_pc (br_dispatcher (run_from offering_run)) = DispRun (Some 0) sample_job"
  by code_simp

lemma RunAsync_never_blocks_witness:
  "\<exists>pool. RunAsync (Some 0) sample_job (br_pool (run_from offering_run)) = Some (Inr pool)"
  using RunAsync_never_blocks [OF setup_registrations_ok _ offering_pc, of 1]
    run_from_reachable [of offering_run]
  by (auto simp: bridge0_def offering_run_def)

text \<open>C31: A wake-up is lost only through an error of \<open>GetNext\<close>. In every run in which the dispatcher gets
  no such error, whenever a bundle of a conflation unit is ready, the unit waits in the ready queue, or the
  dispatcher has it in hand, or a job of the unit is on its way, whose report looks for ready bundles
  again.\<close>

theorem ready_units_wait_their_turn:
  assumes "registrations_ok rs" "error_free (initial_bridge rs n) s"
    and "units s name = Some u" "i < nslots u" "ready u i"
  shows "name \<in> set (rq_queue (br_readyQueue s)) \<or> held_unit s = Some name \<or>
    (\<exists>p j. job_at s p = Some j \<and> job_resultReporter j = name)"
proof -
  have inv: "bridge_inv s" by (rule reachable_inv [OF error_free_reachable [OF assms(2)] assms(1)])
  have inv0: "bridge_inv (initial_bridge rs n)" by (rule reachable_inv [OF reachable.start assms(1)])
  have "\<not> lost s name"
    by (rule error_free_not_lost [OF assms(2) inv0])
       (simp add: lost_def initial_bridge_def foldl_Register NewConflationManager_def)
  then have queued: "queued_unit s name" if "cu_isInReadyQueue u" using that assms(3) by (auto simp: lost_def)
  have "cu_inv u" using inv assms(3) bridge_inv_cu by blast
  then have "cu_isInReadyQueue u \<or> busy u" using assms(4,5) by (auto simp: cu_inv_def cu_woken_def)
  moreover have "\<exists>p j. job_at s p = Some j \<and> job_resultReporter j = name" if "busy u"
    using inv assms(3) that unfolding bridge_inv_def by (blast elim: jobs_ok_busy)
  ultimately show ?thesis using queued by (auto simp: queued_unit_def)
qed

definition inserted_run :: "bridge_event list" where
  "inserted_run = [EvOffer 0, EvInsert (sample_clusters 1) sample_metadata]"

lemma inserted_unit_flag:
  "case units (run_from inserted_run) ''hub1'' of None \<Rightarrow> False
   | Some u \<Rightarrow> element_ready u (slot u 0) = Inr True \<and> nslots u = 4 \<and>
       rq_queue (br_readyQueue (run_from inserted_run)) = [''hub1''] \<and>
       wp_dbWorkers (br_pool (run_from inserted_run)) = [0] \<and>
       dp_pc (br_dispatcher (run_from inserted_run)) = DispSelect \<and>
       \<not> dp_cancelled (br_dispatcher (run_from inserted_run))"
  by code_simp

lemma inserted_run_state:
  obtains u where "reachable (initial_bridge setup_registrations 1) (run_from inserted_run)"
    "units (run_from inserted_run) ''hub1'' = Some u" "0 < nslots u" "ready u 0"
    "rq_queue (br_readyQueue (run_from inserted_run)) = [''hub1'']"
    "wp_dbWorkers (br_pool (run_from inserted_run)) = [0]"
    "dp_pc (br_dispatcher (run_from inserted_run)) = DispSelect"
    "\<not> dp_cancelled (br_dispatcher (run_from inserted_run))"
proof -
  have r: "reachable bridge0 (run_from inserted_run)"
    by (rule run_from_reachable) (simp add: inserted_run_def)
  obtain u where u: "units (run_from inserted_run) ''hub1'' = Some u"
      "element_ready u (slot u 0) = Inr True" "nslots u = 4"
    using inserted_unit_flag by (auto split: option.splits)
  have "cu_shape u" using bridge_inv_cu [OF reachable0_inv [OF r] u(1)] by simp
  with element_ready_eq [of u 0] u have "ready u 0" by simp
  with r u inserted_unit_flag show ?thesis by (intro that [of u]) (simp_all add: bridge0_def)
qed

text \<open>In the witness the only worker is busy with the unit when a bundle of another type arrives.\<close>

definition newer_run :: "bridge_event list" where
  "newer_run = dispatched_run @ [EvInsert (sample_policies 5) sample_metadata]"

lemma newer_run_state:
  "error_free_steps newer_run bridge0 \<and>
   (case run_steps perform newer_run bridge0 of
      Some (Inr s) \<Rightarrow> (case units s ''hub1'' of Some u \<Rightarrow> element_ready u (slot u 1) = Inr True \<and> 1 < nslots u | None \<Rightarrow> False)
    | _ \<Rightarrow> False)"
  by code_simp

lemma ready_units_wait_their_turn_witness:
  "\<exists>u. units (run_from newer_run) ''hub1'' = Some u \<and> ready u 1 \<and>
     (''hub1'' \<in> set (rq_queue (br_readyQueue (run_from newer_run))) \<or>
      held_unit (run_from newer_run) = Some ''hub1'' \<or>
      (\<exists>p j. job_at (run_from newer_run) p = Some j \<and> job_resultReporter j = ''hub1''))"
proof -
  obtain s u where s: "run_steps perform newer_run bridge0 = Some (Inr s)" "units s ''hub1'' = Some u"
      "element_ready u (slot u 1) = Inr True" "1 < nslots u"
    using newer_run_state by (auto split: option.splits sum.splits)
  have free: "error_free bridge0 s"
    by (rule error_free_run [OF error_free_start _ s(1)]) (use newer_run_state in blast)
  have "cu_shape u" using bridge_inv_cu [OF reachable0_inv [OF error_free_reachable [OF free]] s(2)] by simp
  then have ready: "ready u 1" using element_ready_eq [of u 1] s(3,4) by simp
  have run: "run_from newer_run = s" using s(1) by (simp add: run_from_def)
  from ready_units_wait_their_turn [OF setup_registrations_ok free [unfolded bridge0_def] s(2,4) ready] s(2) ready
  show ?thesis unfolding run by blast
qed

text \<open>C13: A ready unit at the head of the ready queue reaches a worker. When the dispatcher is at the
  top of its loop, a worker is available and the first unit of the ready queue has a ready bundle, five
  steps of the dispatcher and one of the worker start the job of that unit at the worker that was first
  in the channel, with a bundle of the lowest ready priority, and the dispatcher is back at the top.\<close>

theorem ready_unit_reaches_worker:
  assumes "registrations_ok rs" "reachable (initial_bridge rs n) s"
    and "dp_pc (br_dispatcher s) = DispSelect" "\<not> dp_cancelled (br_dispatcher s)"
    and "rq_queue (br_readyQueue s) = name # names" "wp_dbWorkers (br_pool s) = w # ws"
    and "units s name = Some u" "i < nslots u" "ready u i"
  shows "\<exists>t j k. run_steps perform (replicate 5 EvDispatch @ [EvReceive w]) s = Some (Inr t) \<and>
    wk_pc (wp_workers (br_pool t) ! w) = WorkerRunning j \<and> job_resultReporter j = name \<and>
    k \<le> i \<and> ready u k \<and> (\<forall>k' < k. \<not> ready u k') \<and> job_bundle j = ce_bundle (slot u k) \<and>
    dp_pc (br_dispatcher t) = DispSelect \<and> rq_queue (br_readyQueue t) = names \<and>
    wp_dbWorkers (br_pool t) = ws"
proof -
  have inv: "bridge_inv s" by (rule reachable_inv [OF assms(2,1)])
  have sh: "cu_shape u" using bridge_inv_cu [OF inv assms(7)] by simp
  have po: "pool_ok s" using inv by (simp add: bridge_inv_def)
  have wf: "worker_free (br_pool s) w" using po assms(6) by (auto simp: pool_ok_def Let_def)
  then have w: "w < length (wp_workers (br_pool s))" "wk_pc (wp_workers (br_pool s) ! w) = WorkerSelect"
      "wk_jobsQueue (wp_workers (br_pool s) ! w) = []" by (simp_all add: worker_free_def)
  have open_queue: "\<not> wk_jobsQueueClosed (wp_workers (br_pool s) ! w)"
    using pool_okD [OF po w(1)] by (simp add: worker_ok_def)
  have five: "replicate 5 EvDispatch @ [EvReceive w] =
      [EvDispatch, EvDispatch, EvDispatch, EvDispatch, EvDispatch, EvReceive w]"
    by (simp add: eval_nat_numeral)
  show ?thesis
  proof (rule GetNext_cases [OF sh])
    assume "\<forall>i < nslots u. \<not> ready u i"
    with assms(8,9) show ?thesis by blast
  next
    fix k
    assume k: "k < nslots u" "ready u k" "\<forall>j < k. \<not> ready u j"
      "GetNext u = Inr (taken u k, Inr \<lparr>nb_bundle = ce_bundle (slot u k),
         nb_metadata = ce_bundleMetadata (slot u k), nb_handlerFunc = ce_handlerFunction (slot u k)\<rparr>)"
    have "k \<le> i" using k(3) assms(9) by (meson not_le)
    moreover obtain b where "ce_bundle (slot u k) = Some b" using k(2) by (auto simp: ready_def)
    ultimately show ?thesis
      unfolding five using assms(3-7) w open_queue k
      by (simp add: dispatch_def goto_def BlockingDequeue_def rq_isEmpty_def Acquire_def with_unit_def
          RunAsync_def jobsQueueCapacity_def worker_receive_def NewDBJob_def set_worker_def Let_def)
        (intro exI [of _ k] conjI; simp)
  qed
qed

lemma ready_unit_reaches_worker_witness:
  "\<exists>t. run_steps perform (replicate 5 EvDispatch @ [EvReceive 0]) (run_from inserted_run) =
      Some (Inr t) \<and> dp_pc (br_dispatcher t) = DispSelect"
proof (rule inserted_run_state)
  fix u
  assume "reachable (initial_bridge setup_registrations 1) (run_from inserted_run)"
    "units (run_from inserted_run) ''hub1'' = Some u" "0 < nslots u" "ready u 0"
    "rq_queue (br_readyQueue (run_from inserted_run)) = [''hub1'']"
    "wp_dbWorkers (br_pool (run_from inserted_run)) = [0]"
    "dp_pc (br_dispatcher (run_from inserted_run)) = DispSelect"
    "\<not> dp_cancelled (br_dispatcher (run_from inserted_run))"
  with ready_unit_reaches_worker [OF setup_registrations_ok, of 1 "run_from inserted_run" "''hub1''" "[]"
      0 "[]" u 0] show ?thesis by blast
qed

section \<open>The error of \<open>GetNext\<close>\<close>

text \<open>
  The steps that lead to it: a compliance bundle whose base generation has been processed is ready and
  its unit is dequeued; before the dispatcher asks for the next bundle, a newer compliance bundle
  replaces it whose base generation has not been processed.
\<close>

definition losing_run :: "bridge_event list" where
  "losing_run =
     [EvOffer 0, EvInsert (sample_policies 1) sample_metadata] @ replicate 5 EvDispatch @
     [EvReceive 0, EvFinish 0 None, EvOffer 0, EvInsert (sample_compliance 1 1) sample_metadata] @
     replicate 3 EvDispatch @ [EvInsert (sample_compliance 5 2) sample_metadata]"

lemma losing_running: "list_all running_event losing_run"
  by (simp add: losing_run_def eval_nat_numeral)

lemma losing_state:
  "dp_pc (br_dispatcher (run_from losing_run)) = DispGetNext ''hub1'' (Some 0)"
  by code_simp

lemma losing_step:
  "case perform EvDispatch (run_from losing_run) of Some (Inr t) \<Rightarrow>
       dp_pc (br_dispatcher t) = DispSelect \<and> job_at t (AtWorker 0) = None
   | _ \<Rightarrow> False"
  by code_simp

text \<open>C14: The error of \<open>GetNext\<close> is not harmless. When the dispatcher holds a unit none of whose bundles
  is ready, its step loses the unit and the worker: in every later state of the running bridge the unit
  is marked as queued without being in the queue, no job of it exists, and the worker that had been
  acquired is idle without being available.\<close>

theorem getnext_error_loses_unit_and_worker:
  assumes "registrations_ok rs" "reachable (initial_bridge rs n) s"
    and "dp_pc (br_dispatcher s) = DispGetNext name (Some w)" "perform EvDispatch s = Some (Inr t)"
    and "dp_pc (br_dispatcher t) = DispSelect" "reachable t v"
  shows "lost v name \<and> orphaned v w \<and>
    (\<forall>p j. job_at v p = Some j \<longrightarrow> job_resultReporter j \<noteq> name \<and> p \<noteq> AtWorker w)"
proof -
  have inv: "bridge_inv s" by (rule reachable_inv [OF assms(2,1)])
  have h: "held_unit s = Some name" using assms(3) by (simp add: held_unit_def)
  have t: "t = goto s DispSelect"
    by (rule getnext_step [OF inv assms(3,4)]) (use assms(5) in simp_all)
  obtain u where u: "units s name = Some u" "cu_isInReadyQueue u"
    using inv h by (auto simp: bridge_inv_def elim: queue_okD)
  have inv_t: "bridge_inv t" using running_step_inv [OF inv _ assms(4)] by simp
  have "lost t name"
    using inv h u by (auto simp: t lost_def queued_unit_def held_unit_def bridge_inv_def queue_ok_def)
  moreover have "orphaned t w"
    using inv assms(3)
    by (auto simp: t orphaned_def held_worker_def bridge_inv_def pool_ok_def Let_def worker_free_def)
  ultimately have v: "lost v name" "orphaned v w" "bridge_inv v"
    using assms(6) inv_t lost_forever orphaned_forever reachable_from_inv by blast+
  have "job_at v (AtWorker w) = None" using v(2)
    by (simp add: orphaned_def worker_free_def job_at_def worker_job_def)
  then show ?thesis using v lost_no_job by fastforce
qed

text \<open>The base generation that arrives later makes the bundle ready, to no avail.\<close>

definition late_base :: bridge_event where
  "late_base = EvInsert (sample_policies 5) sample_metadata"

lemma late_base_ready:
  "case run_steps perform [EvDispatch, late_base] (run_from losing_run) of
     Some (Inr v) \<Rightarrow> (case units v ''hub1'' of Some u \<Rightarrow> element_ready u (slot u 1) = Inr True | None \<Rightarrow> False)
   | _ \<Rightarrow> False"
  by code_simp

lemma getnext_error_loses_unit_and_worker_witness:
  "\<exists>v u. run_steps perform [EvDispatch, late_base] (run_from losing_run) = Some (Inr v) \<and>
     units v ''hub1'' = Some u \<and> element_ready u (slot u 1) = Inr True \<and>
     lost v ''hub1'' \<and> orphaned v 0"
proof -
  have r: "reachable (initial_bridge setup_registrations 1) (run_from losing_run)"
    using run_from_reachable [OF losing_running] by (simp add: bridge0_def)
  obtain t where t: "perform EvDispatch (run_from losing_run) = Some (Inr t)"
      "dp_pc (br_dispatcher t) = DispSelect"
    using losing_step by (auto split: option.splits sum.splits)
  obtain v u where v: "run_steps perform [EvDispatch, late_base] (run_from losing_run) = Some (Inr v)"
      "units v ''hub1'' = Some u" "element_ready u (slot u 1) = Inr True"
    using late_base_ready by (auto split: option.splits sum.splits)
  have rt: "run_steps perform [late_base] t = Some (Inr v)" using v(1) t(1) by simp
  have "reachable t v"
    by (rule run_reachable [OF reachable.start _ rt]) (simp add: late_base_def)
  from getnext_error_loses_unit_and_worker [OF setup_registrations_ok r losing_state t this] v
  show ?thesis by blast
qed

end
