(* ===== verification/Entry_Point.thy ===== *)
theory Entry_Point
  imports Database Setup Bridge_Properties
begin

text \<open>
  The process (\<open>cmd/manager/main.go\<close>): start-up in the order of the code, the wiring of the parts, the
  exit code, and the two deferred calls. The runtime manager is a library: whether each of its calls
  fails, and what the goroutines do until it returns, are arguments. Logging, flags and the metrics
  address are not modelled.
\<close>

section \<open>Start-up\<close>

definition envVarControllerNamespace :: string where
  "envVarControllerNamespace = ''POD_NAMESPACE''"

text \<open>\<open>Stop\<close> of the pool: the context is cancelled, the connections are closed, then the channel.\<close>

definition pool_Stop :: "db_worker_pool \<Rightarrow> db_worker_pool go" where
  "pool_Stop pool = pool_close (pool_stop_db (pool_cancel pool))"

text \<open>\<open>Start\<close> of the pool never returns an error.\<close>

definition startDBWorkerPool ::
  "(string \<rightharpoonup> string) \<Rightarrow> (string \<Rightarrow> go_error + nat) \<Rightarrow> go_error + db_worker_pool" where
  "startDBWorkerPool env connect =
     (case NewDBWorkerPool (NewPostgreSQL env connect) of
        Inl err \<Rightarrow> Inl (''failed to initialize DBWorkerPool - '' @ err)
      | Inr dbWorkerPool \<Rightarrow> Inr (pool_Start dbWorkerPool))"

text \<open>The scheme builders in turn; each returns its error, if any.\<close>

fun AddToScheme :: "go_error option list \<Rightarrow> go_error option" where
  "AddToScheme [] = None"
| "AddToScheme (added # builders) =
     (case added of Some err \<Rightarrow> Some (''failed to add scheme: '' @ err) | None \<Rightarrow> AddToScheme builders)"

text \<open>
  The results of the runtime manager's calls, in the order they are made. \<open>GetConfigOrDie\<close> ends the
  process when there is no configuration; no deferred call runs then.
\<close>

record manager_calls =
  mg_GetConfig :: "go_error option"
  mg_NewManager :: "go_error option"
  mg_AddToScheme :: "go_error option"
  mg_Complete :: "go_error option"
  mg_Add :: "go_error option"

datatype 'a created =
    Died
  | NotCreated go_error
  | Created 'a

definition createManager ::
  "data_types \<Rightarrow> manager_calls \<Rightarrow> (string \<rightharpoonup> string) \<Rightarrow> db_worker_pool \<Rightarrow>
   (string \<times> sync_service \<times> bridge) created" where
  "createManager dt mg env workersPool =
     (if mg_GetConfig mg \<noteq> None then Died
      else case mg_NewManager mg of
        Some err \<Rightarrow> NotCreated (''failed to create a new manager: '' @ err)
      | None \<Rightarrow>
          (case AddToScheme [mg_AddToScheme mg] of
             Some err \<Rightarrow> NotCreated (''failed to add schemes: '' @ err)
           | None \<Rightarrow>
               let conflationReadyQueue = NewConflationReadyQueue;
                   conflationManager = NewConflationManager
               in case NewSyncService env of
                    Inl err \<Rightarrow> NotCreated (''failed to initialize transport: '' @ err)
                  | Inr transportObj \<Rightarrow>
                      (case Setup dt (mg_Complete mg) (mg_Add mg) (transportObj, conflationManager) of
                         Inl err \<Rightarrow> NotCreated (''failed to do initial setup of the manager: '' @ err)
                       | Inr (level, disp, transportObj', conflationManager') \<Rightarrow>
                           Created (level, transportObj',
                             \<lparr>br_dispatcher = disp, br_manager = conflationManager',
                              br_readyQueue = conflationReadyQueue, br_pool = workersPool\<rparr>))))"

text \<open>
  The process as \<open>doMain\<close> sees it: its variables, the calls that start and stop things in the order they
  have been made, and the stack of the deferred calls, the latest first. The pool and the transport are
  shared with the goroutines: while the manager runs, \<open>run\<close> says what becomes of them, and what
  \<open>mgr.Start\<close> returns.
\<close>

datatype main_call =
    StartPool | StartTransport | RunManager | StopTransport | StopPool

record main_state =
  ms_calls :: "main_call list"
  ms_deferred :: "main_call list"
  ms_dbWorkerPool :: "db_worker_pool option"
  ms_transportObj :: "sync_service option"
  ms_bridge :: "bridge option"

definition main_entered :: main_state where
  "main_entered = \<lparr>ms_calls = [], ms_deferred = [], ms_dbWorkerPool = None, ms_transportObj = None, ms_bridge = None\<rparr>"

definition main_defer :: "main_call \<Rightarrow> main_state \<Rightarrow> main_state" where
  "main_defer c m = m\<lparr>ms_deferred := c # ms_deferred m\<rparr>"

definition main_startPool ::
  "(string \<rightharpoonup> string) \<Rightarrow> (string \<Rightarrow> go_error + nat) \<Rightarrow> main_state \<Rightarrow> go_error + db_worker_pool \<times> main_state" where
  "main_startPool env connect m =
     (case startDBWorkerPool env connect of
        Inl err \<Rightarrow> Inl err
      | Inr pool \<Rightarrow> Inr (pool, m\<lparr>ms_calls := ms_calls m @ [StartPool], ms_dbWorkerPool := Some pool\<rparr>))"

definition main_startTransport :: "sync_service \<Rightarrow> main_state \<Rightarrow> main_state" where
  "main_startTransport transportObj m =
     m\<lparr>ms_calls := ms_calls m @ [StartTransport], ms_transportObj := Some (ss_Start transportObj)\<rparr>"

definition main_runManager ::
  "(bridge \<times> sync_service \<Rightarrow> go_error option \<times> bridge \<times> sync_service) \<Rightarrow> bridge \<Rightarrow> main_state \<Rightarrow>
   (go_error option \<times> main_state) go" where
  "main_runManager run s m =
     bind_go (go_deref (ms_transportObj m)) (\<lambda>t.
       case run (s, t) of (result, s', t') \<Rightarrow>
         Inr (result, m\<lparr>ms_calls := ms_calls m @ [RunManager], ms_bridge := Some s',
           ms_dbWorkerPool := Some (br_pool s'), ms_transportObj := Some t'\<rparr>))"

definition main_stopPool :: "main_state \<Rightarrow> main_state go" where
  "main_stopPool m =
     bind_go (go_deref (ms_dbWorkerPool m)) (\<lambda>pool. bind_go (pool_Stop pool) (\<lambda>pool'.
       Inr (m\<lparr>ms_calls := ms_calls m @ [StopPool], ms_dbWorkerPool := Some pool',
              ms_bridge := map_option (\<lambda>s. s\<lparr>br_pool := pool'\<rparr>) (ms_bridge m)\<rparr>)))"

definition main_stopTransport :: "main_state \<Rightarrow> main_state go" where
  "main_stopTransport m =
     bind_go (go_deref (ms_transportObj m)) (\<lambda>t.
       Inr (m\<lparr>ms_calls := ms_calls m @ [StopTransport], ms_transportObj := Some (ss_Stop t)\<rparr>))"

text \<open>The deferred calls run last in, first out, when the function returns.\<close>

fun main_deferred :: "main_call \<Rightarrow> main_state \<Rightarrow> main_state go" where
  "main_deferred StopPool m = main_stopPool m"
| "main_deferred StopTransport m = main_stopTransport m"
| "main_deferred _ m = Inr m"

fun run_deferred :: "main_call list \<Rightarrow> main_state \<Rightarrow> main_state go" where
  "run_deferred [] m = Inr m"
| "run_deferred (c # cs) m = bind_go (main_deferred c m) (run_deferred cs)"

text \<open>The body ends in \<open>return\<close>, or in an exit of the process inside a call, which skips the deferred calls.\<close>

datatype main_exit = ReturnCode nat | ExitedWith nat

definition main_body ::
  "data_types \<Rightarrow> manager_calls \<Rightarrow> (string \<rightharpoonup> string) \<Rightarrow> (string \<Rightarrow> go_error + nat) \<Rightarrow>
   (string \<Rightarrow> bridge \<times> sync_service \<Rightarrow> go_error option \<times> bridge \<times> sync_service) \<Rightarrow>
   main_state \<Rightarrow> (main_exit \<times> main_state) go" where
  "main_body dt mg env connect run m =
     (case env envVarControllerNamespace of
        None \<Rightarrow> Inr (ReturnCode 1, m)
      | Some leaderElectionNamespace \<Rightarrow>
          (case main_startPool env connect m of
             Inl err \<Rightarrow> Inr (ReturnCode 1, m)
           | Inr (dbWorkerPool, m1) \<Rightarrow>
               let m2 = main_defer StopPool m1
               in case createManager dt mg env dbWorkerPool of
                    Died \<Rightarrow> Inr (ExitedWith 1, m2)
                  | NotCreated err \<Rightarrow> Inr (ReturnCode 1, m2)
                  | Created (level, transportObj, s) \<Rightarrow>
                      let m3 = main_defer StopTransport (main_startTransport transportObj m2)
                      in bind_go (main_runManager (run level) s m3) (\<lambda>(result, m4).
                           Inr (ReturnCode (if result \<noteq> None then 1 else 0), m4))))"

definition doMain ::
  "data_types \<Rightarrow> manager_calls \<Rightarrow> (string \<rightharpoonup> string) \<Rightarrow> (string \<Rightarrow> go_error + nat) \<Rightarrow>
   (string \<Rightarrow> bridge \<times> sync_service \<Rightarrow> go_error option \<times> bridge \<times> sync_service) \<Rightarrow>
   (nat \<times> main_state) go" where
  "doMain dt mg env connect run =
     bind_go (main_body dt mg env connect run main_entered) (\<lambda>(exit, m).
       case exit of
         ExitedWith code \<Rightarrow> Inr (code, m)
       | ReturnCode code \<Rightarrow> bind_go (run_deferred (ms_deferred m) m) (\<lambda>m'. Inr (code, m')))"

lemmas main_defs = main_entered_def main_defer_def main_startPool_def main_startTransport_def main_runManager_def
  main_stopPool_def main_stopTransport_def

section \<open>Facts\<close>

lemma startDBWorkerPool_pool:
  assumes "startDBWorkerPool env connect = Inr pool"
  obtains n where "pool = pool_Start \<lparr>wp_workers = [], wp_dbWorkers = [], wp_capacity = n,
    wp_closed = False, wp_cancelled = False, wp_dbClosed = False\<rparr>"
  using assms by (auto simp: startDBWorkerPool_def NewDBWorkerPool_def split: sum.splits)

lemma pool_Start_open: "\<not> wp_closed (pool_Start pool) \<longleftrightarrow> \<not> wp_closed pool"
  by (simp add: pool_Start_def start_workers_eq)

lemma pool_Stop_open:
  "\<not> wp_closed pool \<Longrightarrow> pool_Stop pool = Inr (pool\<lparr>wp_cancelled := True, wp_dbClosed := True, wp_closed := True\<rparr>)"
  by (simp add: pool_Stop_def pool_close_def pool_cancel_def pool_stop_db_def)

lemma createManager_Created:
  assumes "createManager dt mg env pool = Created (level, t, s)"
  obtains t0 where "NewSyncService env = Inr t0" "t = setup_transport dt t0" "level = dt_Full dt"
    "s = \<lparr>br_dispatcher = NewDispatcher, br_manager = foldl Register NewConflationManager setup_registrations,
          br_readyQueue = NewConflationReadyQueue, br_pool = pool\<rparr>"
proof -
  from assms have mg: "mg_GetConfig mg = None" "mg_NewManager mg = None" "mg_AddToScheme mg = None"
    by (auto simp: createManager_def Let_def split: if_splits option.splits sum.splits)
  with assms obtain t0 where t0: "NewSyncService env = Inr t0"
    by (auto simp: createManager_def split: sum.splits)
  from assms mg t0 obtain r where r: "Setup dt (mg_Complete mg) (mg_Add mg) (t0, NewConflationManager) = Inr r"
    by (auto simp: createManager_def split: sum.splits)
  then have "mg_Complete mg = None" "mg_Add mg = None"
    by (auto simp: Setup_def addConfigController_def AddConfigController_def addDispatcher_def split: option.splits)
  with assms mg t0 show ?thesis
    by (intro that [of t0])
       (simp_all add: createManager_def Setup_registrations)
qed

lemma created_bridge:
  assumes "startDBWorkerPool env connect = Inr pool" "createManager dt mg env pool = Created (level, t, s)"
  shows "\<exists>n. s = initial_bridge setup_registrations n"
  by (rule startDBWorkerPool_pool [OF assms(1)], rule createManager_Created [OF assms(2)])
     (auto simp: initial_bridge_def)

text \<open>The manager is created exactly when no call of the library fails and the transport is configured.\<close>

definition calls_succeed :: "manager_calls \<Rightarrow> bool" where
  "calls_succeed mg \<longleftrightarrow> mg_GetConfig mg = None \<and> mg_NewManager mg = None \<and> mg_AddToScheme mg = None \<and>
     mg_Complete mg = None \<and> mg_Add mg = None"

lemma createManager_iff:
  "createManager dt mg env pool = Created c \<longleftrightarrow>
     calls_succeed mg \<and> (\<exists>t0. NewSyncService env = Inr t0 \<and>
       c = (dt_Full dt, setup_transport dt t0,
         \<lparr>br_dispatcher = NewDispatcher, br_manager = foldl Register NewConflationManager setup_registrations,
          br_readyQueue = NewConflationReadyQueue, br_pool = pool\<rparr>))"
  (is "?created \<longleftrightarrow> ?conds")
proof
  obtain level t s where c: "c = (level, t, s)" by (cases c)
  assume created: ?created
  then have mg: "mg_GetConfig mg = None" "mg_NewManager mg = None" "mg_AddToScheme mg = None"
    by (auto simp: createManager_def Let_def split: if_splits option.splits sum.splits)
  obtain t0 where t0: "NewSyncService env = Inr t0" "t = setup_transport dt t0" "level = dt_Full dt"
      "s = \<lparr>br_dispatcher = NewDispatcher, br_manager = foldl Register NewConflationManager setup_registrations,
          br_readyQueue = NewConflationReadyQueue, br_pool = pool\<rparr>"
    by (rule createManager_Created [OF created [unfolded c]])
  from created mg t0(1) obtain r where "Setup dt (mg_Complete mg) (mg_Add mg) (t0, NewConflationManager) = Inr r"
    by (auto simp: createManager_def split: sum.splits)
  then have "mg_Complete mg = None" "mg_Add mg = None"
    by (auto simp: Setup_def addConfigController_def AddConfigController_def addDispatcher_def split: option.splits)
  with mg t0 c show ?conds by (auto simp: calls_succeed_def)
next
  assume ?conds
  then show ?created
    by (auto simp: calls_succeed_def createManager_def Setup_registrations Let_def)
qed

lemma startDBWorkerPool_iff:
  "startDBWorkerPool env connect = Inr pool \<longleftrightarrow>
     (\<exists>url n. env envVarDatabaseURL = Some url \<and> connect url = Inr n \<and>
        pool = br_pool (initial_bridge setup_registrations n))"
  by (auto simp: startDBWorkerPool_def NewDBWorkerPool_def NewPostgreSQL_def initial_bridge_def
      split: sum.splits option.splits)

section \<open>Properties of the process\<close>

text \<open>When the manager is created, the bridge is in its initial state: a pool with as many workers as
  the database has connections, the four registrations, an empty ready queue, the dispatcher at its
  start. The aggregation level is full, and the transport knows exactly the four message ids.\<close>

theorem created_bridge_is_initial:
  assumes "startDBWorkerPool env connect = Inr pool" "createManager dt mg env pool = Created (level, t, s)"
  shows "\<exists>url n. env envVarDatabaseURL = Some url \<and> connect url = Inr n \<and>
    s = initial_bridge setup_registrations n \<and> level = dt_Full dt \<and>
    dom (ss_msgIDToRegistrationMap t) = set (msg_keys dt)"
proof -
  obtain url n where n: "env envVarDatabaseURL = Some url" "connect url = Inr n"
      "pool = pool_Start \<lparr>wp_workers = [], wp_dbWorkers = [], wp_capacity = n,
         wp_closed = False, wp_cancelled = False, wp_dbClosed = False\<rparr>"
    using assms(1) by (auto simp: startDBWorkerPool_def NewDBWorkerPool_def NewPostgreSQL_def
        split: sum.splits option.splits)
  obtain t0 where t: "NewSyncService env = Inr t0" "t = setup_transport dt t0" "level = dt_Full dt"
      "s = \<lparr>br_dispatcher = NewDispatcher, br_manager = foldl Register NewConflationManager setup_registrations,
          br_readyQueue = NewConflationReadyQueue, br_pool = pool\<rparr>"
    by (rule createManager_Created [OF assms(2)])
  have "ss_msgIDToRegistrationMap t0 = Map.empty"
    using t(1) by (auto simp: NewSyncService_def split: sum.splits)
  then have "dom (ss_msgIDToRegistrationMap t) = set (msg_keys dt)"
    unfolding t(2) setup_transport_def syncers_def Let_def ss_Register_def msg_keys_def
    by auto
  with n t(3,4) show ?thesis by (simp add: initial_bridge_def)
qed

definition sample_env :: "string \<rightharpoonup> string" where
  "sample_env = map_of [(''POD_NAMESPACE'', ''hoh''), (''DATABASE_URL'', ''postgres://db''),
     (''SYNC_SERVICE_PROTOCOL'', ''http''), (''SYNC_SERVICE_HOST'', ''sync''), (''SYNC_SERVICE_PORT'', ''8090''),
     (''SYNC_SERVICE_POLLING_INTERVAL'', ''5'')]"

definition sample_types :: data_types where
  "sample_types = \<lparr>dt_ManagedClustersMsgKey = ''ManagedClusters'', dt_ClustersPerPolicyMsgKey = ''ClustersPerPolicy'',
     dt_PolicyComplianceMsgKey = ''PolicyCompliance'', dt_MinimalPolicyComplianceMsgKey = ''MinimalPolicyCompliance'',
     dt_Full = ''full'', dt_Minimal = ''minimal'', dt_HohSystemNamespace = ''hoh-system''\<rparr>"

definition good_calls :: manager_calls where
  "good_calls = \<lparr>mg_GetConfig = None, mg_NewManager = None, mg_AddToScheme = None, mg_Complete = None,
     mg_Add = None\<rparr>"

definition sample_pool :: db_worker_pool where
  "sample_pool = pool_Start \<lparr>wp_workers = [], wp_dbWorkers = [], wp_capacity = 4, wp_closed = False,
     wp_cancelled = False, wp_dbClosed = False\<rparr>"

lemma sample_pool_starts: "startDBWorkerPool sample_env (\<lambda>_. Inr 4) = Inr sample_pool"
  by (simp add: startDBWorkerPool_def NewPostgreSQL_def NewDBWorkerPool_def sample_env_def sample_pool_def
      envVarDatabaseURL_def)

lemma sample_created: "\<exists>t s. createManager sample_types good_calls sample_env sample_pool = Created (''full'', t, s)"
proof -
  have "case NewSyncService sample_env of Inr _ \<Rightarrow> True | _ \<Rightarrow> False" by code_simp
  then obtain t where t: "NewSyncService sample_env = Inr t" by (auto split: sum.splits)
  show ?thesis
    by (simp add: createManager_def good_calls_def t Setup_registrations, simp add: sample_types_def)
qed

lemma created_bridge_is_initial_witness:
  "\<exists>t s. createManager sample_types good_calls sample_env sample_pool = Created (''full'', t, s) \<and>
     s = initial_bridge setup_registrations 4"
proof -
  obtain t s where ts: "createManager sample_types good_calls sample_env sample_pool = Created (''full'', t, s)"
    using sample_created by blast
  from created_bridge_is_initial [OF sample_pool_starts this] ts show ?thesis by auto
qed

text \<open>C20: The process stops what it has started, in the opposite order. If the goroutines take only steps of
  the running bridge while the manager runs, no stop panics. The exit code is 0 exactly when the namespace
  and the database are configured, the database can be reached, no call of the runtime manager fails, the
  transport is configured, and the manager, run on the initial bridge and the started transport, returns
  no error; otherwise it is 1. Every pool and transport that has been started is stopped at the end, the
  transport before the pool, after the manager has returned: the transport is stopped, the pool's context
  is cancelled, its connections and its channel are closed. Only when the library ends the process for want
  of a configuration nothing is stopped.\<close>

theorem main_stops_what_it_started:
  assumes "\<forall>level s t. reachable s (fst (snd (run level (s, t))))"
  shows "\<exists>code m. doMain dt mg env connect run = Inr (code, m) \<and>
    code = (if env envVarControllerNamespace \<noteq> None \<and> calls_succeed mg \<and>
        (\<exists>url n t. env envVarDatabaseURL = Some url \<and> connect url = Inr n \<and> NewSyncService env = Inr t \<and>
          fst (run (dt_Full dt) (initial_bridge setup_registrations n, ss_Start (setup_transport dt t))) = None)
      then 0 else 1) \<and>
    ms_calls m \<in> {[], [StartPool], [StartPool, StopPool],
      [StartPool, StartTransport, RunManager, StopTransport, StopPool]} \<and>
    (code = 0 \<longrightarrow> ms_calls m = [StartPool, StartTransport, RunManager, StopTransport, StopPool]) \<and>
    (ms_calls m = [StartPool] \<longrightarrow> mg_GetConfig mg \<noteq> None) \<and>
    (ms_calls m = [] \<longleftrightarrow> ms_dbWorkerPool m = None) \<and>
    (StartTransport \<in> set (ms_calls m) \<longleftrightarrow> ms_transportObj m \<noteq> None) \<and>
    (\<forall>pool. ms_dbWorkerPool m = Some pool \<longrightarrow> mg_GetConfig mg = None \<longrightarrow>
       wp_cancelled pool \<and> wp_dbClosed pool \<and> wp_closed pool) \<and>
    (\<forall>t. ms_transportObj m = Some t \<longrightarrow> ss_stopped t) \<and>
    (\<forall>s. ms_bridge m = Some s \<longrightarrow> ms_dbWorkerPool m = Some (br_pool s))"
proof (cases "env envVarControllerNamespace = None \<or> (\<exists>err. startDBWorkerPool env connect = Inl err)")
  case True
  then have "doMain dt mg env connect run = Inr (1, main_entered)"
    by (auto simp: doMain_def main_body_def main_defs split: option.splits)
  moreover have "env envVarControllerNamespace \<noteq> None \<Longrightarrow> env envVarDatabaseURL = Some url \<Longrightarrow> connect url \<noteq> Inr n" for url n
    using True startDBWorkerPool_iff [of env connect] by fastforce
  ultimately show ?thesis by (auto simp: main_entered_def)
next
  case False
  then obtain ns pool where ns: "env envVarControllerNamespace = Some ns"
      and pool: "startDBWorkerPool env connect = Inr pool"
    by (metis not_None_eq sum.exhaust)
  obtain url n where n: "env envVarDatabaseURL = Some url" "connect url = Inr n"
      "pool = br_pool (initial_bridge setup_registrations n)"
    using pool startDBWorkerPool_iff by blast
  have open_pool: "\<not> wp_closed pool"
    by (rule startDBWorkerPool_pool [OF pool]) (simp add: pool_Start_open)
  show ?thesis
  proof (cases "createManager dt mg env pool")
    case (Created c)
    then obtain t0 where mg: "calls_succeed mg" and t0: "NewSyncService env = Inr t0"
        and c: "c = (dt_Full dt, setup_transport dt t0, initial_bridge setup_registrations n)"
      unfolding createManager_iff n(3) by (auto simp: initial_bridge_def)
    obtain err s' t' where r: "run (dt_Full dt) (initial_bridge setup_registrations n,
        ss_Start (setup_transport dt t0)) = (err, s', t')" by (metis prod.collapse)
    have "reachable (initial_bridge setup_registrations n) s'" using assms r by (metis fst_conv snd_conv)
    then have "\<not> wp_closed (br_pool s')"
      using reachable_inv [OF _ setup_registrations_ok] by (simp add: bridge_inv_def pool_ok_def Let_def)
    note stop = pool_Stop_open [OF this]
    have "ss_stopped (ss_Stop t')" by (simp add: ss_Stop_def)
    with ns pool Created c r stop mg t0 n(1,2) show ?thesis
      by (simp add: doMain_def main_body_def main_defs)
  next
    case Died
    have "mg_GetConfig mg \<noteq> None"
      using Died by (auto simp: createManager_def Let_def split: if_splits option.splits sum.splits)
    with Died ns pool show ?thesis by (auto simp: doMain_def main_body_def main_defs calls_succeed_def)
  next
    case (NotCreated err)
    have "\<not> (calls_succeed mg \<and> (\<exists>t. NewSyncService env = Inr t))"
      using NotCreated createManager_iff [of dt mg env pool] by auto
    with NotCreated ns pool pool_Stop_open [OF open_pool] show ?thesis
      by (auto simp: doMain_def main_body_def main_defs)
  qed
qed

definition idle_run :: "string \<Rightarrow> bridge \<times> sync_service \<Rightarrow> go_error option \<times> bridge \<times> sync_service" where
  "idle_run level x = (None, x)"

lemma main_stops_what_it_started_witness:
  "\<exists>m pool t. doMain sample_types good_calls sample_env (\<lambda>_. Inr 4) idle_run = Inr (0, m) \<and>
     ms_calls m = [StartPool, StartTransport, RunManager, StopTransport, StopPool] \<and>
     ms_dbWorkerPool m = Some pool \<and> wp_dbClosed pool \<and> ms_transportObj m = Some t \<and> ss_stopped t"
proof -
  have run: "\<forall>level s t. reachable s (fst (snd (idle_run level (s, t))))"
    by (simp add: idle_run_def reachable.start)
  have "case NewSyncService sample_env of Inr _ \<Rightarrow> True | _ \<Rightarrow> False" by code_simp
  then obtain t where t: "NewSyncService sample_env = Inr t" by (auto split: sum.splits)
  have env: "sample_env envVarControllerNamespace = Some ''hoh''" "sample_env envVarDatabaseURL = Some ''postgres://db''"
    by (simp_all add: sample_env_def envVarControllerNamespace_def envVarDatabaseURL_def)
  have calls: "calls_succeed good_calls" "mg_GetConfig good_calls = None"
    by (simp_all add: calls_succeed_def good_calls_def)
  have none: "fst (idle_run level x) = None" for level x by (simp add: idle_run_def)
  from main_stops_what_it_started [OF run, of sample_types good_calls sample_env "\<lambda>_. Inr 4"] show ?thesis
    by (elim exE conjE) (force simp: env t calls none)
qed

section \<open>Stopping while work is in progress\<close>

lemma bridge_inv_open: "bridge_inv s \<Longrightarrow> \<not> wp_closed (br_pool s)"
  by (simp add: bridge_inv_def pool_ok_def Let_def)

definition stopped :: "bridge \<Rightarrow> bridge" where
  "stopped s = s\<lparr>br_pool := (br_pool s)\<lparr>wp_cancelled := True, wp_dbClosed := True, wp_closed := True\<rparr>\<rparr>"

lemma run_stop:
  assumes "bridge_inv s"
  shows "run_steps perform (EvPoolCancel # EvPoolStopDB # EvPoolClose # es) s = run_steps perform es (stopped s)"
  using bridge_inv_open [OF assms] by (simp add: pool_cancel_def pool_stop_db_def pool_close_def stopped_def)

text \<open>C24: \<open>Stop\<close> does not wait for the workers. If the pool is stopped while a worker runs a job, the
  process panics when the worker is done: it offers itself on the channel that has been closed.\<close>

theorem stop_during_job_panics:
  assumes "registrations_ok rs" "reachable (initial_bridge rs n) s"
    and "job_at s (AtWorker w) = Some j" "wk_pc (wp_workers (br_pool s) ! w) = WorkerRunning j"
  shows "run_steps perform [EvPoolCancel, EvPoolStopDB, EvPoolClose, EvFinish w err, EvOffer w] s =
    Some (Inl SendOnClosedChannel)"
proof -
  have inv: "bridge_inv s" by (rule reachable_inv [OF assms(2,1)])
  have w: "w < length (wp_workers (br_pool s))" using assms(3) by (simp add: job_at_def split: if_splits)
  obtain r where r: "perform (EvFinish w err) s = Some r" using w assms(4) by (simp add: worker_finish_def)
  obtain t where t: "perform (EvFinish w err) s = Some (Inr t)"
    using running_step_inv [OF inv _ r] r by auto
  obtain cm rq where f: "with_unit (job_resultReporter j) (\<lambda>cu. ReportResult (job_resultReporter j)
      (job_bundleMetadata j) err (cu, br_readyQueue s)) (br_manager s) = Inr (cm, rq)"
    using t w assms(4) by (auto simp: worker_finish_def bind_go_eq_Inr)
  have "perform (EvFinish w err) (stopped s) =
      Some (Inr ((stopped s)\<lparr>br_pool := set_worker (br_pool (stopped s)) w
        ((wp_workers (br_pool s) ! w)\<lparr>wk_pc := WorkerOffering\<rparr>), br_manager := cm, br_readyQueue := rq\<rparr>))"
    using w assms(4) f by (simp add: worker_finish_def stopped_def)
  then show ?thesis
    unfolding run_stop [OF inv] using w by (simp add: worker_offer_def set_worker_nth stopped_def del: perform.simps(5))
qed

lemma stop_during_job_panics_witness:
  "run_steps perform [EvPoolCancel, EvPoolStopDB, EvPoolClose, EvFinish 0 None, EvOffer 0] (run_from dispatched_run) =
     Some (Inl SendOnClosedChannel)"
  by (rule stop_during_job_panics [OF setup_registrations_ok _ dispatched_job dispatched_pc, of 1])
     (use run_from_reachable [OF dispatched_running] in \<open>simp add: bridge0_def\<close>)

text \<open>C25: Nor does \<open>Stop\<close> wait for the dispatcher. If the pool is stopped while the dispatcher holds a
  unit with a ready bundle and waits for a worker, the closed channel gives it a nil worker, and running
  the job on it panics.\<close>

theorem stop_during_acquire_panics:
  assumes "registrations_ok rs" "reachable (initial_bridge rs n) s"
    and "dp_pc (br_dispatcher s) = DispAcquire name" "wp_dbWorkers (br_pool s) = []"
    and "units s name = Some u" "i < nslots u" "ready u i"
  shows "run_steps perform [EvPoolCancel, EvPoolStopDB, EvPoolClose, EvDispatch, EvDispatch, EvDispatch] s =
    Some (Inl NilDereference)"
proof -
  have inv: "bridge_inv s" by (rule reachable_inv [OF assms(2,1)])
  have sh: "cu_shape u" using bridge_inv_cu [OF inv assms(5)] by simp
  show ?thesis
  proof (cases rule: GetNext_cases [OF sh])
    case 1
    with assms(6,7) show ?thesis by blast
  next
    case (2 k)
    then show ?thesis
      unfolding run_stop [OF inv] using assms(3-5)
      by (simp add: dispatch_def stopped_def Acquire_def goto_def with_unit_def RunAsync_def NewDBJob_def)
  qed
qed

text \<open>The only worker is busy with the first bundle when a bundle of another leaf hub is dispatched.\<close>

definition waiting_run :: "bridge_event list" where
  "waiting_run = dispatched_run @
     [EvInsert (ManagedClustersStatusBundle \<lparr>mcb_Objects = [], mcb_LeafHubName = ''hub2'', mcb_Generation = 1\<rparr>)
        sample_metadata, EvDispatch, EvDispatch]"

lemma waiting_state:
  "dp_pc (br_dispatcher (run_from waiting_run)) = DispAcquire ''hub2''"
  "wp_dbWorkers (br_pool (run_from waiting_run)) = []"
  "case units (run_from waiting_run) ''hub2'' of Some u \<Rightarrow> 0 < nslots u \<and> element_ready u (slot u 0) = Inr True
     | None \<Rightarrow> False"
  by code_simp+

lemma stop_during_acquire_panics_witness:
  "run_steps perform [EvPoolCancel, EvPoolStopDB, EvPoolClose, EvDispatch, EvDispatch, EvDispatch] (run_from waiting_run) =
     Some (Inl NilDereference)"
proof -
  have r: "reachable (initial_bridge setup_registrations 1) (run_from waiting_run)"
    using run_from_reachable [of waiting_run] dispatched_running by (simp add: bridge0_def waiting_run_def)
  obtain u where u: "units (run_from waiting_run) ''hub2'' = Some u" "0 < nslots u"
      "element_ready u (slot u 0) = Inr True"
    using waiting_state(3) by (auto split: option.splits)
  have "cu_shape u"
    using bridge_inv_cu [OF reachable_inv [OF r setup_registrations_ok] u(1)] by simp
  then have "ready u 0" using element_ready_eq [of u 0] u(2,3) by simp
  from stop_during_acquire_panics [OF setup_registrations_ok r waiting_state(1,2) u(1,2) this] show ?thesis .
qed

end
