(* ===== verification/Clusters_Syncer.thy ===== *)
theory Clusters_Syncer
  imports Database
begin

text \<open>
  The managed clusters syncer (\<open>pkg/dbsyncer/clusters_transport_to_db_syncer.go\<close>): the handler of a
  bundle reads the clusters of the leaf hub from the database, puts the difference to the bundle in a
  batch and sends it. The database client is the interface \<open>db.ManagedClustersStatusDB\<close> as a record;
  \<open>clusters_db\<close> is the PostgreSQL client on a connection pool.
\<close>

section \<open>The interface to the database\<close>

record ('d, 'b, 'q) managed_clusters_status_db =
  cdb_GetManagedClustersByLeafHub ::
    "string \<Rightarrow> string \<Rightarrow> string \<Rightarrow> 'd \<Rightarrow> go_error + (string \<times> string) list"
  cdb_NewManagedClustersBatchBuilder :: "string \<Rightarrow> string \<Rightarrow> string \<Rightarrow> 'b"
  cdb_Insert :: "managed_cluster \<Rightarrow> string \<Rightarrow> 'b \<Rightarrow> 'b go"
  cdb_Update :: "string \<Rightarrow> managed_cluster \<Rightarrow> 'b \<Rightarrow> 'b go"
  cdb_Delete :: "string \<Rightarrow> 'b \<Rightarrow> 'b go"
  cdb_Build :: "'b \<Rightarrow> 'q go"
  cdb_SendBatch :: "'q \<Rightarrow> 'd \<Rightarrow> go_error option \<times> 'd"

definition clusters_db ::
  "'d pg_conn \<Rightarrow> ('d, base_batch_builder, batch_value) managed_clusters_status_db" where
  "clusters_db conn =
     \<lparr>cdb_GetManagedClustersByLeafHub = GetManagedClustersByLeafHub conn,
      cdb_NewManagedClustersBatchBuilder = NewManagedClustersBatchBuilder,
      cdb_Insert = mc_Insert, cdb_Update = mc_Update, cdb_Delete = mc_Delete,
      cdb_Build = (\<lambda>b. bind_go (mc_Build b) (\<lambda>q. Inr (PgxBatch q))),
      cdb_SendBatch = SendBatch conn\<rparr>"

section \<open>The handler\<close>

text \<open>
  One object of the bundle: an object of another type is skipped, a nil cluster panics when its name
  is read, a cluster found in the database is taken out of the map.
\<close>

definition handle_cluster_object ::
  "(managed_cluster \<Rightarrow> string \<Rightarrow> 'b \<Rightarrow> 'b go) \<Rightarrow> (string \<Rightarrow> managed_cluster \<Rightarrow> 'b \<Rightarrow> 'b go) \<Rightarrow>
   'b \<times> (string \<times> string) list \<Rightarrow> bundle_object \<Rightarrow> ('b \<times> (string \<times> string) list) go" where
  "handle_cluster_object insertRow updateRow = (\<lambda>(b, clustersFromDB) object.
     case object of
       ObjManagedCluster pointer \<Rightarrow>
         bind_go (go_deref pointer) (\<lambda>cluster.
           case map_of clustersFromDB (mc_name cluster) of
             None \<Rightarrow> bind_go (insertRow cluster ErrorNone b) (\<lambda>b'. Inr (b', clustersFromDB))
           | Some resourceVersionFromDB \<Rightarrow>
               (let remaining = AList.delete (mc_name cluster) clustersFromDB
                in if mc_resourceVersion cluster = resourceVersionFromDB then Inr (b, remaining)
                   else bind_go (updateRow (mc_name cluster) cluster b) (\<lambda>b'. Inr (b', remaining))))
     | _ \<Rightarrow> Inr (b, clustersFromDB))"

text \<open>
  Between its two calls of the database the handler works on the bundle and on the map it has read:
  the batch it is going to send.
\<close>

definition managed_clusters_batch ::
  "('d, 'b, 'q) managed_clusters_status_db \<Rightarrow> ((string \<times> string) list \<Rightarrow> (string \<times> string) list) \<Rightarrow>
   status_bundle \<Rightarrow> (string \<times> string) list \<Rightarrow> 'q go" where
  "managed_clusters_batch db rng bundle clustersFromDB =
     bind_go (fold_go (handle_cluster_object (cdb_Insert db) (cdb_Update db))
         (cdb_NewManagedClustersBatchBuilder db StatusSchema ManagedClustersTable (GetLeafHubName bundle),
          clustersFromDB)
         (GetObjects bundle)) (\<lambda>(b, remaining).
     bind_go (fold_go (\<lambda>b (clusterName, _). cdb_Delete db clusterName b) b (go_range rng remaining))
       (\<lambda>b'. cdb_Build db b'))"

definition handleManagedClustersBundle ::
  "('d, 'b, 'q) managed_clusters_status_db \<Rightarrow> ((string \<times> string) list \<Rightarrow> (string \<times> string) list) \<Rightarrow>
   status_bundle \<Rightarrow> 'd \<Rightarrow> (go_error option \<times> 'd) go" where
  "handleManagedClustersBundle db rng bundle d =
     (case cdb_GetManagedClustersByLeafHub db StatusSchema ManagedClustersTable (GetLeafHubName bundle) d of
        Inl err \<Rightarrow> Inr (Some (''failed fetching leaf hub managed clusters from db - '' @ err), d)
      | Inr clustersFromDB \<Rightarrow>
          bind_go (managed_clusters_batch db rng bundle clustersFromDB) (\<lambda>q.
            case cdb_SendBatch db q d of
              (Some err, d') \<Rightarrow> Inr (Some (''failed to perform batch - '' @ err), d')
            | (None, d') \<Rightarrow> Inr (None, d')))"

section \<open>The difference, once for every builder\<close>

abbreviation ObjCluster :: "managed_cluster \<Rightarrow> bundle_object" where
  "ObjCluster c \<equiv> ObjManagedCluster (Some c)"

text \<open>What changes for the clusters of a bundle against the versions in the database.\<close>

definition new_clusters :: "(string \<times> string) list \<Rightarrow> managed_cluster list \<Rightarrow> (managed_cluster \<times> string) list" where
  "new_clusters m cs = map (\<lambda>c. (c, ErrorNone)) (filter (\<lambda>c. map_of m (mc_name c) = None) cs)"

definition changed_clusters :: "(string \<times> string) list \<Rightarrow> managed_cluster list \<Rightarrow> (string \<times> managed_cluster) list" where
  "changed_clusters m cs = map (\<lambda>c. (mc_name c, c))
     (filter (\<lambda>c. \<exists>v. map_of m (mc_name c) = Some v \<and> v \<noteq> mc_resourceVersion c) cs)"

definition gone_clusters :: "(string \<times> string) list \<Rightarrow> managed_cluster list \<Rightarrow> (string \<times> string) list" where
  "gone_clusters m cs = filter (\<lambda>(n, _). n \<notin> mc_name ` set cs) m"

lemma map_of_delete_other: "n \<noteq> k \<Longrightarrow> map_of (AList.delete k m) n = map_of m n"
  by (simp add: delete_conv')

lemma diff_delete:
  assumes "n \<notin> mc_name ` set cs"
  shows "new_clusters (AList.delete n m) cs = new_clusters m cs"
    and "changed_clusters (AList.delete n m) cs = changed_clusters m cs"
    and "gone_clusters (AList.delete n m) cs = filter (\<lambda>(k, _). k \<noteq> n \<and> k \<notin> mc_name ` set cs) m"
proof -
  have "map_of (AList.delete n m) (mc_name c) = map_of m (mc_name c)" if "c \<in> set cs" for c
    using that assms by (intro map_of_delete_other) auto
  then show "new_clusters (AList.delete n m) cs = new_clusters m cs"
    and "changed_clusters (AList.delete n m) cs = changed_clusters m cs"
    by (simp_all add: new_clusters_def changed_clusters_def cong: filter_cong)
  show "gone_clusters (AList.delete n m) cs = filter (\<lambda>(k, _). k \<noteq> n \<and> k \<notin> mc_name ` set cs) m"
    by (auto simp: gone_clusters_def AList.delete_eq filter_filter intro!: filter_cong)
qed

context managed_clusters_batch_builder
begin

lemma objects_diff:
  assumes "holds b c" "distinct (map mc_name cs)"
  shows "\<exists>b'. fold_go (handle_cluster_object Insert Update) (b, m) (map ObjCluster cs) =
      Inr (b', gone_clusters m cs) \<and>
    holds b' (c\<lparr>cc_inserted := cc_inserted c @ new_clusters m cs,
                cc_updated := cc_updated c @ changed_clusters m cs\<rparr>)"
  using assms
proof (induction cs arbitrary: b c m)
  case Nil
  then show ?case
    by (simp add: new_clusters_def changed_clusters_def gone_clusters_def case_prod_beta)
next
  case (Cons cl cs)
  have d: "distinct (map mc_name cs)" "mc_name cl \<notin> mc_name ` set cs" using Cons.prems(2) by auto
  show ?case
  proof (cases "map_of m (mc_name cl)")
    case None
    then have "\<forall>(n, v) \<in> set m. n \<noteq> mc_name cl" by (force simp: map_of_eq_None_iff)
    then have g: "gone_clusters m (cl # cs) = gone_clusters m cs"
      by (auto simp: gone_clusters_def intro!: filter_cong)
    obtain b1 where b1: "Insert cl ErrorNone b = Inr b1"
        "holds b1 (c\<lparr>cc_inserted := cc_inserted c @ [(cl, ErrorNone)]\<rparr>)"
      using insert [OF Cons.prems(1)] by blast
    from Cons.IH [OF b1(2) d(1), of m] b1(1) None g show ?thesis
      by (simp add: handle_cluster_object_def new_clusters_def changed_clusters_def)
  next
    case (Some v)
    let ?m = "AList.delete (mc_name cl) m"
    have g: "gone_clusters m (cl # cs) = filter (\<lambda>(k, _). k \<noteq> mc_name cl \<and> k \<notin> mc_name ` set cs) m"
      by (auto simp: gone_clusters_def intro!: filter_cong)
    note dd = diff_delete [OF d(2), of m]
    show ?thesis
    proof (cases "mc_resourceVersion cl = v")
      case True
      with Cons.IH [OF Cons.prems(1) d(1), of ?m] Some show ?thesis
        unfolding dd g by (simp add: handle_cluster_object_def new_clusters_def changed_clusters_def)
    next
      case False
      obtain b1 where b1: "Update (mc_name cl) cl b = Inr b1"
          "holds b1 (c\<lparr>cc_updated := cc_updated c @ [(mc_name cl, cl)]\<rparr>)"
        using update [OF Cons.prems(1)] by blast
      from Cons.IH [OF b1(2) d(1), of ?m] b1(1) Some False show ?thesis
        unfolding dd g by (simp add: handle_cluster_object_def new_clusters_def changed_clusters_def)
    qed
  qed
qed

text \<open>Whatever the clusters are, they are put into the builder one by one, up to a nil one.\<close>

lemma object_returns:
  assumes "holds b c"
  shows "\<exists>b' m' c'. handle_cluster_object Insert Update (b, m) (ObjCluster cl) = Inr (b', m') \<and> holds b' c'"
proof (cases "map_of m (mc_name cl)")
  case None
  with insert [OF assms, of cl ErrorNone] show ?thesis by (auto simp: handle_cluster_object_def)
next
  case (Some v)
  with update [OF assms, of "mc_name cl" cl] assms show ?thesis by (auto simp: handle_cluster_object_def Let_def)
qed

lemma objects_return:
  "holds b c \<Longrightarrow>
     \<exists>b' m' c'. fold_go (handle_cluster_object Insert Update) (b, m) (map ObjCluster cs) = Inr (b', m') \<and> holds b' c'"
proof (induction cs arbitrary: b c m)
  case (Cons cl cs)
  obtain b1 m1 c1 where 1: "handle_cluster_object Insert Update (b, m) (ObjCluster cl) = Inr (b1, m1)" "holds b1 c1"
    using object_returns [OF Cons.prems] by blast
  from Cons.IH [OF 1(2), of m1] 1(1) show ?case by simp
qed auto

lemma nil_object_panics:
  "holds b c \<Longrightarrow> None \<in> set objs \<Longrightarrow>
     fold_go (handle_cluster_object Insert Update) (b, m) (map ObjManagedCluster objs) = Inl NilDereference"
proof (induction objs arbitrary: b c m)
  case (Cons x objs)
  show ?case
  proof (cases x)
    case None
    then show ?thesis by (simp add: handle_cluster_object_def)
  next
    case (Some cl)
    obtain b1 m1 c1 where 1: "handle_cluster_object Insert Update (b, m) (ObjCluster cl) = Inr (b1, m1)" "holds b1 c1"
      using object_returns [OF Cons.prems(1)] by blast
    from Cons.IH [OF 1(2), of m1] 1(1) Cons.prems(2) Some show ?thesis by simp
  qed
qed simp

text \<open>The batch of a handler run carries exactly the difference.\<close>

lemma bundle_diff:
  assumes "holds b no_cluster_changes" "distinct (map mc_name cs)"
  shows "\<exists>b' b'' q. fold_go (handle_cluster_object Insert Update) (b, m) (map ObjCluster cs) =
      Inr (b', gone_clusters m cs) \<and>
    fold_go (\<lambda>b (n, _). Delete n b) b' (go_range rng (gone_clusters m cs)) = Inr b'' \<and>
    Build b'' = Inr q \<and>
    carries q \<lparr>cc_inserted = new_clusters m cs, cc_updated = changed_clusters m cs,
               cc_deleted = map fst (go_range rng (gone_clusters m cs))\<rparr>"
proof -
  obtain b' where b': "fold_go (handle_cluster_object Insert Update) (b, m) (map ObjCluster cs) =
      Inr (b', gone_clusters m cs)"
    "holds b' (no_cluster_changes\<lparr>cc_inserted := cc_inserted no_cluster_changes @ new_clusters m cs,
       cc_updated := cc_updated no_cluster_changes @ changed_clusters m cs\<rparr>)"
    using objects_diff [OF assms] by blast
  let ?gone = "go_range rng (gone_clusters m cs)"
  have eq: "fold_go (\<lambda>b (n, _). Delete n b) b' ?gone = fold_go (\<lambda>b k. Delete k b) b' (map fst ?gone)"
    by (simp add: fold_go_map case_prod_unfold)
  obtain b'' where b'': "fold_go (\<lambda>b k. Delete k b) b' (map fst ?gone) = Inr b''"
    "holds b'' \<lparr>cc_inserted = new_clusters m cs, cc_updated = changed_clusters m cs,
       cc_deleted = map fst ?gone\<rparr>"
    using delete_all [OF b'(2), of "map fst ?gone"] by (auto simp: no_cluster_changes_def)
  obtain q where "Build b'' = Inr q" "carries q \<lparr>cc_inserted = new_clusters m cs,
      cc_updated = changed_clusters m cs, cc_deleted = map fst ?gone\<rparr>"
    using build [OF b''(2)] by blast
  with b'(1) b''(1) eq show ?thesis by metis
qed

end

end
