(* ===== verification/Clusters_Table.thy ===== *)
theory Clusters_Table
  imports Clusters_Syncer
begin

text \<open>
  The table of managed clusters: what the statements of a batch mean for its rows, what is assumed of
  the database that holds it, and the meaning of a batch whose statements carry given row changes,
  whatever the statements' sizes and order.
\<close>

section \<open>Rows and statements\<close>

record cluster_row =
  cr_leafHub :: string
  cr_cluster :: managed_cluster
  cr_error :: string

type_synonym cluster_stmt = "(managed_cluster \<times> string, string \<times> managed_cluster, unit) stmt"

fun exec_cluster_stmt :: "string \<Rightarrow> cluster_stmt \<Rightarrow> cluster_row list \<Rightarrow> cluster_row list" where
  "exec_cluster_stmt lh (SInsert rows) t =
     t @ map (\<lambda>(c, e). \<lparr>cr_leafHub = lh, cr_cluster = c, cr_error = e\<rparr>) rows"
| "exec_cluster_stmt lh (SUpdate rows) t =
     map (\<lambda>r. if cr_leafHub r = lh
              then (case map_of rows (mc_name (cr_cluster r)) of
                      None \<Rightarrow> r | Some c \<Rightarrow> r\<lparr>cr_cluster := c\<rparr>)
              else r) t"
| "exec_cluster_stmt lh (SDelete keys) t =
     filter (\<lambda>r. \<not> (cr_leafHub r = lh \<and> mc_name (cr_cluster r) \<in> set keys)) t"
| "exec_cluster_stmt lh (SExtra _) t = t"

definition exec_cluster_stmts :: "string \<Rightarrow> cluster_stmt list \<Rightarrow> cluster_row list \<Rightarrow> cluster_row list" where
  "exec_cluster_stmts lh ss t = foldl (\<lambda>t s. exec_cluster_stmt lh s t) t ss"

definition cluster_rows :: "string \<Rightarrow> string \<Rightarrow> cluster_row list \<Rightarrow> cluster_row list" where
  "cluster_rows lh n t = filter (\<lambda>r. cr_leafHub r = lh \<and> mc_name (cr_cluster r) = n) t"

definition other_hubs :: "string \<Rightarrow> cluster_row list \<Rightarrow> cluster_row list" where
  "other_hubs lh t = filter (\<lambda>r. cr_leafHub r \<noteq> lh) t"

text \<open>
  The database: the query returns name and version of the leaf hub's rows, in order; a batch of
  statements takes effect as a whole when all of them succeed and not at all otherwise (the driver
  sends it as one implicit transaction).
\<close>

definition clusters_table_laws :: "'d pg_conn \<Rightarrow> ('d \<Rightarrow> cluster_row list) \<Rightarrow> bool" where
  "clusters_table_laws conn tbl \<longleftrightarrow>
     (\<forall>lh d. rows_scans (fst (conn_Query conn (managed_clusters_query StatusSchema ManagedClustersTable)
          [ArgString lh] d)) =
        map (\<lambda>r. Inr [mc_name (cr_cluster r), mc_resourceVersion (cr_cluster r)])
          (filter (\<lambda>r. cr_leafHub r = lh) (tbl d))) \<and>
     (\<forall>lh ss d results d'.
        conn_SendBatch conn (map (render (mc_layout StatusSchema ManagedClustersTable lh)) ss) d =
          (results, d') \<longrightarrow>
        tbl d' = (if \<forall>i < length ss. results i = None then exec_cluster_stmts lh ss (tbl d) else tbl d))"

section \<open>The effect on the rows of one name\<close>

text \<open>An update never renames a cluster.\<close>

definition keeps_names :: "cluster_stmt list \<Rightarrow> bool" where
  "keeps_names ss \<longleftrightarrow> (\<forall>(n, c) \<in> set (updated_rows ss). mc_name c = n)"

lemma exec_simps [simp]:
  "exec_cluster_stmts lh [] t = t"
  "exec_cluster_stmts lh (s # ss) t = exec_cluster_stmts lh ss (exec_cluster_stmt lh s t)"
  by (simp_all add: exec_cluster_stmts_def)

lemma keeps_names_Cons:
  "keeps_names (s # ss) \<longleftrightarrow> (\<forall>rows. s = SUpdate rows \<longrightarrow> (\<forall>(n, c) \<in> set rows. mc_name c = n)) \<and> keeps_names ss"
  by (cases s) (auto simp: keeps_names_def)

lemma other_hubs_exec: "other_hubs lh (exec_cluster_stmts lh ss t) = other_hubs lh t"
proof (induction ss arbitrary: t)
  case (Cons s ss)
  have "other_hubs lh (exec_cluster_stmt lh s t) = other_hubs lh t"
  proof (cases s)
    case (SUpdate rows)
    then show ?thesis
      by (induction t) (auto simp: other_hubs_def split: option.splits)
  next
    case (SInsert rows)
    then show ?thesis by (auto simp: other_hubs_def filter_empty_conv)
  next
    case (SDelete keys)
    then show ?thesis by (auto simp: other_hubs_def filter_filter intro!: filter_cong)
  qed simp
  with Cons show ?case by simp
qed simp

lemma cluster_rows_insert:
  "cluster_rows lh n (exec_cluster_stmt lh (SInsert rows) t) =
     cluster_rows lh n t @
     map (\<lambda>(c, e). \<lparr>cr_leafHub = lh, cr_cluster = c, cr_error = e\<rparr>)
       (filter (\<lambda>(c, e). mc_name c = n) rows)"
  by (induction rows) (auto simp: cluster_rows_def)

lemma cluster_rows_update:
  assumes "\<forall>(n, c) \<in> set rows. mc_name c = n"
  shows "cluster_rows lh n (exec_cluster_stmt lh (SUpdate rows) t) =
    map (\<lambda>r. case map_of rows n of None \<Rightarrow> r | Some c \<Rightarrow> r\<lparr>cr_cluster := c\<rparr>) (cluster_rows lh n t)"
proof -
  have "mc_name c = k" if "map_of rows k = Some c" for k c
    using map_of_SomeD [OF that] assms by auto
  then show ?thesis by (induction t) (auto simp: cluster_rows_def split: option.splits)
qed

lemma cluster_rows_delete:
  "cluster_rows lh n (exec_cluster_stmt lh (SDelete keys) t) =
     (if n \<in> set keys then [] else cluster_rows lh n t)"
  by (induction t) (auto simp: cluster_rows_def)

declare exec_cluster_stmt.simps [simp del]

lemmas cluster_rows_exec = cluster_rows_insert cluster_rows_update cluster_rows_delete
  exec_cluster_stmt.simps(4)

lemma not_inserted: "n \<notin> (mc_name \<circ> fst) ` set rows \<Longrightarrow> filter (\<lambda>(c, e). mc_name c = n) rows = []"
  by (induction rows) auto

text \<open>A name that is only inserted, only updated, or only deleted.\<close>

lemma exec_inserted:
  assumes "n \<notin> fst ` set (updated_rows ss)" "n \<notin> set (deleted_keys ss)" "keeps_names ss"
  shows "cluster_rows lh n (exec_cluster_stmts lh ss t) = cluster_rows lh n t @
    map (\<lambda>(c, e). \<lparr>cr_leafHub = lh, cr_cluster = c, cr_error = e\<rparr>)
      (filter (\<lambda>(c, e). mc_name c = n) (inserted_rows ss))"
  using assms
proof (induction ss arbitrary: t)
  case (Cons s ss)
  show ?case
  proof (cases s)
    case (SUpdate rows)
    then have "map_of rows n = None" using Cons.prems(1) by (auto simp: map_of_eq_None_iff)
    with Cons SUpdate show ?thesis by (simp add: cluster_rows_exec keeps_names_Cons image_Un)
  qed (use Cons in \<open>simp_all add: cluster_rows_exec keeps_names_Cons\<close>)
qed simp

lemma map_of_append_disjoint:
  "n \<notin> fst ` set xs \<or> n \<notin> fst ` set ys \<Longrightarrow>
     map_of (xs @ ys) n = (case map_of xs n of None \<Rightarrow> map_of ys n | Some c \<Rightarrow> Some c)"
  by (auto simp: map_add_def map_of_eq_None_iff split: option.splits)

lemma exec_updated:
  assumes "n \<notin> (mc_name \<circ> fst) ` set (inserted_rows ss)" "n \<notin> set (deleted_keys ss)" "keeps_names ss"
    and "distinct (map fst (updated_rows ss))"
  shows "cluster_rows lh n (exec_cluster_stmts lh ss t) =
    map (\<lambda>r. case map_of (updated_rows ss) n of None \<Rightarrow> r | Some c \<Rightarrow> r\<lparr>cr_cluster := c\<rparr>)
      (cluster_rows lh n t)"
  using assms
proof (induction ss arbitrary: t)
  case (Cons s ss)
  show ?case
  proof (cases s)
    case (SInsert rows)
    then have "filter (\<lambda>(c, e). mc_name c = n) rows = []"
      using Cons.prems(1) by (intro not_inserted) (simp add: image_Un)
    with Cons SInsert show ?thesis by (simp add: cluster_rows_exec keeps_names_Cons image_Un)
  next
    case (SUpdate rows)
    have disj: "n \<notin> fst ` set rows \<or> n \<notin> fst ` set (updated_rows ss)"
      using Cons.prems(4) SUpdate by auto
    have "cluster_rows lh n (exec_cluster_stmts lh ss (exec_cluster_stmt lh s t)) =
        map (\<lambda>r. case map_of (updated_rows ss) n of None \<Rightarrow> r | Some c \<Rightarrow> r\<lparr>cr_cluster := c\<rparr>)
          (cluster_rows lh n (exec_cluster_stmt lh s t))"
      using Cons.prems SUpdate by (intro Cons.IH) (simp_all add: keeps_names_Cons)
    also have "cluster_rows lh n (exec_cluster_stmt lh s t) =
        map (\<lambda>r. case map_of rows n of None \<Rightarrow> r | Some c \<Rightarrow> r\<lparr>cr_cluster := c\<rparr>) (cluster_rows lh n t)"
      using Cons.prems(3) SUpdate by (simp add: cluster_rows_update keeps_names_Cons)
    finally have eq: "cluster_rows lh n (exec_cluster_stmts lh (s # ss) t) =
        map (\<lambda>r. case map_of (updated_rows ss) n of None \<Rightarrow> r | Some c \<Rightarrow> r\<lparr>cr_cluster := c\<rparr>)
          (map (\<lambda>r. case map_of rows n of None \<Rightarrow> r | Some c \<Rightarrow> r\<lparr>cr_cluster := c\<rparr>) (cluster_rows lh n t))"
      by simp
    have up: "updated_rows (s # ss) = rows @ updated_rows ss" using SUpdate by simp
    show ?thesis
    proof (cases "map_of rows n")
      case None
      then show ?thesis unfolding eq up map_of_append_disjoint [OF disj] by simp
    next
      case (Some c)
      then have "n \<in> fst ` set rows" by (force dest: map_of_SomeD)
      with disj have "map_of (updated_rows ss) n = None" by (simp add: map_of_eq_None_iff)
      with Some show ?thesis unfolding eq up map_of_append_disjoint [OF disj] by simp
    qed
  qed (use Cons in \<open>simp_all add: cluster_rows_exec keeps_names_Cons\<close>)
qed (simp add: map_idI)

lemma exec_none_inserted:
  assumes "n \<notin> (mc_name \<circ> fst) ` set (inserted_rows ss)" "keeps_names ss" "cluster_rows lh n t = []"
  shows "cluster_rows lh n (exec_cluster_stmts lh ss t) = []"
  using assms
proof (induction ss arbitrary: t)
  case (Cons s ss)
  have "cluster_rows lh n (exec_cluster_stmt lh s t) = []"
  proof (cases s)
    case (SInsert rows)
    then have "filter (\<lambda>(c, e). mc_name c = n) rows = []"
      using Cons.prems(1) by (intro not_inserted) (simp add: image_Un)
    with SInsert Cons.prems(3) show ?thesis by (simp add: cluster_rows_exec)
  qed (use Cons.prems in \<open>simp_all add: cluster_rows_exec keeps_names_Cons\<close>)
  moreover have "n \<notin> (mc_name \<circ> fst) ` set (inserted_rows ss)"
    using Cons.prems(1) by (simp add: image_Un)
  ultimately show ?case using Cons by (simp add: keeps_names_Cons)
qed simp

lemma exec_deleted:
  assumes "n \<notin> (mc_name \<circ> fst) ` set (inserted_rows ss)" "keeps_names ss" "n \<in> set (deleted_keys ss)"
  shows "cluster_rows lh n (exec_cluster_stmts lh ss t) = []"
  using assms
proof (induction ss arbitrary: t)
  case (Cons s ss)
  have rest: "n \<notin> (mc_name \<circ> fst) ` set (inserted_rows ss)" "keeps_names ss"
    using Cons.prems by (auto simp: keeps_names_Cons)
  show ?case
  proof (cases "n \<in> set (deleted_keys ss)")
    case True
    with Cons.IH [OF rest] show ?thesis by simp
  next
    case False
    with Cons.prems(3) obtain keys where "s = SDelete keys" "n \<in> set keys"
      by (cases s) auto
    then have "cluster_rows lh n (exec_cluster_stmt lh s t) = []" by (simp add: cluster_rows_exec)
    with exec_none_inserted [OF rest] show ?thesis by simp
  qed
qed simp

section \<open>The query\<close>

text \<open>The map read from the database has the version of the last row of each name.\<close>

lemma query_result:
  assumes "clusters_table_laws conn tbl"
  shows "\<exists>m. GetManagedClustersByLeafHub conn StatusSchema ManagedClustersTable lh d = Inr m \<and>
    distinct (map fst m) \<and>
    (\<forall>n. map_of m n = (if cluster_rows lh n (tbl d) = [] then None
       else Some (mc_resourceVersion (cr_cluster (last (cluster_rows lh n (tbl d)))))))"
proof -
  let ?f = "\<lambda>m r. AList.update (mc_name (cr_cluster r)) (mc_resourceVersion (cr_cluster r)) m"
  define rows where "rows = filter (\<lambda>r. cr_leafHub r = lh) (tbl d)"
  have "GetManagedClustersByLeafHub conn StatusSchema ManagedClustersTable lh d =
      Inr (foldl ?f [] rows)"
  proof -
    have "fold_err (\<lambda>result scan.
        case (case scan of Inr [clusterName, resourceVersion] \<Rightarrow> Inr (clusterName, resourceVersion)
              | Inr _ \<Rightarrow> Inl errScan | Inl err \<Rightarrow> Inl err) of
          Inl err \<Rightarrow> Inl (e err)
        | Inr (clusterName, resourceVersion) \<Rightarrow> Inr (AList.update clusterName resourceVersion result))
        m (map (\<lambda>r. Inr [mc_name (cr_cluster r), mc_resourceVersion (cr_cluster r)]) rows) =
      Inr (foldl ?f m rows)" for e m
      by (induction rows arbitrary: m) simp_all
    then show ?thesis
      using assms
      by (simp add: GetManagedClustersByLeafHub_def clusters_table_laws_def Let_def case_prod_beta rows_def)
  qed
  moreover
  have dist: "distinct (map fst (foldl ?f m xs))" if "distinct (map fst m)" for m xs
    using that by (induction xs arbitrary: m) (simp_all add: distinct_update)
  have "distinct (map fst (foldl ?f [] rows))" by (rule dist) simp
  moreover have "map_of (foldl ?f [] rows) n = (if cluster_rows lh n (tbl d) = [] then None
       else Some (mc_resourceVersion (cr_cluster (last (cluster_rows lh n (tbl d))))))" for n
  proof -
    have "map_of (foldl ?f [] rows) n = (if filter (\<lambda>r. mc_name (cr_cluster r) = n) rows = [] then None
       else Some (mc_resourceVersion (cr_cluster (last (filter (\<lambda>r. mc_name (cr_cluster r) = n) rows)))))"
      by (induction rows rule: rev_induct) (auto simp: update_conv')
    moreover have "filter (\<lambda>r. mc_name (cr_cluster r) = n) rows = cluster_rows lh n (tbl d)"
      by (auto simp: rows_def cluster_rows_def filter_filter intro!: filter_cong)
    ultimately show ?thesis by simp
  qed
  ultimately show ?thesis by (intro exI [of _ "foldl ?f [] rows"]) simp
qed

section \<open>A handler run on the table\<close>

text \<open>The table after a run: every cluster of the bundle, at its version, and no other row of the hub.\<close>

definition synced ::
  "string \<Rightarrow> managed_cluster list \<Rightarrow> cluster_row list \<Rightarrow> cluster_row list \<Rightarrow> bool" where
  "synced lh cs t t' \<longleftrightarrow>
     (\<forall>c \<in> set cs. \<exists>r. cluster_rows lh (mc_name c) t' = [r] \<and>
        mc_resourceVersion (cr_cluster r) = mc_resourceVersion c \<and>
        (cr_cluster r = c \<or> cluster_rows lh (mc_name c) t = [r])) \<and>
     (\<forall>n. n \<notin> mc_name ` set cs \<longrightarrow> cluster_rows lh n t' = []) \<and>
     other_hubs lh t' = other_hubs lh t"

lemma map_of_changed:
  assumes "distinct (map mc_name cs)" "c \<in> set cs"
  shows "map_of (changed_clusters m cs) (mc_name c) =
    (case map_of m (mc_name c) of None \<Rightarrow> None
     | Some v \<Rightarrow> if v = mc_resourceVersion c then None else Some c)"
  using assms
proof (induction cs)
  case (Cons d cs)
  show ?case
  proof (cases "mc_name d = mc_name c")
    case True
    then have "d = c" using Cons.prems by (auto simp: image_iff)
    moreover have "map_of (changed_clusters m cs) (mc_name c) = None"
      using Cons.prems True by (auto simp: changed_clusters_def map_of_eq_None_iff)
    ultimately show ?thesis by (auto simp: changed_clusters_def split: option.splits)
  next
    case False
    with Cons show ?thesis by (auto simp: changed_clusters_def)
  qed
qed simp

lemma filter_new:
  assumes "distinct (map mc_name cs)" "c \<in> set cs"
  shows "filter (\<lambda>(c', e). mc_name c' = mc_name c) (new_clusters m cs) =
    (if map_of m (mc_name c) = None then [(c, ErrorNone)] else [])"
  using assms
proof (induction cs)
  case (Cons d cs)
  show ?case
  proof (cases "mc_name d = mc_name c")
    case True
    then have "d = c" using Cons.prems by (auto simp: image_iff)
    moreover have "filter (\<lambda>(c', e). mc_name c' = mc_name c) (new_clusters m cs) = []"
      using Cons.prems True by (auto simp: new_clusters_def filter_empty_conv image_iff)
    ultimately show ?thesis by (simp add: new_clusters_def)
  next
    case False
    with Cons show ?thesis by (auto simp: new_clusters_def)
  qed
qed simp

text \<open>Executing statements that carry the difference gives a synced table.\<close>

lemma exec_diff_synced:
  assumes cs: "distinct (map mc_name cs)" and m: "distinct (map fst m)"
    and ver: "\<And>n. map_of m n = (if cluster_rows lh n t = [] then None
       else Some (mc_resourceVersion (cr_cluster (last (cluster_rows lh n t)))))"
    and one: "\<And>n. length (cluster_rows lh n t) \<le> 1"
    and ss: "inserted_rows ss = new_clusters m cs" "updated_rows ss = changed_clusters m cs"
      "deleted_keys ss = map fst (go_range rng (gone_clusters m cs))"
  shows "synced lh cs t (exec_cluster_stmts lh ss t)"
proof -
  have keeps: "keeps_names ss" by (auto simp: keeps_names_def ss changed_clusters_def)
  have del: "n \<in> set (deleted_keys ss) \<longleftrightarrow> map_of m n \<noteq> None \<and> n \<notin> mc_name ` set cs" for n
    by (force simp: ss gone_clusters_def map_of_eq_None_iff)
  have ins: "n \<in> (mc_name \<circ> fst) ` set (inserted_rows ss) \<longleftrightarrow> map_of m n = None \<and> n \<in> mc_name ` set cs" for n
    by (force simp: ss new_clusters_def)
  have upd: "n \<in> fst ` set (updated_rows ss) \<longrightarrow> map_of m n \<noteq> None \<and> n \<in> mc_name ` set cs" for n
    by (force simp: ss changed_clusters_def)
  have dupd: "distinct (map fst (updated_rows ss))"
    using cs by (simp add: ss changed_clusters_def comp_def distinct_map_filter)
  have "\<exists>r. cluster_rows lh (mc_name c) (exec_cluster_stmts lh ss t) = [r] \<and>
      mc_resourceVersion (cr_cluster r) = mc_resourceVersion c \<and>
      (cr_cluster r = c \<or> cluster_rows lh (mc_name c) t = [r])" if c: "c \<in> set cs" for c
  proof (cases "map_of m (mc_name c)")
    case None
    have "mc_name c \<notin> fst ` set (updated_rows ss)" "mc_name c \<notin> set (deleted_keys ss)"
      using None del [of "mc_name c"] upd [of "mc_name c"] by auto
    from exec_inserted [OF this keeps, of lh t] None ver [of "mc_name c"] show ?thesis
      by (simp add: ss(1) filter_new [OF cs c] split: if_splits)
  next
    case (Some v)
    have out: "mc_name c \<notin> (mc_name \<circ> fst) ` set (inserted_rows ss)" "mc_name c \<notin> set (deleted_keys ss)"
      using Some del ins c by auto
    obtain r where r: "cluster_rows lh (mc_name c) t = [r]"
      using one [of "mc_name c"] Some ver [of "mc_name c"]
      by (cases "cluster_rows lh (mc_name c) t") (auto split: if_splits)
    with Some ver [of "mc_name c"] have v: "v = mc_resourceVersion (cr_cluster r)" by simp
    show ?thesis
      using exec_updated [OF out keeps dupd, of lh t] Some r v
      by (simp add: ss(2) map_of_changed [OF cs c])
  qed
  moreover have "cluster_rows lh n (exec_cluster_stmts lh ss t) = []" if "n \<notin> mc_name ` set cs" for n
  proof -
    have i: "n \<notin> (mc_name \<circ> fst) ` set (inserted_rows ss)" using that ins by blast
    show ?thesis
    proof (cases "n \<in> set (deleted_keys ss)")
      case True
      show ?thesis by (rule exec_deleted [OF i keeps True])
    next
      case False
      with that del ver [of n] have "cluster_rows lh n t = []" by (auto split: if_splits)
      then show ?thesis by (rule exec_none_inserted [OF i keeps])
    qed
  qed
  ultimately show ?thesis by (simp add: synced_def other_hubs_exec)
qed

text \<open>The batch of a handler run: statements that carry the difference between map and bundle.\<close>

lemma managed_clusters_batch_statements:
  assumes b: "mcb_Objects b = map Some cs" "distinct (map mc_name cs)"
  obtains ss where "managed_clusters_batch (clusters_db conn) rng (ManagedClustersStatusBundle b) m =
      Inr (PgxBatch (map (render (mc_layout StatusSchema ManagedClustersTable (mcb_LeafHubName b))) ss))"
    "inserted_rows ss = new_clusters m cs" "updated_rows ss = changed_clusters m cs"
    "deleted_keys ss = map fst (go_range rng (gone_clusters m cs))"
proof -
  let ?lh = "mcb_LeafHubName b"
  obtain b' b'' q where q:
    "fold_go (handle_cluster_object mc_Insert mc_Update)
       (NewManagedClustersBatchBuilder StatusSchema ManagedClustersTable ?lh, m) (map ObjCluster cs) =
       Inr (b', gone_clusters m cs)"
    "fold_go (\<lambda>b (n, _). mc_Delete n b) b' (go_range rng (gone_clusters m cs)) = Inr b''"
    "mc_Build b'' = Inr q"
    "mc_carries StatusSchema ManagedClustersTable ?lh q
       \<lparr>cc_inserted = new_clusters m cs, cc_updated = changed_clusters m cs,
        cc_deleted = map fst (go_range rng (gone_clusters m cs))\<rparr>"
    using mc.bundle_diff [OF mc_holds_new b(2)] by blast
  obtain ss where ss: "q = map (render (mc_layout StatusSchema ManagedClustersTable ?lh)) ss"
      "inserted_rows ss = new_clusters m cs" "updated_rows ss = changed_clusters m cs"
      "deleted_keys ss = map fst (go_range rng (gone_clusters m cs))"
    using q(4) by (auto simp: mc_carries_def cluster_changes_of_def)
  have obj: "GetObjects (ManagedClustersStatusBundle b) = map ObjCluster cs" by (simp add: b(1))
  have "managed_clusters_batch (clusters_db conn) rng (ManagedClustersStatusBundle b) m = Inr (PgxBatch q)"
    using q(1-3) unfolding managed_clusters_batch_def obj by (simp add: clusters_db_def)
  with ss show ?thesis using that by blast
qed

lemma send_cluster_batch:
  assumes laws: "clusters_table_laws conn tbl"
    and sb: "SendBatch conn (PgxBatch (map (render (mc_layout StatusSchema ManagedClustersTable lh)) ss)) d = (err, d')"
  shows "tbl d' = (if err = None then exec_cluster_stmts lh ss (tbl d) else tbl d)"
proof (cases "ss = []")
  case False
  let ?q = "map (render (mc_layout StatusSchema ManagedClustersTable lh)) ss"
  obtain results d'' where cs: "conn_SendBatch conn ?q d = (results, d'')" by fastforce
  then have "tbl d'' = (if \<forall>i < length ss. results i = None then exec_cluster_stmts lh ss (tbl d) else tbl d)"
    using laws unfolding clusters_table_laws_def by blast
  moreover have "?q \<noteq> []" "length ?q = length ss" using False by simp_all
  ultimately show ?thesis using SendBatch_cases [OF _ cs] sb by (auto split: if_splits)
qed (use sb in auto)

lemma handler_syncs:
  assumes laws: "clusters_table_laws conn tbl"
    and b: "mcb_Objects b = map Some cs" "distinct (map mc_name cs)"
    and one: "\<And>n. length (cluster_rows (mcb_LeafHubName b) n (tbl d)) \<le> 1"
  shows "\<exists>err d'. handleManagedClustersBundle (clusters_db conn) rng (ManagedClustersStatusBundle b) d =
      Inr (err, d') \<and>
    (if err = None then synced (mcb_LeafHubName b) cs (tbl d) (tbl d') else tbl d' = tbl d)"
proof -
  let ?lh = "mcb_LeafHubName b"
  obtain m where m: "GetManagedClustersByLeafHub conn StatusSchema ManagedClustersTable ?lh d = Inr m"
      "distinct (map fst m)"
      "\<And>n. map_of m n = (if cluster_rows ?lh n (tbl d) = [] then None
         else Some (mc_resourceVersion (cr_cluster (last (cluster_rows ?lh n (tbl d))))))"
    using query_result [OF laws, of ?lh d] by blast
  obtain ss where ss: "managed_clusters_batch (clusters_db conn) rng (ManagedClustersStatusBundle b) m =
      Inr (PgxBatch (map (render (mc_layout StatusSchema ManagedClustersTable ?lh)) ss))"
    "inserted_rows ss = new_clusters m cs" "updated_rows ss = changed_clusters m cs"
    "deleted_keys ss = map fst (go_range rng (gone_clusters m cs))"
    by (rule managed_clusters_batch_statements [OF b])
  obtain err d' where sb: "SendBatch conn (PgxBatch (map (render (mc_layout StatusSchema ManagedClustersTable ?lh)) ss)) d =
      (err, d')" by fastforce
  have "handleManagedClustersBundle (clusters_db conn) rng (ManagedClustersStatusBundle b) d =
      Inr (map_option (\<lambda>e. ''failed to perform batch - '' @ e) err, d')"
    using m(1) ss(1) sb by (simp add: handleManagedClustersBundle_def clusters_db_def split: option.split)
  with exec_diff_synced [OF b(2) m(2,3) one ss(2-4)] send_cluster_batch [OF laws sb] show ?thesis
    by (cases err) auto
qed

end
