(* ===== verification/Policies_Syncer.thy ===== *)
theory Policies_Syncer
  imports Database
begin

text \<open>
  The policies syncer (\<open>pkg/dbsyncer/policies_transport_to_db_syncer.go\<close>): the handlers of the bundles
  of clusters per policy, of compliance status and of minimal compliance status. The database client is
  the record of the interfaces \<open>db.PoliciesStatusDB\<close> and \<open>db.AggregatedPoliciesStatusDB\<close>;
  \<open>policies_db\<close> is the PostgreSQL client on a connection pool. Sets are those of the set library.
\<close>

section \<open>The interface to the database\<close>

record ('d, 'set, 'b, 'q) policies_status_db =
  pdb_GetComplianceStatusByLeafHub ::
    "string \<Rightarrow> string \<Rightarrow> string \<Rightarrow> 'd \<Rightarrow> go_error + (string \<times> 'set) list"
  pdb_GetNonCompliantClustersByLeafHub ::
    "string \<Rightarrow> string \<Rightarrow> string \<Rightarrow> 'd \<Rightarrow> go_error + (string \<times> 'set non_compliant_cluster_sets) list"
  pdb_NewPoliciesBatchBuilder :: "string \<Rightarrow> string \<Rightarrow> string \<Rightarrow> 'b"
  pdb_Insert :: "string \<Rightarrow> string \<Rightarrow> string \<Rightarrow> string \<Rightarrow> 'b \<Rightarrow> 'b go"
  pdb_UpdatePolicyCompliance :: "string \<Rightarrow> string \<Rightarrow> 'b \<Rightarrow> 'b go"
  pdb_UpdateClusterCompliance :: "string \<Rightarrow> string \<Rightarrow> string \<Rightarrow> 'b \<Rightarrow> 'b go"
  pdb_DeletePolicy :: "string \<Rightarrow> 'b \<Rightarrow> 'b go"
  pdb_DeleteClusterStatus :: "string \<Rightarrow> string \<Rightarrow> 'b \<Rightarrow> 'b go"
  pdb_Build :: "'b \<Rightarrow> 'q go"
  pdb_SendBatch :: "'q \<Rightarrow> 'd \<Rightarrow> go_error option \<times> 'd"

record ('d, 'set) aggregated_policies_status_db =
  adb_GetPolicyIDsByLeafHub :: "string \<Rightarrow> string \<Rightarrow> string \<Rightarrow> 'd \<Rightarrow> go_error + 'set"
  adb_InsertOrUpdateAggregatedPolicyCompliance ::
    "string \<Rightarrow> string \<Rightarrow> string \<Rightarrow> string \<Rightarrow> int \<Rightarrow> int \<Rightarrow> 'd \<Rightarrow> go_error option \<times> 'd"
  adb_DeleteAllComplianceRows ::
    "string \<Rightarrow> string \<Rightarrow> string \<Rightarrow> string \<Rightarrow> 'd \<Rightarrow> go_error option \<times> 'd"

definition policies_db ::
  "'d pg_conn \<Rightarrow> 'set go_sets \<Rightarrow> ((string \<times> db_arg list) list \<Rightarrow> (string \<times> db_arg list) list) \<Rightarrow>
   ('d, 'set, policies_batch_builder, batch_value) policies_status_db" where
  "policies_db conn S rng =
     \<lparr>pdb_GetComplianceStatusByLeafHub = GetComplianceStatusByLeafHub conn S,
      pdb_GetNonCompliantClustersByLeafHub = GetNonCompliantClustersByLeafHub conn S,
      pdb_NewPoliciesBatchBuilder = NewPoliciesBatchBuilder,
      pdb_Insert = pb_Insert, pdb_UpdatePolicyCompliance = pb_UpdatePolicyCompliance,
      pdb_UpdateClusterCompliance = pb_UpdateClusterCompliance, pdb_DeletePolicy = pb_DeletePolicy,
      pdb_DeleteClusterStatus = pb_DeleteClusterStatus,
      pdb_Build = (\<lambda>b. bind_go (pb_Build rng b) (\<lambda>q. Inr (PgxBatch q))),
      pdb_SendBatch = SendBatch conn\<rparr>"

definition aggregated_db ::
  "'d pg_conn \<Rightarrow> 'set go_sets \<Rightarrow> ('d, 'set) aggregated_policies_status_db" where
  "aggregated_db conn S =
     \<lparr>adb_GetPolicyIDsByLeafHub = GetPolicyIDsByLeafHub conn S,
      adb_InsertOrUpdateAggregatedPolicyCompliance = InsertOrUpdateAggregatedPolicyCompliance conn,
      adb_DeleteAllComplianceRows = DeleteAllComplianceRows conn\<rparr>"

section \<open>Clusters per policy\<close>

definition handleClusterPerPolicy ::
  "'set go_sets \<Rightarrow> (string \<Rightarrow> string \<Rightarrow> string \<Rightarrow> string \<Rightarrow> 'b \<Rightarrow> 'b go) \<Rightarrow>
   (string \<Rightarrow> string \<Rightarrow> 'b \<Rightarrow> 'b go) \<Rightarrow> clusters_per_policy \<Rightarrow> 'set \<Rightarrow> 'b \<Rightarrow> 'b go" where
  "handleClusterPerPolicy S insertRow deleteCluster clustersFromBundle clustersFromDB0 b0 =
     bind_go (fold_go (\<lambda>(b, clustersFromDB) clusterName.
         if \<not> set_Contains S clustersFromDB clusterName
         then bind_go (insertRow (cpp_PolicyID clustersFromBundle) clusterName ErrorNone Unknown b)
                (\<lambda>b'. Inr (b', clustersFromDB))
         else Inr (b, set_Remove S clustersFromDB clusterName))
       (b0, clustersFromDB0) (cpp_Clusters clustersFromBundle)) (\<lambda>(b1, clustersFromDB).
     fold_go (\<lambda>b clusterName. deleteCluster (cpp_PolicyID clustersFromBundle) clusterName b)
       b1 (set_ToSlice S clustersFromDB))"

definition handle_policy_object ::
  "'set go_sets \<Rightarrow> (string \<Rightarrow> string \<Rightarrow> string \<Rightarrow> string \<Rightarrow> 'b \<Rightarrow> 'b go) \<Rightarrow>
   (string \<Rightarrow> string \<Rightarrow> 'b \<Rightarrow> 'b go) \<Rightarrow> 'b \<times> (string \<times> 'set) list \<Rightarrow> bundle_object \<Rightarrow>
   ('b \<times> (string \<times> 'set) list) go" where
  "handle_policy_object S insertRow deleteCluster = (\<lambda>(b, complianceRowsFromDB) object.
     case object of
       ObjClustersPerPolicy pointer \<Rightarrow>
         bind_go (go_deref pointer) (\<lambda>clustersPerPolicy.
           let clustersFromDB = (case map_of complianceRowsFromDB (cpp_PolicyID clustersPerPolicy) of
                 None \<Rightarrow> set_NewSet S | Some found \<Rightarrow> found)
           in bind_go (handleClusterPerPolicy S insertRow deleteCluster clustersPerPolicy clustersFromDB b)
                (\<lambda>b'. Inr (b', AList.delete (cpp_PolicyID clustersPerPolicy) complianceRowsFromDB)))
     | _ \<Rightarrow> Inr (b, complianceRowsFromDB))"

text \<open>The end of the handlers that use a batch: \<open>Build\<close>, then \<open>SendBatch\<close>.\<close>

definition send_built ::
  "('b \<Rightarrow> 'q go) \<Rightarrow> ('q \<Rightarrow> 'd \<Rightarrow> go_error option \<times> 'd) \<Rightarrow> 'b \<Rightarrow> 'd \<Rightarrow> (go_error option \<times> 'd) go" where
  "send_built build send b d =
     bind_go (build b) (\<lambda>q.
       case send q d of
         (Some err, d') \<Rightarrow> Inr (Some (''failed to perform batch - '' @ err), d')
       | (None, d') \<Rightarrow> Inr (None, d'))"

definition compliance_fetch_error :: "string \<Rightarrow> go_error \<Rightarrow> go_error" where
  "compliance_fetch_error leafHubName err =
     ''failed fetching leaf hub '' @ quoted leafHubName @ '' compliance status rows from db - '' @ err"

text \<open>The rows the batch is to change, before it is built.\<close>

definition clusters_per_policy_rows ::
  "('d, 'set, 'b, 'q) policies_status_db \<Rightarrow> 'set go_sets \<Rightarrow>
   ((string \<times> 'set) list \<Rightarrow> (string \<times> 'set) list) \<Rightarrow> status_bundle \<Rightarrow> string \<Rightarrow> string \<Rightarrow>
   (string \<times> 'set) list \<Rightarrow> 'b go" where
  "clusters_per_policy_rows db S rng bundle dbSchema dbTableName complianceRowsFromDB =
     bind_go (fold_go (handle_policy_object S (pdb_Insert db) (pdb_DeleteClusterStatus db))
         (pdb_NewPoliciesBatchBuilder db dbSchema dbTableName (GetLeafHubName bundle), complianceRowsFromDB)
         (GetObjects bundle)) (\<lambda>(b, remaining).
     fold_go (\<lambda>b (policyID, _). pdb_DeletePolicy db policyID b) b (go_range rng remaining))"

definition handleClustersPerPolicyBundle ::
  "('d, 'set, 'b, 'q) policies_status_db \<Rightarrow> 'set go_sets \<Rightarrow>
   ((string \<times> 'set) list \<Rightarrow> (string \<times> 'set) list) \<Rightarrow> status_bundle \<Rightarrow> string \<Rightarrow> string \<Rightarrow> 'd \<Rightarrow>
   (go_error option \<times> 'd) go" where
  "handleClustersPerPolicyBundle db S rng bundle dbSchema dbTableName d =
     (let leafHubName = GetLeafHubName bundle
      in case pdb_GetComplianceStatusByLeafHub db dbSchema dbTableName leafHubName d of
           Inl err \<Rightarrow> Inr (Some (compliance_fetch_error leafHubName err), d)
         | Inr complianceRowsFromDB \<Rightarrow>
             bind_go (clusters_per_policy_rows db S rng bundle dbSchema dbTableName complianceRowsFromDB)
               (\<lambda>b. send_built (pdb_Build db) (pdb_SendBatch db) b d))"

section \<open>Compliance status\<close>

text \<open>The two loops over the reported clusters differ in the set compared with and the state written.\<close>

definition update_reported ::
  "'set go_sets \<Rightarrow> (string \<Rightarrow> string \<Rightarrow> string \<Rightarrow> 'b \<Rightarrow> 'b go) \<Rightarrow> string \<Rightarrow> 'set \<Rightarrow> string \<Rightarrow>
   'b \<times> 'set \<Rightarrow> string list \<Rightarrow> ('b \<times> 'set) go" where
  "update_reported S updateCluster policyID fromDB compliance =
     fold_go (\<lambda>(b, clustersFromDB) clusterName.
       bind_go (if \<not> set_Contains S fromDB clusterName
                then updateCluster policyID clusterName compliance b else Inr b)
         (\<lambda>b'. Inr (b', set_Remove S clustersFromDB clusterName)))"

definition handlePolicyComplianceStatus ::
  "'set go_sets \<Rightarrow> (string \<Rightarrow> string \<Rightarrow> string \<Rightarrow> 'b \<Rightarrow> 'b go) \<Rightarrow> policy_compliance_status \<Rightarrow>
   'set \<Rightarrow> 'set \<Rightarrow> 'b \<Rightarrow> 'b go" where
  "handlePolicyComplianceStatus S updateCluster status nonCompliantClustersFromDB unknownClustersFromDB b0 =
     (let clustersFromDB0 = set_Union S nonCompliantClustersFromDB unknownClustersFromDB
      in bind_go (update_reported S updateCluster (pcs_PolicyID status) nonCompliantClustersFromDB
             NonCompliant (b0, clustersFromDB0) (pcs_NonCompliantClusters status)) (\<lambda>s1.
         bind_go (update_reported S updateCluster (pcs_PolicyID status) unknownClustersFromDB
             Unknown s1 (pcs_UnknownComplianceClusters status)) (\<lambda>(b2, clustersFromDB).
         fold_go (\<lambda>b clusterName. updateCluster (pcs_PolicyID status) clusterName Compliant b)
           b2 (set_ToSlice S clustersFromDB))))"

definition handle_status_object ::
  "'set go_sets \<Rightarrow> (string \<Rightarrow> string \<Rightarrow> string \<Rightarrow> 'b \<Rightarrow> 'b go) \<Rightarrow>
   'b \<times> (string \<times> 'set non_compliant_cluster_sets) list \<Rightarrow> bundle_object \<Rightarrow>
   ('b \<times> (string \<times> 'set non_compliant_cluster_sets) list) go" where
  "handle_status_object S updateCluster = (\<lambda>(b, nonCompliantRowsFromDB) object.
     case object of
       ObjPolicyComplianceStatus pointer \<Rightarrow>
         bind_go (go_deref pointer) (\<lambda>status.
           let sets = (case map_of nonCompliantRowsFromDB (pcs_PolicyID status) of
                 None \<Rightarrow> NewNonCompliantClusterSets S | Some found \<Rightarrow> found)
           in bind_go (handlePolicyComplianceStatus S updateCluster status
                  (GetNonCompliantClusters sets) (GetUnknownClusters sets) b)
                (\<lambda>b'. Inr (b', AList.delete (pcs_PolicyID status) nonCompliantRowsFromDB)))
     | _ \<Rightarrow> Inr (b, nonCompliantRowsFromDB))"

definition compliance_status_rows ::
  "('d, 'set, 'b, 'q) policies_status_db \<Rightarrow> 'set go_sets \<Rightarrow>
   ((string \<times> 'set non_compliant_cluster_sets) list \<Rightarrow> (string \<times> 'set non_compliant_cluster_sets) list) \<Rightarrow>
   status_bundle \<Rightarrow> string \<Rightarrow> string \<Rightarrow> (string \<times> 'set non_compliant_cluster_sets) list \<Rightarrow> 'b go" where
  "compliance_status_rows db S rng bundle dbSchema dbTableName nonCompliantRowsFromDB =
     bind_go (fold_go (handle_status_object S (pdb_UpdateClusterCompliance db))
         (pdb_NewPoliciesBatchBuilder db dbSchema dbTableName (GetLeafHubName bundle), nonCompliantRowsFromDB)
         (GetObjects bundle)) (\<lambda>(b, remaining).
     fold_go (\<lambda>b (policyID, _). pdb_UpdatePolicyCompliance db policyID Compliant b) b
       (go_range rng remaining))"

definition handleComplianceBundle ::
  "('d, 'set, 'b, 'q) policies_status_db \<Rightarrow> 'set go_sets \<Rightarrow>
   ((string \<times> 'set non_compliant_cluster_sets) list \<Rightarrow> (string \<times> 'set non_compliant_cluster_sets) list) \<Rightarrow>
   status_bundle \<Rightarrow> string \<Rightarrow> string \<Rightarrow> 'd \<Rightarrow> (go_error option \<times> 'd) go" where
  "handleComplianceBundle db S rng bundle dbSchema dbTableName d =
     (let leafHubName = GetLeafHubName bundle
      in case pdb_GetNonCompliantClustersByLeafHub db dbSchema dbTableName leafHubName d of
           Inl err \<Rightarrow> Inr (Some (compliance_fetch_error leafHubName err), d)
         | Inr nonCompliantRowsFromDB \<Rightarrow>
             bind_go (compliance_status_rows db S rng bundle dbSchema dbTableName nonCompliantRowsFromDB)
               (\<lambda>b. send_built (pdb_Build db) (pdb_SendBatch db) b d))"

section \<open>Minimal compliance status\<close>

fun update_aggregated ::
  "('d, 'set) aggregated_policies_status_db \<Rightarrow> 'set go_sets \<Rightarrow> string \<Rightarrow> bundle_object list \<Rightarrow>
   'set \<Rightarrow> 'd \<Rightarrow> (go_error option \<times> 'set \<times> 'd) go" where
  "update_aggregated db S leafHubName [] policyIDsFromDB d = Inr (None, policyIDsFromDB, d)"
| "update_aggregated db S leafHubName (object # objects) policyIDsFromDB d =
     (case object of
        ObjMinimalPolicyComplianceStatus pointer \<Rightarrow>
          bind_go (go_deref pointer) (\<lambda>status.
            case adb_InsertOrUpdateAggregatedPolicyCompliance db StatusSchema MinimalComplianceTable
                   leafHubName (mpc_PolicyID status) (mpc_AppliedClusters status)
                   (mpc_NonCompliantClusters status) d of
              (Some err, d') \<Rightarrow>
                Inr (Some (''failed to update minimal compliance of policy '' @ quoted (mpc_PolicyID status) @
                  '', leaf hub '' @ quoted leafHubName @ '' in db - '' @ err), policyIDsFromDB, d')
            | (None, d') \<Rightarrow>
                update_aggregated db S leafHubName objects
                  (set_Remove S policyIDsFromDB (mpc_PolicyID status)) d')
      | _ \<Rightarrow> update_aggregated db S leafHubName objects policyIDsFromDB d)"

fun delete_aggregated ::
  "('d, 'set) aggregated_policies_status_db \<Rightarrow> string \<Rightarrow> string list \<Rightarrow> 'd \<Rightarrow> go_error option \<times> 'd" where
  "delete_aggregated db leafHubName [] d = (None, d)"
| "delete_aggregated db leafHubName (policyID # policyIDs) d =
     (case adb_DeleteAllComplianceRows db StatusSchema MinimalComplianceTable leafHubName policyID d of
        (Some err, d') \<Rightarrow>
          (Some (''failed deleted compliance rows of policy '' @ quoted policyID @
             '', leaf hub '' @ quoted leafHubName @ '' from db - '' @ err), d')
      | (None, d') \<Rightarrow> delete_aggregated db leafHubName policyIDs d')"

definition handleMinimalComplianceBundle ::
  "('d, 'set) aggregated_policies_status_db \<Rightarrow> 'set go_sets \<Rightarrow> status_bundle \<Rightarrow> 'd \<Rightarrow>
   (go_error option \<times> 'd) go" where
  "handleMinimalComplianceBundle db S bundle d =
     (let leafHubName = GetLeafHubName bundle
      in case adb_GetPolicyIDsByLeafHub db StatusSchema MinimalComplianceTable leafHubName d of
           Inl err \<Rightarrow>
             Inr (Some (''failed fetching leaf hub '' @ quoted leafHubName @ '' policies from db - '' @ err), d)
         | Inr policyIDsFromDB \<Rightarrow>
             bind_go (update_aggregated db S leafHubName (GetObjects bundle) policyIDsFromDB d)
               (\<lambda>(err, remaining, d').
                  case err of
                    Some e \<Rightarrow> Inr (Some e, d')
                  | None \<Rightarrow> Inr (delete_aggregated db leafHubName (set_ToSlice S remaining) d')))"

end
