(* ===== verification/Policies_Diff.thy ===== *)
theory Policies_Diff
  imports Policies_Syncer
begin

text \<open>
  The difference the policy handlers compute, once for every builder that keeps the contract and every
  set library that keeps its laws: which rows they insert, delete or update, for bundles whose policies
  and clusters are not repeated.
\<close>

section \<open>Clusters per policy\<close>

abbreviation ObjClusters :: "clusters_per_policy \<Rightarrow> bundle_object" where
  "ObjClusters p \<equiv> ObjClustersPerPolicy (Some p)"

abbreviation ObjStatus :: "policy_compliance_status \<Rightarrow> bundle_object" where
  "ObjStatus p \<equiv> ObjPolicyComplianceStatus (Some p)"

text \<open>The clusters the database has for a policy, and the rows to insert for it.\<close>

definition db_clusters :: "('set \<Rightarrow> string set) \<Rightarrow> (string \<times> 'set) list \<Rightarrow> string \<Rightarrow> string set" where
  "db_clusters members m p = (case map_of m p of None \<Rightarrow> {} | Some s \<Rightarrow> members s)"

definition new_rows ::
  "(string \<Rightarrow> string set) \<Rightarrow> clusters_per_policy \<Rightarrow> (string \<times> string \<times> string \<times> string) list" where
  "new_rows known p = map (\<lambda>cl. (cpp_PolicyID p, cl, ErrorNone, Unknown))
     (filter (\<lambda>cl. cl \<notin> known (cpp_PolicyID p)) (cpp_Clusters p))"

definition gone_policies :: "(string \<times> 'a) list \<Rightarrow> string set \<Rightarrow> (string \<times> 'a) list" where
  "gone_policies m ps = filter (\<lambda>(k, _). k \<notin> ps) m"

lemma gone_policies_delete:
  "gone_policies (AList.delete k m) ps = gone_policies m (insert k ps)"
  by (auto simp: gone_policies_def AList.delete_eq filter_filter intro!: filter_cong)

lemma set_gone_policies: "fst ` set (gone_policies m ps) = fst ` set m - ps"
  by (force simp: gone_policies_def)

lemma db_clusters_delete:
  "p \<noteq> k \<Longrightarrow> db_clusters members (AList.delete k m) p = db_clusters members m p"
  by (simp add: db_clusters_def delete_conv')

context policies_batch_builder_contract
begin

lemma insert_missing:
  assumes S: "sets_laws S members" and "holds b c" "distinct cls"
  shows "\<exists>b' s'. fold_go (\<lambda>(b, s) cl. if \<not> set_Contains S s cl
        then bind_go (Insert p cl ErrorNone Unknown b) (\<lambda>b'. Inr (b', s))
        else Inr (b, set_Remove S s cl)) (b, s) cls = Inr (b', s') \<and>
    members s' = members s - set cls \<and>
    holds b' (c\<lparr>pc_inserted := pc_inserted c @
      map (\<lambda>cl. (p, cl, ErrorNone, Unknown)) (filter (\<lambda>cl. cl \<notin> members s) cls)\<rparr>)"
  using assms(2,3)
proof (induction cls arbitrary: b c s)
  case Nil
  then show ?case by simp
next
  case (Cons cl cls)
  have contains: "set_Contains S s cl \<longleftrightarrow> cl \<in> members s"
    and rem: "members (set_Remove S s cl) = members s - {cl}"
    using S by (simp_all add: sets_laws_def)
  have d: "distinct cls" using Cons.prems(2) by simp
  show ?case
  proof (cases "cl \<in> members s")
    case False
    obtain b1 where b1: "Insert p cl ErrorNone Unknown b = Inr b1"
        "holds b1 (c\<lparr>pc_inserted := pc_inserted c @ [(p, cl, ErrorNone, Unknown)]\<rparr>)"
      using insert [OF Cons.prems(1)] by blast
    from Cons.IH [OF b1(2) d, of s] b1(1) False show ?thesis by (auto simp: contains)
  next
    case True
    have "filter (\<lambda>x. x \<notin> members (set_Remove S s cl)) cls = filter (\<lambda>x. x \<notin> members s) cls"
      using Cons.prems(2) by (auto simp: rem intro!: filter_cong)
    with Cons.IH [OF Cons.prems(1) d, of "set_Remove S s cl"] True show ?thesis
      by (auto simp: contains rem)
  qed
qed

lemma delete_clusters:
  assumes "holds b c"
  shows "\<exists>b'. fold_go (\<lambda>b cl. DeleteClusterStatus p cl b) b cls = Inr b' \<and>
    holds b' (c\<lparr>pc_deletedClusters := (pc_deletedClusters c)(p := pc_deletedClusters c p @ cls)\<rparr>)"
  using assms
proof (induction cls arbitrary: b c)
  case Nil
  then show ?case by simp
next
  case (Cons cl cls)
  obtain b1 where b1: "DeleteClusterStatus p cl b = Inr b1" "holds b1
      (c\<lparr>pc_deletedClusters := (pc_deletedClusters c)(p := pc_deletedClusters c p @ [cl])\<rparr>)"
    using delete_cluster [OF Cons.prems] by blast
  from Cons.IH [OF b1(2)] b1(1) show ?case by (simp cong: if_cong)
qed

lemma clusters_of_policy:
  assumes S: "sets_laws S members" and h: "holds b c" and d: "distinct (cpp_Clusters p)"
  shows "\<exists>b' gone. handleClusterPerPolicy S Insert DeleteClusterStatus p s b = Inr b' \<and>
    set gone = members s - set (cpp_Clusters p) \<and>
    holds b' (c\<lparr>pc_inserted := pc_inserted c @ new_rows (\<lambda>_. members s) p,
      pc_deletedClusters := (pc_deletedClusters c)
        (cpp_PolicyID p := pc_deletedClusters c (cpp_PolicyID p) @ gone)\<rparr>)"
proof -
  obtain b1 s1 where 1: "fold_go (\<lambda>(b, s) cl. if \<not> set_Contains S s cl
        then bind_go (Insert (cpp_PolicyID p) cl ErrorNone Unknown b) (\<lambda>b'. Inr (b', s))
        else Inr (b, set_Remove S s cl)) (b, s) (cpp_Clusters p) = Inr (b1, s1)"
      "members s1 = members s - set (cpp_Clusters p)"
      "holds b1 (c\<lparr>pc_inserted := pc_inserted c @ new_rows (\<lambda>_. members s) p\<rparr>)"
    using insert_missing [OF S h d, of "cpp_PolicyID p" s] by (auto simp: new_rows_def)
  obtain b2 where "fold_go (\<lambda>b cl. DeleteClusterStatus (cpp_PolicyID p) cl b) b1 (set_ToSlice S s1) = Inr b2"
      "holds b2 (c\<lparr>pc_inserted := pc_inserted c @ new_rows (\<lambda>_. members s) p,
        pc_deletedClusters := (pc_deletedClusters c)(cpp_PolicyID p :=
          pc_deletedClusters c (cpp_PolicyID p) @ set_ToSlice S s1)\<rparr>)"
    using delete_clusters [OF 1(3), of "cpp_PolicyID p" "set_ToSlice S s1"] by auto
  moreover have "set (set_ToSlice S s1) = members s - set (cpp_Clusters p)"
    using S 1(2) by (simp add: sets_laws_def)
  ultimately show ?thesis using 1(1) by (auto simp: handleClusterPerPolicy_def)
qed

lemma clusters_of_policies:
  assumes S: "sets_laws S members" and "holds b c"
    and "distinct (map cpp_PolicyID ps)" "\<forall>p \<in> set ps. distinct (cpp_Clusters p)"
  shows "\<exists>b' del. fold_go (handle_policy_object S Insert DeleteClusterStatus) (b, m) (map ObjClusters ps) =
      Inr (b', gone_policies m (cpp_PolicyID ` set ps)) \<and>
    holds b' (c\<lparr>pc_inserted := pc_inserted c @ concat (map (new_rows (db_clusters members m)) ps),
                pc_deletedClusters := del\<rparr>) \<and>
    (\<forall>p \<in> set ps. set (del (cpp_PolicyID p)) = set (pc_deletedClusters c (cpp_PolicyID p)) \<union>
        (db_clusters members m (cpp_PolicyID p) - set (cpp_Clusters p))) \<and>
    (\<forall>k. k \<notin> cpp_PolicyID ` set ps \<longrightarrow> del k = pc_deletedClusters c k)"
  using assms(2-4)
proof (induction ps arbitrary: b c m)
  case Nil
  then show ?case by (auto simp: gone_policies_def case_prod_beta intro!: exI [of _ "pc_deletedClusters c"])
next
  case (Cons p ps)
  let ?k = "cpp_PolicyID p"
  define s where "s = (case map_of m ?k of None \<Rightarrow> set_NewSet S | Some found \<Rightarrow> found)"
  have known: "members s = db_clusters members m ?k"
    using S by (simp add: s_def db_clusters_def sets_laws_def split: option.split)
  have rows: "new_rows (\<lambda>_. members s) p = new_rows (db_clusters members m) p"
    by (simp add: new_rows_def known)
  have d: "distinct (map cpp_PolicyID ps)" "\<forall>p \<in> set ps. distinct (cpp_Clusters p)"
      "distinct (cpp_Clusters p)" "?k \<notin> cpp_PolicyID ` set ps"
    using Cons.prems by auto
  obtain b1 gone where b1: "handleClusterPerPolicy S Insert DeleteClusterStatus p s b = Inr b1"
      "set gone = members s - set (cpp_Clusters p)"
      "holds b1 (c\<lparr>pc_inserted := pc_inserted c @ new_rows (db_clusters members m) p,
        pc_deletedClusters := (pc_deletedClusters c)(?k := pc_deletedClusters c ?k @ gone)\<rparr>)"
    using clusters_of_policy [OF S Cons.prems(1) d(3), of s] rows by auto
  have other: "db_clusters members (AList.delete ?k m) (cpp_PolicyID q) = db_clusters members m (cpp_PolicyID q)"
    if "q \<in> set ps" for q
    using d(4) that by (intro db_clusters_delete) (metis imageI)
  have rest: "map (new_rows (db_clusters members (AList.delete ?k m))) ps =
      map (new_rows (db_clusters members m)) ps"
    using other by (simp add: new_rows_def)
  obtain b' del where ih: "fold_go (handle_policy_object S Insert DeleteClusterStatus)
        (b1, AList.delete ?k m) (map ObjClusters ps) =
        Inr (b', gone_policies (AList.delete ?k m) (cpp_PolicyID ` set ps))"
      "holds b' (c\<lparr>pc_inserted := (pc_inserted c @ new_rows (db_clusters members m) p) @
          concat (map (new_rows (db_clusters members m)) ps), pc_deletedClusters := del\<rparr>)"
      "\<forall>q \<in> set ps. set (del (cpp_PolicyID q)) =
        set (((pc_deletedClusters c)(?k := pc_deletedClusters c ?k @ gone)) (cpp_PolicyID q)) \<union>
        (db_clusters members (AList.delete ?k m) (cpp_PolicyID q) - set (cpp_Clusters q))"
      "\<forall>k. k \<notin> cpp_PolicyID ` set ps \<longrightarrow>
        del k = ((pc_deletedClusters c)(?k := pc_deletedClusters c ?k @ gone)) k"
    using Cons.IH [OF b1(3) d(1,2), of "AList.delete ?k m"] unfolding rest by auto
  have "handle_policy_object S Insert DeleteClusterStatus (b, m) (ObjClusters p) =
      Inr (b1, AList.delete ?k m)"
    using b1(1) by (simp add: handle_policy_object_def s_def [symmetric] Let_def)
  then have step: "fold_go (handle_policy_object S Insert DeleteClusterStatus) (b, m) (map ObjClusters (p # ps)) =
      fold_go (handle_policy_object S Insert DeleteClusterStatus) (b1, AList.delete ?k m) (map ObjClusters ps)"
    by simp
  show ?case
  proof (intro exI conjI)
    show "fold_go (handle_policy_object S Insert DeleteClusterStatus) (b, m) (map ObjClusters (p # ps)) =
        Inr (b', gone_policies m (cpp_PolicyID ` set (p # ps)))"
      unfolding step using ih(1) by (simp add: gone_policies_delete)
    show "holds b' (c\<lparr>pc_inserted := pc_inserted c @ concat (map (new_rows (db_clusters members m)) (p # ps)),
        pc_deletedClusters := del\<rparr>)"
      using ih(2) by simp
    show "\<forall>q \<in> set (p # ps). set (del (cpp_PolicyID q)) = set (pc_deletedClusters c (cpp_PolicyID q)) \<union>
        (db_clusters members m (cpp_PolicyID q) - set (cpp_Clusters q))"
    proof
      fix q assume "q \<in> set (p # ps)"
      then consider "q = p" | "q \<in> set ps" "cpp_PolicyID q \<noteq> ?k"
        using d(4) by (metis image_eqI set_ConsD)
      then show "set (del (cpp_PolicyID q)) = set (pc_deletedClusters c (cpp_PolicyID q)) \<union>
          (db_clusters members m (cpp_PolicyID q) - set (cpp_Clusters q))"
        by cases (use ih(3,4) d(4) b1(2) known other in auto)
    qed
    show "\<forall>k. k \<notin> cpp_PolicyID ` set (p # ps) \<longrightarrow> del k = pc_deletedClusters c k"
      using ih(4) by simp
  qed
qed

lemma delete_policies:
  assumes "holds b c"
  shows "\<exists>b'. fold_go (\<lambda>b (p, _). DeletePolicy p b) b xs = Inr b' \<and>
    holds b' (c\<lparr>pc_deletedPolicies := pc_deletedPolicies c @ map fst xs\<rparr>)"
  using assms
proof (induction xs arbitrary: b c)
  case Nil
  then show ?case by simp
next
  case (Cons x xs)
  obtain b1 where b1: "DeletePolicy (fst x) b = Inr b1"
      "holds b1 (c\<lparr>pc_deletedPolicies := pc_deletedPolicies c @ [fst x]\<rparr>)"
    using delete_policy [OF Cons.prems] by blast
  from Cons.IH [OF b1(2)] b1(1) show ?case by (simp add: case_prod_beta)
qed

text \<open>The batch of the clusters per policy handler.\<close>

lemma clusters_per_policy_batch:
  assumes S: "sets_laws S members" and h: "holds b no_policy_changes"
    and ps: "distinct (map cpp_PolicyID ps)" "\<forall>p \<in> set ps. distinct (cpp_Clusters p)"
  shows "\<exists>b' b'' q del.
    fold_go (handle_policy_object S Insert DeleteClusterStatus) (b, m) (map ObjClusters ps) =
      Inr (b', gone_policies m (cpp_PolicyID ` set ps)) \<and>
    fold_go (\<lambda>b (p, _). DeletePolicy p b) b' (go_range rng (gone_policies m (cpp_PolicyID ` set ps))) =
      Inr b'' \<and>
    Build b'' = Inr q \<and>
    carries q \<lparr>pc_inserted = concat (map (new_rows (db_clusters members m)) ps),
      pc_updatedPolicies = [], pc_updatedClusters = [],
      pc_deletedPolicies = map fst (go_range rng (gone_policies m (cpp_PolicyID ` set ps))),
      pc_deletedClusters = del\<rparr> \<and>
    (\<forall>p \<in> set ps. set (del (cpp_PolicyID p)) =
       db_clusters members m (cpp_PolicyID p) - set (cpp_Clusters p)) \<and>
    (\<forall>k. k \<notin> cpp_PolicyID ` set ps \<longrightarrow> del k = [])"
proof -
  obtain b' del where 1: "fold_go (handle_policy_object S Insert DeleteClusterStatus) (b, m)
        (map ObjClusters ps) = Inr (b', gone_policies m (cpp_PolicyID ` set ps))"
      "holds b' (no_policy_changes\<lparr>pc_inserted := concat (map (new_rows (db_clusters members m)) ps),
         pc_deletedClusters := del\<rparr>)"
      "\<forall>p \<in> set ps. set (del (cpp_PolicyID p)) =
         db_clusters members m (cpp_PolicyID p) - set (cpp_Clusters p)"
      "\<forall>k. k \<notin> cpp_PolicyID ` set ps \<longrightarrow> del k = []"
    using clusters_of_policies [OF S h ps, of m] by (auto simp: no_policy_changes_def)
  obtain b'' where 2: "fold_go (\<lambda>b (p, _). DeletePolicy p b) b'
        (go_range rng (gone_policies m (cpp_PolicyID ` set ps))) = Inr b''"
      "holds b'' \<lparr>pc_inserted = concat (map (new_rows (db_clusters members m)) ps),
         pc_updatedPolicies = [], pc_updatedClusters = [],
         pc_deletedPolicies = map fst (go_range rng (gone_policies m (cpp_PolicyID ` set ps))),
         pc_deletedClusters = del\<rparr>"
    using delete_policies [OF 1(2), of "go_range rng (gone_policies m (cpp_PolicyID ` set ps))"]
    by (auto simp: no_policy_changes_def)
  from build [OF 2(2)] 1 2(1) show ?thesis by blast
qed

end

section \<open>Compliance status\<close>

text \<open>The clusters the database has as non compliant and as unknown for a policy.\<close>

definition db_non_compliant ::
  "('set \<Rightarrow> string set) \<Rightarrow> (string \<times> 'set non_compliant_cluster_sets) list \<Rightarrow> string \<Rightarrow> string set" where
  "db_non_compliant members m p =
     (case map_of m p of None \<Rightarrow> {} | Some s \<Rightarrow> members (nc_nonCompliantClusters s))"

definition db_unknown ::
  "('set \<Rightarrow> string set) \<Rightarrow> (string \<times> 'set non_compliant_cluster_sets) list \<Rightarrow> string \<Rightarrow> string set" where
  "db_unknown members m p =
     (case map_of m p of None \<Rightarrow> {} | Some s \<Rightarrow> members (nc_unknownClusters s))"

text \<open>The state to write for a cluster of a policy, given what the database has for the policy.\<close>

definition status_update ::
  "string set \<Rightarrow> string set \<Rightarrow> policy_compliance_status \<Rightarrow> string \<Rightarrow> string \<Rightarrow> bool" where
  "status_update nc unk p cl st \<longleftrightarrow>
     (cl \<in> set (pcs_NonCompliantClusters p) \<and> cl \<notin> nc \<and> st = NonCompliant) \<or>
     (cl \<in> set (pcs_UnknownComplianceClusters p) \<and> cl \<notin> unk \<and> st = Unknown) \<or>
     (cl \<in> nc \<union> unk \<and> cl \<notin> set (pcs_NonCompliantClusters p) \<and>
      cl \<notin> set (pcs_UnknownComplianceClusters p) \<and> st = Compliant)"

context policies_batch_builder_contract
begin

lemma report_clusters:
  assumes S: "sets_laws S members" and "holds b c"
  shows "\<exists>b' s'. update_reported S UpdateClusterCompliance p fromDB st (b, s) cls = Inr (b', s') \<and>
    members s' = members s - set cls \<and>
    holds b' (c\<lparr>pc_updatedClusters := pc_updatedClusters c @
      map (\<lambda>cl. (p, cl, st)) (filter (\<lambda>cl. cl \<notin> members fromDB) cls)\<rparr>)"
  using assms(2)
proof (induction cls arbitrary: b c s)
  case Nil
  then show ?case by (simp add: update_reported_def)
next
  case (Cons cl cls)
  have contains: "set_Contains S fromDB cl \<longleftrightarrow> cl \<in> members fromDB"
    and rem: "members (set_Remove S s cl) = members s - {cl}"
    using S by (simp_all add: sets_laws_def)
  show ?case
  proof (cases "cl \<in> members fromDB")
    case False
    obtain b1 where b1: "UpdateClusterCompliance p cl st b = Inr b1"
        "holds b1 (c\<lparr>pc_updatedClusters := pc_updatedClusters c @ [(p, cl, st)]\<rparr>)"
      using update_cluster [OF Cons.prems] by blast
    from Cons.IH [OF b1(2), of "set_Remove S s cl"] b1(1) False show ?thesis
      by (auto simp: update_reported_def contains rem)
  next
    case True
    with Cons.IH [OF Cons.prems, of "set_Remove S s cl"] show ?thesis
      by (auto simp: update_reported_def contains rem)
  qed
qed

lemma update_clusters:
  assumes "holds b c"
  shows "\<exists>b'. fold_go (\<lambda>b cl. UpdateClusterCompliance p cl st b) b cls = Inr b' \<and>
    holds b' (c\<lparr>pc_updatedClusters := pc_updatedClusters c @ map (\<lambda>cl. (p, cl, st)) cls\<rparr>)"
  using assms
proof (induction cls arbitrary: b c)
  case Nil
  then show ?case by simp
next
  case (Cons cl cls)
  obtain b1 where b1: "UpdateClusterCompliance p cl st b = Inr b1"
      "holds b1 (c\<lparr>pc_updatedClusters := pc_updatedClusters c @ [(p, cl, st)]\<rparr>)"
    using update_cluster [OF Cons.prems] by blast
  from Cons.IH [OF b1(2)] b1(1) show ?case by simp
qed

lemma status_of_policy:
  assumes S: "sets_laws S members" and h: "holds b c"
  shows "\<exists>b' ups. handlePolicyComplianceStatus S UpdateClusterCompliance p nc unk b = Inr b' \<and>
    holds b' (c\<lparr>pc_updatedClusters := pc_updatedClusters c @ ups\<rparr>) \<and>
    (\<forall>q cl st. (q, cl, st) \<in> set ups \<longleftrightarrow>
       q = pcs_PolicyID p \<and> status_update (members nc) (members unk) p cl st)"
proof -
  let ?k = "pcs_PolicyID p"
  obtain b1 s1 where 1: "update_reported S UpdateClusterCompliance ?k nc NonCompliant (b, set_Union S nc unk)
        (pcs_NonCompliantClusters p) = Inr (b1, s1)"
      "members s1 = members (set_Union S nc unk) - set (pcs_NonCompliantClusters p)"
      "holds b1 (c\<lparr>pc_updatedClusters := pc_updatedClusters c @ map (\<lambda>cl. (?k, cl, NonCompliant))
        (filter (\<lambda>cl. cl \<notin> members nc) (pcs_NonCompliantClusters p))\<rparr>)"
    using report_clusters [OF S h] by blast
  obtain b2 s2 where 2: "update_reported S UpdateClusterCompliance ?k unk Unknown (b1, s1)
        (pcs_UnknownComplianceClusters p) = Inr (b2, s2)"
      "members s2 = members s1 - set (pcs_UnknownComplianceClusters p)"
      "holds b2 (c\<lparr>pc_updatedClusters := (pc_updatedClusters c @ map (\<lambda>cl. (?k, cl, NonCompliant))
        (filter (\<lambda>cl. cl \<notin> members nc) (pcs_NonCompliantClusters p))) @ map (\<lambda>cl. (?k, cl, Unknown))
        (filter (\<lambda>cl. cl \<notin> members unk) (pcs_UnknownComplianceClusters p))\<rparr>)"
    using report_clusters [OF S 1(3)] by auto blast
  let ?ups = "map (\<lambda>cl. (?k, cl, NonCompliant))
      (filter (\<lambda>cl. cl \<notin> members nc) (pcs_NonCompliantClusters p)) @ map (\<lambda>cl. (?k, cl, Unknown))
      (filter (\<lambda>cl. cl \<notin> members unk) (pcs_UnknownComplianceClusters p)) @
      map (\<lambda>cl. (?k, cl, Compliant)) (set_ToSlice S s2)"
  obtain b3 where 3: "fold_go (\<lambda>b cl. UpdateClusterCompliance ?k cl Compliant b) b2 (set_ToSlice S s2) = Inr b3"
      "holds b3 (c\<lparr>pc_updatedClusters := pc_updatedClusters c @ ?ups\<rparr>)"
    using update_clusters [OF 2(3), of ?k Compliant "set_ToSlice S s2"] by auto
  have "set (set_ToSlice S s2) = members nc \<union> members unk - set (pcs_NonCompliantClusters p) -
      set (pcs_UnknownComplianceClusters p)"
    using S 1(2) 2(2) by (simp add: sets_laws_def)
  then have "(q, cl, st) \<in> set ?ups \<longleftrightarrow> q = ?k \<and> status_update (members nc) (members unk) p cl st"
    for q cl st by (auto simp: status_update_def)
  with 1(1) 2(1) 3 show ?thesis
    by (intro exI [of _ b3] exI [of _ ?ups]) (simp add: handlePolicyComplianceStatus_def Let_def)
qed

lemma status_of_policies:
  assumes S: "sets_laws S members" and "holds b c" "distinct (map pcs_PolicyID ps)"
  shows "\<exists>b' ups. fold_go (handle_status_object S UpdateClusterCompliance) (b, m) (map ObjStatus ps) =
      Inr (b', gone_policies m (pcs_PolicyID ` set ps)) \<and>
    holds b' (c\<lparr>pc_updatedClusters := pc_updatedClusters c @ ups\<rparr>) \<and>
    (\<forall>q cl st. (q, cl, st) \<in> set ups \<longleftrightarrow> (\<exists>p \<in> set ps. q = pcs_PolicyID p \<and>
       status_update (db_non_compliant members m q) (db_unknown members m q) p cl st))"
  using assms(2,3)
proof (induction ps arbitrary: b c m)
  case Nil
  then show ?case by (auto simp: gone_policies_def case_prod_beta intro!: exI [of _ "[]"])
next
  case (Cons p ps)
  let ?k = "pcs_PolicyID p"
  define s where "s = (case map_of m ?k of None \<Rightarrow> NewNonCompliantClusterSets S | Some found \<Rightarrow> found)"
  have known: "members (nc_nonCompliantClusters s) = db_non_compliant members m ?k"
      "members (nc_unknownClusters s) = db_unknown members m ?k"
    using S by (simp_all add: s_def db_non_compliant_def db_unknown_def sets_laws_def
        NewNonCompliantClusterSets_def split: option.split)
  have d: "distinct (map pcs_PolicyID ps)" "?k \<notin> pcs_PolicyID ` set ps" using Cons.prems(2) by auto
  obtain b1 ups1 where b1: "handlePolicyComplianceStatus S UpdateClusterCompliance p
        (nc_nonCompliantClusters s) (nc_unknownClusters s) b = Inr b1"
      "holds b1 (c\<lparr>pc_updatedClusters := pc_updatedClusters c @ ups1\<rparr>)"
      "\<forall>q cl st. (q, cl, st) \<in> set ups1 \<longleftrightarrow> q = ?k \<and>
         status_update (db_non_compliant members m ?k) (db_unknown members m ?k) p cl st"
    using status_of_policy [OF S Cons.prems(1), of p "nc_nonCompliantClusters s" "nc_unknownClusters s"]
    unfolding known by blast
  let ?m = "AList.delete ?k m"
  have other: "db_non_compliant members ?m q = db_non_compliant members m q"
      "db_unknown members ?m q = db_unknown members m q" if "q \<noteq> ?k" for q
    using that by (simp_all add: db_non_compliant_def db_unknown_def delete_conv')
  obtain b' ups2 where ih: "fold_go (handle_status_object S UpdateClusterCompliance) (b1, ?m)
        (map ObjStatus ps) = Inr (b', gone_policies ?m (pcs_PolicyID ` set ps))"
      "holds b' (c\<lparr>pc_updatedClusters := pc_updatedClusters c @ ups1 @ ups2\<rparr>)"
      "\<forall>q cl st. (q, cl, st) \<in> set ups2 \<longleftrightarrow> (\<exists>p \<in> set ps. q = pcs_PolicyID p \<and>
         status_update (db_non_compliant members ?m q) (db_unknown members ?m q) p cl st)"
    using Cons.IH [OF b1(2) d(1), of ?m] by auto
  have "handle_status_object S UpdateClusterCompliance (b, m) (ObjStatus p) = Inr (b1, ?m)"
    using b1(1) by (simp add: handle_status_object_def s_def [symmetric] Let_def)
  then have step: "fold_go (handle_status_object S UpdateClusterCompliance) (b, m) (map ObjStatus (p # ps)) =
      fold_go (handle_status_object S UpdateClusterCompliance) (b1, ?m) (map ObjStatus ps)"
    by simp
  have "(q, cl, st) \<in> set (ups1 @ ups2) \<longleftrightarrow> (\<exists>p \<in> set (p # ps). q = pcs_PolicyID p \<and>
       status_update (db_non_compliant members m q) (db_unknown members m q) p cl st)" for q cl st
  proof (cases "q = ?k")
    case True
    then have "\<not> (\<exists>p \<in> set ps. q = pcs_PolicyID p)" using d(2) by auto
    with True b1(3) ih(3) show ?thesis by auto
  next
    case False
    with b1(3) ih(3) other [OF False] show ?thesis by auto
  qed
  with ih(1,2) show ?case
    unfolding step by (intro exI [of _ b'] exI [of _ "ups1 @ ups2"]) (simp add: gone_policies_delete)
qed

lemma update_policies:
  assumes "holds b c"
  shows "\<exists>b'. fold_go (\<lambda>b (p, _). UpdatePolicyCompliance p st b) b xs = Inr b' \<and>
    holds b' (c\<lparr>pc_updatedPolicies := pc_updatedPolicies c @ map (\<lambda>x. (fst x, st)) xs\<rparr>)"
  using assms
proof (induction xs arbitrary: b c)
  case Nil
  then show ?case by simp
next
  case (Cons x xs)
  obtain b1 where b1: "UpdatePolicyCompliance (fst x) st b = Inr b1"
      "holds b1 (c\<lparr>pc_updatedPolicies := pc_updatedPolicies c @ [(fst x, st)]\<rparr>)"
    using update_policy [OF Cons.prems] by blast
  from Cons.IH [OF b1(2)] b1(1) show ?case by (simp add: case_prod_beta)
qed

text \<open>The batch of the compliance handler.\<close>

lemma compliance_batch:
  assumes S: "sets_laws S members" and h: "holds b no_policy_changes"
    and ps: "distinct (map pcs_PolicyID ps)"
  shows "\<exists>b' b'' q ups.
    fold_go (handle_status_object S UpdateClusterCompliance) (b, m) (map ObjStatus ps) =
      Inr (b', gone_policies m (pcs_PolicyID ` set ps)) \<and>
    fold_go (\<lambda>b (p, _). UpdatePolicyCompliance p Compliant b) b'
      (go_range rng (gone_policies m (pcs_PolicyID ` set ps))) = Inr b'' \<and>
    Build b'' = Inr q \<and>
    carries q \<lparr>pc_inserted = [], pc_updatedPolicies = map (\<lambda>x. (fst x, Compliant))
        (go_range rng (gone_policies m (pcs_PolicyID ` set ps))),
      pc_updatedClusters = ups, pc_deletedPolicies = [], pc_deletedClusters = (\<lambda>_. [])\<rparr> \<and>
    (\<forall>q cl st. (q, cl, st) \<in> set ups \<longleftrightarrow> (\<exists>p \<in> set ps. q = pcs_PolicyID p \<and>
       status_update (db_non_compliant members m q) (db_unknown members m q) p cl st))"
proof -
  obtain b' ups where 1: "fold_go (handle_status_object S UpdateClusterCompliance) (b, m)
        (map ObjStatus ps) = Inr (b', gone_policies m (pcs_PolicyID ` set ps))"
      "holds b' (no_policy_changes\<lparr>pc_updatedClusters := ups\<rparr>)"
      "\<forall>q cl st. (q, cl, st) \<in> set ups \<longleftrightarrow> (\<exists>p \<in> set ps. q = pcs_PolicyID p \<and>
         status_update (db_non_compliant members m q) (db_unknown members m q) p cl st)"
    using status_of_policies [OF S h ps, of m] by (auto simp: no_policy_changes_def)
  obtain b'' where 2: "fold_go (\<lambda>b (p, _). UpdatePolicyCompliance p Compliant b) b'
        (go_range rng (gone_policies m (pcs_PolicyID ` set ps))) = Inr b''"
      "holds b'' \<lparr>pc_inserted = [], pc_updatedPolicies = map (\<lambda>x. (fst x, Compliant))
          (go_range rng (gone_policies m (pcs_PolicyID ` set ps))),
        pc_updatedClusters = ups, pc_deletedPolicies = [], pc_deletedClusters = (\<lambda>_. [])\<rparr>"
    using update_policies [OF 1(2), of Compliant "go_range rng (gone_policies m (pcs_PolicyID ` set ps))"]
    by (auto simp: no_policy_changes_def)
  from build [OF 2(2)] 1 2(1) show ?thesis by blast
qed

end

end
