(* ===== verification/Compliance_Table.thy ===== *)
theory Compliance_Table
  imports Policies_Diff
begin

text \<open>
  The compliance table: what the statements of a policies batch mean for its rows, what is assumed of
  the database that holds it, the maps the queries build, and the meaning of a batch for one pair of a
  policy and a cluster, whatever the statements' sizes and order.
\<close>

section \<open>Rows and statements\<close>

record compliance_row =
  co_leafHub :: string
  co_policy :: string
  co_cluster :: string
  co_error :: string
  co_compliance :: string

type_synonym policy_stmt =
  "(string \<times> string \<times> string \<times> string, string \<times> string, policy_extra) stmt"

definition row_of :: "string \<Rightarrow> string \<times> string \<times> string \<times> string \<Rightarrow> compliance_row" where
  "row_of lh = (\<lambda>(p, cl, e, st). \<lparr>co_leafHub = lh, co_policy = p, co_cluster = cl, co_error = e,
     co_compliance = st\<rparr>)"

text \<open>An update writes the state its rows give for the row's key, if any.\<close>

definition update_where ::
  "string \<Rightarrow> (compliance_row \<Rightarrow> string option) \<Rightarrow> compliance_row list \<Rightarrow> compliance_row list" where
  "update_where lh f = map (\<lambda>r. if co_leafHub r = lh
     then (case f r of None \<Rightarrow> r | Some st \<Rightarrow> r\<lparr>co_compliance := st\<rparr>) else r)"

definition cluster_states :: "(string \<times> string \<times> string) list \<Rightarrow> ((string \<times> string) \<times> string) list" where
  "cluster_states rows = map (\<lambda>(p, cl, st). ((p, cl), st)) rows"

fun exec_policy_stmt :: "string \<Rightarrow> policy_stmt \<Rightarrow> compliance_row list \<Rightarrow> compliance_row list" where
  "exec_policy_stmt lh (SInsert rows) t = t @ map (row_of lh) rows"
| "exec_policy_stmt lh (SUpdate rows) t = update_where lh (\<lambda>r. map_of rows (co_policy r)) t"
| "exec_policy_stmt lh (SDelete ps) t = filter (\<lambda>r. \<not> (co_leafHub r = lh \<and> co_policy r \<in> set ps)) t"
| "exec_policy_stmt lh (SExtra (UpdateClusters rows)) t =
     update_where lh (\<lambda>r. map_of (cluster_states rows) (co_policy r, co_cluster r)) t"
| "exec_policy_stmt lh (SExtra (DeleteClusters p cls)) t =
     filter (\<lambda>r. \<not> (co_leafHub r = lh \<and> co_policy r = p \<and> co_cluster r \<in> set cls)) t"

definition exec_policy_stmts :: "string \<Rightarrow> policy_stmt list \<Rightarrow> compliance_row list \<Rightarrow> compliance_row list" where
  "exec_policy_stmts lh ss t = foldl (\<lambda>t s. exec_policy_stmt lh s t) t ss"

definition pair_rows :: "string \<Rightarrow> string \<Rightarrow> string \<Rightarrow> compliance_row list \<Rightarrow> compliance_row list" where
  "pair_rows lh p cl t = filter (\<lambda>r. co_leafHub r = lh \<and> co_policy r = p \<and> co_cluster r = cl) t"

definition other_rows :: "string \<Rightarrow> compliance_row list \<Rightarrow> compliance_row list" where
  "other_rows lh t = filter (\<lambda>r. co_leafHub r \<noteq> lh) t"

text \<open>The database: the two queries, and batches that take effect as a whole or not at all.\<close>

definition compliance_table_laws :: "'d pg_conn \<Rightarrow> ('d \<Rightarrow> compliance_row list) \<Rightarrow> bool" where
  "compliance_table_laws conn tbl \<longleftrightarrow>
     (\<forall>lh d. rows_scans (fst (conn_Query conn (compliance_query StatusSchema ComplianceTable)
          [ArgString lh] d)) =
        map (\<lambda>r. Inr [co_policy r, co_cluster r]) (filter (\<lambda>r. co_leafHub r = lh) (tbl d))) \<and>
     (\<forall>lh d. rows_scans (fst (conn_Query conn (non_compliant_query StatusSchema ComplianceTable)
          [ArgString lh] d)) =
        map (\<lambda>r. Inr [co_policy r, co_cluster r, co_compliance r])
          (filter (\<lambda>r. co_leafHub r = lh \<and> co_compliance r \<noteq> Compliant) (tbl d))) \<and>
     (\<forall>lh ss d results d'.
        conn_SendBatch conn (map (render (pb_layout StatusSchema ComplianceTable lh)) ss) d = (results, d') \<longrightarrow>
        tbl d' = (if \<forall>i < length ss. results i = None then exec_policy_stmts lh ss (tbl d) else tbl d))"

section \<open>The effect on one pair\<close>

lemma exec_policy_simps [simp]:
  "exec_policy_stmts lh [] t = t"
  "exec_policy_stmts lh (s # ss) t = exec_policy_stmts lh ss (exec_policy_stmt lh s t)"
  by (simp_all add: exec_policy_stmts_def)

lemma pair_rows_update_where:
  assumes "\<And>r. co_policy r = p \<Longrightarrow> co_cluster r = cl \<Longrightarrow> f r = g"
  shows "pair_rows lh p cl (update_where lh f t) =
    (case g of None \<Rightarrow> pair_rows lh p cl t
     | Some st \<Rightarrow> map (\<lambda>r. r\<lparr>co_compliance := st\<rparr>) (pair_rows lh p cl t))"
  using assms
  by (induction t) (auto simp: pair_rows_def update_where_def split: option.splits)

lemma pair_rows_insert:
  "pair_rows lh p cl (t @ map (row_of lh) rows) =
     pair_rows lh p cl t @ map (row_of lh) (filter (\<lambda>(q, c, _). q = p \<and> c = cl) rows)"
  by (induction rows) (auto simp: pair_rows_def row_of_def)

lemma pair_rows_filter:
  "pair_rows lh p cl (filter (\<lambda>r. co_leafHub r = lh \<longrightarrow> P r) t) = filter P (pair_rows lh p cl t)"
  by (induction t) (auto simp: pair_rows_def)

lemma policy_stmt_cases:
  fixes s :: policy_stmt
  obtains (insert) rows where "s = SInsert rows" | (update) rows where "s = SUpdate rows"
  | (delete) ps where "s = SDelete ps" | (update_clusters) rows where "s = SExtra (UpdateClusters rows)"
  | (delete_clusters) q cls where "s = SExtra (DeleteClusters q cls)"
  by (metis policy_extra.exhaust stmt.exhaust)

lemma pair_rows_all: "r \<in> set (pair_rows lh p cl t) \<Longrightarrow> co_leafHub r = lh \<and> co_policy r = p \<and> co_cluster r = cl"
  by (simp add: pair_rows_def)

lemma other_rows_exec: "other_rows lh (exec_policy_stmts lh ss t) = other_rows lh t"
proof (induction ss arbitrary: t)
  case (Cons s ss)
  have upd: "other_rows lh (update_where lh f t) = other_rows lh t" for f
    by (induction t) (auto simp: other_rows_def update_where_def split: option.splits)
  have flt: "other_rows lh (filter (\<lambda>r. \<not> (co_leafHub r = lh \<and> P r)) t) = other_rows lh t" for P
    by (induction t) (auto simp: other_rows_def)
  have ins: "other_rows lh (t @ map (row_of lh) rows) = other_rows lh t" for rows
    by (auto simp: other_rows_def row_of_def filter_empty_conv)
  have "other_rows lh (exec_policy_stmt lh s t) = other_rows lh t"
    by (cases s rule: policy_stmt_cases) (simp_all only: exec_policy_stmt.simps upd flt ins)
  with Cons show ?case by simp
qed simp

text \<open>The rows of a pair after one statement.\<close>

definition stmt_inserts :: "policy_stmt list \<Rightarrow> string \<Rightarrow> string \<Rightarrow> (string \<times> string \<times> string \<times> string) list" where
  "stmt_inserts ss p cl = filter (\<lambda>(q, c, _). q = p \<and> c = cl) (inserted_rows ss)"

definition stmt_deletes :: "policy_stmt list \<Rightarrow> string \<Rightarrow> string \<Rightarrow> bool" where
  "stmt_deletes ss p cl \<longleftrightarrow> p \<in> set (deleted_keys ss) \<or> cl \<in> set (extra_deletes (extras ss) p)"

definition stmt_states :: "policy_stmt list \<Rightarrow> string \<Rightarrow> string \<Rightarrow> string set" where
  "stmt_states ss p cl =
     {st. (p, st) \<in> set (updated_rows ss) \<or> (p, cl, st) \<in> set (extra_updates (extras ss))}"

lemma stmt_parts_Cons:
  "stmt_inserts (s # ss) p cl = stmt_inserts [s] p cl @ stmt_inserts ss p cl"
  "stmt_deletes (s # ss) p cl \<longleftrightarrow> stmt_deletes [s] p cl \<or> stmt_deletes ss p cl"
  "stmt_states (s # ss) p cl = stmt_states [s] p cl \<union> stmt_states ss p cl"
  by (auto simp: stmt_inserts_def stmt_deletes_def stmt_states_def)

lemma pair_rows_stmt_insert_delete:
  assumes "stmt_states [s] p cl = {}"
  shows "pair_rows lh p cl (exec_policy_stmt lh s t) =
    (if stmt_deletes [s] p cl then [] else pair_rows lh p cl t @ map (row_of lh) (stmt_inserts [s] p cl))"
proof (cases s rule: policy_stmt_cases)
  case (update rows)
  then have "map_of rows p = None" using assms by (auto simp: stmt_states_def map_of_eq_None_iff)
  then have "pair_rows lh p cl (update_where lh (\<lambda>r. map_of rows (co_policy r)) t) = pair_rows lh p cl t"
    using pair_rows_update_where [where g = None] by simp
  with update show ?thesis by (simp add: stmt_inserts_def stmt_deletes_def)
next
  case (update_clusters rows)
  then have "map_of (cluster_states rows) (p, cl) = None"
    using assms by (force simp: stmt_states_def cluster_states_def map_of_eq_None_iff)
  then have "pair_rows lh p cl (update_where lh
      (\<lambda>r. map_of (cluster_states rows) (co_policy r, co_cluster r)) t) = pair_rows lh p cl t"
    using pair_rows_update_where [where g = None] by simp
  with update_clusters show ?thesis by (simp add: stmt_inserts_def stmt_deletes_def)
next
  case (delete ps)
  have "pair_rows lh p cl (exec_policy_stmt lh s t) =
      filter (\<lambda>r. co_policy r \<notin> set ps) (pair_rows lh p cl t)"
    using delete by (simp add: pair_rows_filter)
  moreover have "filter (\<lambda>r. co_policy r \<notin> set ps) (pair_rows lh p cl t) =
      (if p \<in> set ps then [] else pair_rows lh p cl t)"
    by (auto simp: filter_empty_conv filter_id_conv dest: pair_rows_all)
  ultimately show ?thesis using delete by (simp add: stmt_inserts_def stmt_deletes_def)
next
  case (delete_clusters q cls)
  have "pair_rows lh p cl (exec_policy_stmt lh s t) =
      filter (\<lambda>r. co_policy r = q \<longrightarrow> co_cluster r \<notin> set cls) (pair_rows lh p cl t)"
    unfolding delete_clusters by (induction t) (auto simp: pair_rows_def)
  moreover have "filter (\<lambda>r. co_policy r = q \<longrightarrow> co_cluster r \<notin> set cls) (pair_rows lh p cl t) =
      (if p = q \<and> cl \<in> set cls then [] else pair_rows lh p cl t)"
    by (auto simp: filter_empty_conv filter_id_conv dest: pair_rows_all)
  ultimately show ?thesis using delete_clusters by (auto simp: stmt_inserts_def stmt_deletes_def)
qed (simp add: pair_rows_insert stmt_inserts_def stmt_deletes_def)

lemma pair_rows_insert_delete:
  assumes "stmt_states ss p cl = {}" "stmt_inserts ss p cl = [] \<or> \<not> stmt_deletes ss p cl"
  shows "pair_rows lh p cl (exec_policy_stmts lh ss t) =
    (if stmt_deletes ss p cl then [] else pair_rows lh p cl t @ map (row_of lh) (stmt_inserts ss p cl))"
  using assms
proof (induction ss arbitrary: t)
  case Nil
  then show ?case by (simp add: stmt_inserts_def stmt_deletes_def)
next
  case (Cons s ss)
  have s: "stmt_states [s] p cl = {}" "stmt_states ss p cl = {}"
    "stmt_inserts ss p cl = [] \<or> \<not> stmt_deletes ss p cl"
    using Cons.prems unfolding stmt_parts_Cons [of s ss] by auto
  show ?case
    using Cons.IH [OF s(2,3), of "exec_policy_stmt lh s t"] Cons.prems(2)
    unfolding stmt_parts_Cons [of s ss] exec_policy_simps pair_rows_stmt_insert_delete [OF s(1)]
    by auto
qed

lemma pair_rows_stmt_update:
  assumes "stmt_inserts [s] p cl = []" "\<not> stmt_deletes [s] p cl" "stmt_states [s] p cl \<subseteq> {st}"
  shows "pair_rows lh p cl (exec_policy_stmt lh s t) =
    (if stmt_states [s] p cl = {} then pair_rows lh p cl t
     else map (\<lambda>r. r\<lparr>co_compliance := st\<rparr>) (pair_rows lh p cl t))"
proof (cases "stmt_states [s] p cl = {}")
  case True
  with pair_rows_stmt_insert_delete [OF True] assms show ?thesis by simp
next
  case False
  show ?thesis
  proof (cases s rule: policy_stmt_cases)
    case (update rows)
    with False obtain st' where "(p, st') \<in> set rows" by (auto simp: stmt_states_def)
    then have "map_of rows p \<noteq> None" by (auto simp: map_of_eq_None_iff intro: rev_image_eqI)
    then obtain y where y: "map_of rows p = Some y" by blast
    with assms(3) update have "y = st" by (auto simp: stmt_states_def dest: map_of_SomeD)
    with y have "map_of rows p = Some st" by simp
    then have "pair_rows lh p cl (update_where lh (\<lambda>r. map_of rows (co_policy r)) t) =
        map (\<lambda>r. r\<lparr>co_compliance := st\<rparr>) (pair_rows lh p cl t)"
      using pair_rows_update_where [where g = "Some st"] by simp
    with update False show ?thesis by simp
  next
    case (update_clusters rows)
    with False obtain st' where "(p, cl, st') \<in> set rows" by (auto simp: stmt_states_def)
    then have "((p, cl), st') \<in> set (cluster_states rows)" by (force simp: cluster_states_def)
    then have "map_of (cluster_states rows) (p, cl) \<noteq> None"
      by (auto simp: map_of_eq_None_iff intro: rev_image_eqI)
    then obtain y where y: "map_of (cluster_states rows) (p, cl) = Some y" by blast
    have "(p, cl, y) \<in> set rows" using map_of_SomeD [OF y] by (auto simp: cluster_states_def)
    with assms(3) update_clusters have "y = st" by (auto simp: stmt_states_def)
    with y have "map_of (cluster_states rows) (p, cl) = Some st" by simp
    then have "pair_rows lh p cl (update_where lh
        (\<lambda>r. map_of (cluster_states rows) (co_policy r, co_cluster r)) t) =
        map (\<lambda>r. r\<lparr>co_compliance := st\<rparr>) (pair_rows lh p cl t)"
      using pair_rows_update_where [where g = "Some st"] by simp
    with update_clusters False show ?thesis by simp
  qed (use False in \<open>simp_all add: stmt_states_def\<close>)
qed

lemma pair_rows_update:
  assumes "inserted_rows ss = []" "\<not> stmt_deletes ss p cl" "stmt_states ss p cl \<subseteq> {st}"
  shows "pair_rows lh p cl (exec_policy_stmts lh ss t) =
    (if stmt_states ss p cl = {} then pair_rows lh p cl t
     else map (\<lambda>r. r\<lparr>co_compliance := st\<rparr>) (pair_rows lh p cl t))"
  using assms
proof (induction ss arbitrary: t)
  case Nil
  then show ?case by (simp add: stmt_states_def)
next
  case (Cons s ss)
  have s: "stmt_inserts [s] p cl = []" "\<not> stmt_deletes [s] p cl" "stmt_states [s] p cl \<subseteq> {st}"
    "\<not> stmt_deletes ss p cl" "stmt_states ss p cl \<subseteq> {st}"
    using Cons.prems unfolding stmt_parts_Cons(2,3) [of s ss] by (auto simp: stmt_inserts_def)
  have i: "inserted_rows ss = []" using Cons.prems(1) by (auto split: stmt.splits)
  show ?case
    using Cons.IH [OF i s(4,5), of "exec_policy_stmt lh s t"]
    unfolding stmt_parts_Cons(3) [of s ss] exec_policy_simps pair_rows_stmt_update [OF s(1-3)]
    by (auto simp: comp_def)
qed

end
