(* ===== verification/Compliance_Sync.thy ===== *)
theory Compliance_Sync
  imports Compliance_Table
begin

text \<open>
  The policy handlers on the compliance table: the maps the two queries build from its rows, and the
  rows after a run of each handler.
\<close>

section \<open>The queries\<close>

definition add_cluster :: "'set go_sets \<Rightarrow> (string \<times> 'set) list \<Rightarrow> compliance_row \<Rightarrow> (string \<times> 'set) list" where
  "add_cluster S m r = AList.update (co_policy r)
     (set_Add S (case map_of m (co_policy r) of None \<Rightarrow> set_NewSet S | Some found \<Rightarrow> found) (co_cluster r)) m"

lemma db_clusters_add:
  "sets_laws S members \<Longrightarrow> db_clusters members (add_cluster S m r) p =
     (if p = co_policy r then insert (co_cluster r) (db_clusters members m p) else db_clusters members m p)"
  by (auto simp: db_clusters_def add_cluster_def sets_laws_def update_conv' split: option.splits)

lemma db_maps_Nil [simp]:
  "db_clusters members [] p = {}" "db_non_compliant members [] p = {}" "db_unknown members [] p = {}"
  by (simp_all add: db_clusters_def db_non_compliant_def db_unknown_def)

lemma distinct_add_cluster: "distinct (map fst m) \<Longrightarrow> distinct (map fst (add_cluster S m r))"
  by (simp add: add_cluster_def distinct_update)

lemma compliance_query_result:
  assumes S: "sets_laws S members" and laws: "compliance_table_laws conn tbl"
  shows "\<exists>m. GetComplianceStatusByLeafHub conn S StatusSchema ComplianceTable lh d = Inr m \<and>
    distinct (map fst m) \<and> (\<forall>p. db_clusters members m p = {cl. pair_rows lh p cl (tbl d) \<noteq> []})"
proof -
  define rows where "rows = filter (\<lambda>r. co_leafHub r = lh) (tbl d)"
  have "fold_err (\<lambda>result scan.
      case (case scan of Inr [policyID, clusterName] \<Rightarrow> Inr (policyID, clusterName)
            | Inr _ \<Rightarrow> Inl errScan | Inl err \<Rightarrow> Inl err) of
        Inl err \<Rightarrow> Inl (compliance_read_error err)
      | Inr (policyID, clusterName) \<Rightarrow>
          (let policyClusters = (case map_of result policyID of
                 None \<Rightarrow> set_NewSet S | Some found \<Rightarrow> found)
           in Inr (AList.update policyID (set_Add S policyClusters clusterName) result)))
      m (map (\<lambda>r. Inr [co_policy r, co_cluster r]) rows) = Inr (foldl (add_cluster S) m rows)" for m
    by (induction rows arbitrary: m) (simp_all add: add_cluster_def Let_def)
  then have "GetComplianceStatusByLeafHub conn S StatusSchema ComplianceTable lh d =
      Inr (foldl (add_cluster S) [] rows)"
    using laws by (simp add: GetComplianceStatusByLeafHub_def compliance_table_laws_def Let_def
        case_prod_beta rows_def)
  moreover have "distinct (map fst (foldl (add_cluster S) [] rows))"
    by (induction rows rule: rev_induct) (simp_all add: distinct_add_cluster)
  moreover have "db_clusters members (foldl (add_cluster S) [] xs) p =
      {co_cluster r | r. r \<in> set xs \<and> co_policy r = p}" for xs p
    by (induction xs rule: rev_induct) (auto simp: db_clusters_add [OF S])
  then have "db_clusters members (foldl (add_cluster S) [] rows) p = {cl. pair_rows lh p cl (tbl d) \<noteq> []}" for p
    by (auto simp: rows_def pair_rows_def filter_empty_conv)
  ultimately show ?thesis by blast
qed

definition add_status ::
  "'set go_sets \<Rightarrow> (string \<times> 'set non_compliant_cluster_sets) list \<Rightarrow> compliance_row \<Rightarrow>
   (string \<times> 'set non_compliant_cluster_sets) list" where
  "add_status S m r =
     (let sets = (case map_of m (co_policy r) of None \<Rightarrow> NewNonCompliantClusterSets S | Some found \<Rightarrow> found)
      in AList.update (co_policy r)
           (if co_compliance r = NonCompliant then AddNonCompliantCluster S (co_cluster r) sets
            else if co_compliance r = Unknown then AddUnknownCluster S (co_cluster r) sets else sets) m)"

lemma NonCompliant_Unknown [simp]: "NonCompliant \<noteq> Unknown" "Unknown \<noteq> NonCompliant"
  "Compliant \<noteq> NonCompliant" "NonCompliant \<noteq> Compliant" "Compliant \<noteq> Unknown" "Unknown \<noteq> Compliant"
  by (simp_all add: NonCompliant_def Unknown_def Compliant_def)

lemma db_status_add:
  assumes "sets_laws S members"
  shows "db_non_compliant members (add_status S m r) p =
      (if p = co_policy r \<and> co_compliance r = NonCompliant
       then insert (co_cluster r) (db_non_compliant members m p) else db_non_compliant members m p)"
    and "db_unknown members (add_status S m r) p =
      (if p = co_policy r \<and> co_compliance r = Unknown
       then insert (co_cluster r) (db_unknown members m p) else db_unknown members m p)"
    and "fst ` set (add_status S m r) = insert (co_policy r) (fst ` set m)"
  using assms
  by (auto simp: db_non_compliant_def db_unknown_def add_status_def Let_def sets_laws_def update_conv'
      NewNonCompliantClusterSets_def AddNonCompliantCluster_def AddUnknownCluster_def
      dom_update [unfolded dom_map_of_conv_image_fst] split: option.splits)

lemma non_compliant_query_result:
  assumes S: "sets_laws S members" and laws: "compliance_table_laws conn tbl"
  shows "\<exists>m. GetNonCompliantClustersByLeafHub conn S StatusSchema ComplianceTable lh d = Inr m \<and>
    (\<forall>p. db_non_compliant members m p =
       {cl. \<exists>r \<in> set (pair_rows lh p cl (tbl d)). co_compliance r = NonCompliant}) \<and>
    (\<forall>p. db_unknown members m p =
       {cl. \<exists>r \<in> set (pair_rows lh p cl (tbl d)). co_compliance r = Unknown}) \<and>
    (\<forall>p. p \<in> fst ` set m \<longleftrightarrow>
       (\<exists>cl. \<exists>r \<in> set (pair_rows lh p cl (tbl d)). co_compliance r \<noteq> Compliant))"
proof -
  define rows where "rows = filter (\<lambda>r. co_leafHub r = lh \<and> co_compliance r \<noteq> Compliant) (tbl d)"
  let ?m = "foldl (add_status S) [] rows"
  have "fold_err (\<lambda>result scan.
      case (case scan of
              Inr [policyID, clusterName, compliance] \<Rightarrow> Inr (policyID, clusterName, compliance)
            | Inr _ \<Rightarrow> Inl errScan | Inl err \<Rightarrow> Inl err) of
        Inl err \<Rightarrow> Inl (compliance_read_error err)
      | Inr (policyID, clusterName, compliance) \<Rightarrow>
          (let sets = (case map_of result policyID of
                 None \<Rightarrow> NewNonCompliantClusterSets S | Some found \<Rightarrow> found);
               sets' = (if compliance = NonCompliant then AddNonCompliantCluster S clusterName sets
                        else if compliance = Unknown then AddUnknownCluster S clusterName sets
                        else sets)
           in Inr (AList.update policyID sets' result)))
      m (map (\<lambda>r. Inr [co_policy r, co_cluster r, co_compliance r]) rows) =
      Inr (foldl (add_status S) m rows)" for m
    by (induction rows arbitrary: m) (simp_all add: add_status_def Let_def)
  then have "GetNonCompliantClustersByLeafHub conn S StatusSchema ComplianceTable lh d = Inr ?m"
    using laws by (simp add: GetNonCompliantClustersByLeafHub_def compliance_table_laws_def Let_def
        case_prod_beta rows_def)
  moreover have "db_non_compliant members (foldl (add_status S) [] xs) p =
      {co_cluster r | r. r \<in> set xs \<and> co_policy r = p \<and> co_compliance r = NonCompliant}" for xs p
    by (induction xs rule: rev_induct) (auto simp: db_status_add [OF S])
  then have "db_non_compliant members ?m p =
      {cl. \<exists>r \<in> set (pair_rows lh p cl (tbl d)). co_compliance r = NonCompliant}" for p
    by (auto simp: rows_def pair_rows_def)
  moreover have "db_unknown members (foldl (add_status S) [] xs) p =
      {co_cluster r | r. r \<in> set xs \<and> co_policy r = p \<and> co_compliance r = Unknown}" for xs p
    by (induction xs rule: rev_induct) (auto simp: db_status_add [OF S])
  then have "db_unknown members ?m p =
      {cl. \<exists>r \<in> set (pair_rows lh p cl (tbl d)). co_compliance r = Unknown}" for p
    by (auto simp: rows_def pair_rows_def)
  moreover have "fst ` set (foldl (add_status S) [] xs) = co_policy ` set xs" for xs
    by (induction xs rule: rev_induct) (simp_all add: db_status_add [OF S])
  then have "p \<in> fst ` set ?m \<longleftrightarrow>
      (\<exists>cl. \<exists>r \<in> set (pair_rows lh p cl (tbl d)). co_compliance r \<noteq> Compliant)" for p
    by (auto simp: rows_def pair_rows_def)
  ultimately show ?thesis by blast
qed

section \<open>After a clusters per policy bundle\<close>

definition listed :: "clusters_per_policy list \<Rightarrow> string \<Rightarrow> string \<Rightarrow> bool" where
  "listed ps q cl \<longleftrightarrow> (\<exists>p \<in> set ps. cpp_PolicyID p = q \<and> cl \<in> set (cpp_Clusters p))"

text \<open>
  Each listed pair has its rows, or one new row in state unknown when it had none; no other pair of the
  leaf hub has a row; other leaf hubs are untouched.
\<close>

definition pairs_synced ::
  "string \<Rightarrow> clusters_per_policy list \<Rightarrow> compliance_row list \<Rightarrow> compliance_row list \<Rightarrow> bool" where
  "pairs_synced lh ps t t' \<longleftrightarrow>
     (\<forall>q cl. pair_rows lh q cl t' =
        (if \<not> listed ps q cl then []
         else if pair_rows lh q cl t = [] then [row_of lh (q, cl, ErrorNone, Unknown)]
         else pair_rows lh q cl t)) \<and>
     other_rows lh t' = other_rows lh t"

lemma filter_new_rows:
  assumes "distinct (cpp_Clusters p)"
  shows "filter (\<lambda>(q, c, _). q = k \<and> c = cl) (new_rows known p) =
    (if cpp_PolicyID p = k \<and> cl \<in> set (cpp_Clusters p) \<and> cl \<notin> known k
     then [(k, cl, ErrorNone, Unknown)] else [])"
proof -
  have "filter (\<lambda>x. x = cl \<and> x \<notin> known k) xs = (if cl \<in> set xs \<and> cl \<notin> known k then [cl] else [])"
    if "distinct xs" for xs
    using that by (induction xs) auto
  from this [OF assms] show ?thesis
    by (auto simp: new_rows_def filter_map comp_def filter_filter conj_commute filter_empty_conv)
qed

lemma filter_all_new_rows:
  assumes "distinct (map cpp_PolicyID ps)" "\<forall>p \<in> set ps. distinct (cpp_Clusters p)"
  shows "filter (\<lambda>(q, c, _). q = k \<and> c = cl) (concat (map (new_rows known) ps)) =
    (if listed ps k cl \<and> cl \<notin> known k then [(k, cl, ErrorNone, Unknown)] else [])"
  using assms
proof (induction ps)
  case Nil
  then show ?case by (simp add: listed_def)
next
  case (Cons p ps)
  have "\<not> (cpp_PolicyID p = k \<and> listed ps k cl)" using Cons.prems(1) by (auto simp: listed_def image_iff)
  moreover have "listed (p # ps) k cl \<longleftrightarrow> (cpp_PolicyID p = k \<and> cl \<in> set (cpp_Clusters p)) \<or> listed ps k cl"
    by (auto simp: listed_def)
  ultimately show ?case using Cons filter_new_rows [of p k cl known] by auto
qed

lemma exec_pairs_synced:
  assumes ps: "distinct (map cpp_PolicyID ps)" "\<forall>p \<in> set ps. distinct (cpp_Clusters p)"
    and known: "\<And>p. db_clusters members m p = {cl. pair_rows lh p cl t \<noteq> []}"
    and ss: "inserted_rows ss = concat (map (new_rows (db_clusters members m)) ps)"
      "updated_rows ss = []" "extra_updates (extras ss) = []"
      "deleted_keys ss = map fst (go_range rng (gone_policies m (cpp_PolicyID ` set ps)))"
      "extra_deletes (extras ss) = del"
    and del: "\<forall>p \<in> set ps. set (del (cpp_PolicyID p)) =
        db_clusters members m (cpp_PolicyID p) - set (cpp_Clusters p)"
      "\<forall>k. k \<notin> cpp_PolicyID ` set ps \<longrightarrow> del k = []"
  shows "pairs_synced lh ps t (exec_policy_stmts lh ss t)"
proof -
  have st: "stmt_states ss q cl = {}" for q cl by (simp add: stmt_states_def ss)
  have dk: "q \<in> set (deleted_keys ss) \<longleftrightarrow> q \<in> fst ` set m \<and> q \<notin> cpp_PolicyID ` set ps" for q
    by (simp add: ss set_gone_policies)
  have ins: "stmt_inserts ss q cl =
      (if listed ps q cl \<and> pair_rows lh q cl t = [] then [(q, cl, ErrorNone, Unknown)] else [])" for q cl
    unfolding stmt_inserts_def ss filter_all_new_rows [OF ps] by (simp add: known)
  have "pair_rows lh q cl (exec_policy_stmts lh ss t) =
      (if \<not> listed ps q cl then []
       else if pair_rows lh q cl t = [] then [row_of lh (q, cl, ErrorNone, Unknown)]
       else pair_rows lh q cl t)" for q cl
  proof (cases "listed ps q cl")
    case True
    then obtain p where p: "p \<in> set ps" "cpp_PolicyID p = q" "cl \<in> set (cpp_Clusters p)"
      by (auto simp: listed_def)
    then have "\<not> stmt_deletes ss q cl" using del(1) dk [of q] by (auto simp: stmt_deletes_def ss(5))
    then show ?thesis using pair_rows_insert_delete [OF st, of q cl lh t] True by (simp add: ins)
  next
    case False
    have "stmt_deletes ss q cl \<or> pair_rows lh q cl t = []"
    proof (cases "q \<in> cpp_PolicyID ` set ps")
      case True
      then obtain p where p: "p \<in> set ps" "cpp_PolicyID p = q" by auto
      with False have "cl \<notin> set (cpp_Clusters p)" by (auto simp: listed_def)
      with p del(1) known [of q] show ?thesis by (auto simp: stmt_deletes_def ss(5))
    next
      case not_in: False
      show ?thesis
      proof (cases "q \<in> fst ` set m")
        case True
        with not_in dk show ?thesis by (auto simp: stmt_deletes_def)
      next
        case False
        then have "db_clusters members m q = {}" by (simp add: db_clusters_def map_of_eq_None_iff [THEN iffD2])
        with known [of q] show ?thesis by auto
      qed
    qed
    with False show ?thesis using pair_rows_insert_delete [OF st, of q cl lh t] by (auto simp: ins)
  qed
  then show ?thesis by (simp add: pairs_synced_def other_rows_exec)
qed

section \<open>After a compliance bundle\<close>

definition reported_state :: "policy_compliance_status list \<Rightarrow> string \<Rightarrow> string \<Rightarrow> string" where
  "reported_state ps q cl =
     (if \<exists>p \<in> set ps. pcs_PolicyID p = q \<and> cl \<in> set (pcs_NonCompliantClusters p) then NonCompliant
      else if \<exists>p \<in> set ps. pcs_PolicyID p = q \<and> cl \<in> set (pcs_UnknownComplianceClusters p) then Unknown
      else Compliant)"

text \<open>Every row of the leaf hub has the state the bundle gives its pair; nothing else changes.\<close>

definition states_synced ::
  "string \<Rightarrow> policy_compliance_status list \<Rightarrow> compliance_row list \<Rightarrow> compliance_row list \<Rightarrow> bool" where
  "states_synced lh ps t t' \<longleftrightarrow>
     (\<forall>q cl. pair_rows lh q cl t' =
        map (\<lambda>r. r\<lparr>co_compliance := reported_state ps q cl\<rparr>) (pair_rows lh q cl t)) \<and>
     other_rows lh t' = other_rows lh t"

lemma reported_state_eq:
  assumes "distinct (map pcs_PolicyID ps)" "p \<in> set ps"
  shows "reported_state ps (pcs_PolicyID p) cl =
    (if cl \<in> set (pcs_NonCompliantClusters p) then NonCompliant
     else if cl \<in> set (pcs_UnknownComplianceClusters p) then Unknown else Compliant)"
proof -
  have "(\<exists>p' \<in> set ps. pcs_PolicyID p' = pcs_PolicyID p \<and> P p') \<longleftrightarrow> P p" for P
    using assms by (auto simp: distinct_map dest: inj_onD)
  then show ?thesis by (simp add: reported_state_def)
qed

lemma reported_state_other: "q \<notin> pcs_PolicyID ` set ps \<Longrightarrow> reported_state ps q cl = Compliant"
  by (auto simp: reported_state_def)

lemma exec_states_synced:
  assumes ps: "distinct (map pcs_PolicyID ps)"
      "\<forall>p \<in> set ps. set (pcs_NonCompliantClusters p) \<inter> set (pcs_UnknownComplianceClusters p) = {}"
    and nc: "\<And>p. db_non_compliant members m p =
        {cl. \<exists>r \<in> set (pair_rows lh p cl t). co_compliance r = NonCompliant}"
    and unk: "\<And>p. db_unknown members m p =
        {cl. \<exists>r \<in> set (pair_rows lh p cl t). co_compliance r = Unknown}"
    and dom: "\<And>p. p \<in> fst ` set m \<longleftrightarrow>
        (\<exists>cl. \<exists>r \<in> set (pair_rows lh p cl t). co_compliance r \<noteq> Compliant)"
    and one: "\<And>q cl. length (pair_rows lh q cl t) \<le> 1"
    and enum: "\<And>r. r \<in> set t \<Longrightarrow> co_compliance r \<in> {Compliant, NonCompliant, Unknown}"
    and ss: "inserted_rows ss = []" "deleted_keys ss = []" "extra_deletes (extras ss) = (\<lambda>_. [])"
      "updated_rows ss = map (\<lambda>x. (fst x, Compliant)) (go_range rng (gone_policies m (pcs_PolicyID ` set ps)))"
      "extra_updates (extras ss) = ups"
    and ups: "\<forall>q cl st. (q, cl, st) \<in> set ups \<longleftrightarrow> (\<exists>p \<in> set ps. q = pcs_PolicyID p \<and>
        status_update (db_non_compliant members m q) (db_unknown members m q) p cl st)"
  shows "states_synced lh ps t (exec_policy_stmts lh ss t)"
proof -
  have nodel: "\<not> stmt_deletes ss q cl" for q cl by (simp add: stmt_deletes_def ss)
  have pol: "(q, st) \<in> set (updated_rows ss) \<longleftrightarrow>
      st = Compliant \<and> q \<in> fst ` set m \<and> q \<notin> pcs_PolicyID ` set ps" for q st
    using set_gone_policies [of m "pcs_PolicyID ` set ps"] by (auto simp: ss(4) image_iff set_eq_iff)
  have writes: "st = reported_state ps q cl" if st: "st \<in> stmt_states ss q cl" for q cl st
  proof (cases "q \<in> pcs_PolicyID ` set ps")
    case False
    with st pol [of q st] ups show ?thesis
      by (auto simp: stmt_states_def ss(5) reported_state_other)
  next
    case True
    with st pol [of q st] ups obtain p where p: "p \<in> set ps" "q = pcs_PolicyID p"
        "status_update (db_non_compliant members m q) (db_unknown members m q) p cl st"
      by (auto simp: stmt_states_def ss(5))
    have "set (pcs_NonCompliantClusters p) \<inter> set (pcs_UnknownComplianceClusters p) = {}"
      using ps(2) p(1) by blast
    with p show ?thesis by (auto simp: status_update_def reported_state_eq [OF ps(1)])
  qed
  have kept: "co_compliance r = reported_state ps q cl"
    if r: "pair_rows lh q cl t = [r]" and none: "stmt_states ss q cl = {}" for q cl r
  proof (cases "q \<in> pcs_PolicyID ` set ps")
    case False
    with none pol have "q \<notin> fst ` set m" by (auto simp: stmt_states_def)
    with dom [of q] r have "co_compliance r = Compliant" by (metis list.set_intros(1))
    with False show ?thesis by (simp add: reported_state_other)
  next
    case True
    then obtain p where p: "p \<in> set ps" "q = pcs_PolicyID p" by blast
    have st: "cl \<in> db_non_compliant members m q \<longleftrightarrow> co_compliance r = NonCompliant"
        "cl \<in> db_unknown members m q \<longleftrightarrow> co_compliance r = Unknown"
      by (simp_all add: nc unk r)
    have "r \<in> set t" using r unfolding pair_rows_def by (metis filter_is_subset list.set_intros(1) subsetD)
    then have e: "co_compliance r \<in> {Compliant, NonCompliant, Unknown}" by (rule enum)
    have "\<not> status_update (db_non_compliant members m q) (db_unknown members m q) p cl st" for st
      using none ups p by (auto simp: stmt_states_def ss(5))
    with st e show ?thesis
      unfolding p(2) reported_state_eq [OF ps(1) p(1)] status_update_def by auto
  qed
  have "pair_rows lh q cl (exec_policy_stmts lh ss t) =
      map (\<lambda>r. r\<lparr>co_compliance := reported_state ps q cl\<rparr>) (pair_rows lh q cl t)" for q cl
  proof -
    have "stmt_states ss q cl \<subseteq> {reported_state ps q cl}" using writes by blast
    note run = pair_rows_update [OF ss(1) nodel this, of lh t]
    show ?thesis
    proof (cases "stmt_states ss q cl = {} \<and> pair_rows lh q cl t \<noteq> []")
      case True
      with one [of q cl] obtain r where r: "pair_rows lh q cl t = [r]"
        by (cases "pair_rows lh q cl t") auto
      with kept True have "r\<lparr>co_compliance := reported_state ps q cl\<rparr> = r" by auto
      with r run True show ?thesis by simp
    qed (use run in auto)
  qed
  then show ?thesis by (simp add: states_synced_def other_rows_exec)
qed

section \<open>The handlers on the table\<close>

text \<open>The end both handlers share: a built batch is sent.\<close>

lemma send_policy_statements:
  assumes laws: "compliance_table_laws conn tbl"
    and sb: "SendBatch conn (PgxBatch (map (render (pb_layout StatusSchema ComplianceTable lh)) ss)) d = (err, d')"
  shows "tbl d' = (if err = None then exec_policy_stmts lh ss (tbl d) else tbl d)"
proof (cases "ss = []")
  case False
  let ?q = "map (render (pb_layout StatusSchema ComplianceTable lh)) ss"
  obtain results d'' where cs: "conn_SendBatch conn ?q d = (results, d'')" by fastforce
  then have "tbl d'' = (if \<forall>i < length ss. results i = None then exec_policy_stmts lh ss (tbl d) else tbl d)"
    using laws unfolding compliance_table_laws_def by blast
  moreover have "?q \<noteq> []" "length ?q = length ss" using False by simp_all
  ultimately show ?thesis using SendBatch_cases [OF _ cs] sb by (auto split: if_splits)
qed (use sb in auto)

lemma send_policy_batch:
  assumes "compliance_table_laws conn tbl"
    and "bind_go rows build = Inr (PgxBatch (map (render (pb_layout StatusSchema ComplianceTable lh)) ss))"
  shows "\<exists>err d'. bind_go rows (\<lambda>b. send_built build (SendBatch conn) b d) = Inr (err, d') \<and>
    (if err = None then tbl d' = exec_policy_stmts lh ss (tbl d) else tbl d' = tbl d)"
proof -
  obtain b where "rows = Inr b" "build b = Inr (PgxBatch (map (render (pb_layout StatusSchema ComplianceTable lh)) ss))"
    using assms(2) by (auto simp: bind_go_eq_Inr)
  moreover obtain err d' where sb:
    "SendBatch conn (PgxBatch (map (render (pb_layout StatusSchema ComplianceTable lh)) ss)) d = (err, d')" by fastforce
  ultimately show ?thesis
    using send_policy_statements [OF assms(1) sb] by (cases err) (simp_all add: send_built_def)
qed

text \<open>Whatever the query returned, the batch has these statements.\<close>

lemma clusters_per_policy_statements:
  assumes S: "sets_laws S members"
    and b: "cpb_Objects b = map Some ps" "distinct (map cpp_PolicyID ps)"
      "\<forall>p \<in> set ps. distinct (cpp_Clusters p)"
  obtains ss del where
    "bind_go (clusters_per_policy_rows (policies_db conn S rng) S rng' (ClustersPerPolicyBundle b)
        StatusSchema ComplianceTable m) (pdb_Build (policies_db conn S rng)) =
      Inr (PgxBatch (map (render (pb_layout StatusSchema ComplianceTable (cpb_LeafHubName b))) ss))"
    "inserted_rows ss = concat (map (new_rows (db_clusters members m)) ps)"
    "updated_rows ss = []" "extra_updates (extras ss) = []"
    "deleted_keys ss = map fst (go_range rng' (gone_policies m (cpp_PolicyID ` set ps)))"
    "extra_deletes (extras ss) = del"
    "\<forall>p \<in> set ps. set (del (cpp_PolicyID p)) = db_clusters members m (cpp_PolicyID p) - set (cpp_Clusters p)"
    "\<forall>k. k \<notin> cpp_PolicyID ` set ps \<longrightarrow> del k = []"
proof -
  let ?lh = "cpb_LeafHubName b"
  let ?gone = "go_range rng' (gone_policies m (cpp_PolicyID ` set ps))"
  obtain b' b'' q del where 1:
    "fold_go (handle_policy_object S pb_Insert pb_DeleteClusterStatus)
       (NewPoliciesBatchBuilder StatusSchema ComplianceTable ?lh, m) (map ObjClusters ps) =
       Inr (b', gone_policies m (cpp_PolicyID ` set ps))"
    "fold_go (\<lambda>b (p, _). pb_DeletePolicy p b) b' ?gone = Inr b''" "pb_Build rng b'' = Inr q"
    "pb_carries StatusSchema ComplianceTable ?lh q \<lparr>pc_inserted = concat (map (new_rows (db_clusters members m)) ps),
      pc_updatedPolicies = [], pc_updatedClusters = [], pc_deletedPolicies = map fst ?gone,
      pc_deletedClusters = del\<rparr>"
    and del: "\<forall>p \<in> set ps. set (del (cpp_PolicyID p)) =
        db_clusters members m (cpp_PolicyID p) - set (cpp_Clusters p)"
      "\<forall>k. k \<notin> cpp_PolicyID ` set ps \<longrightarrow> del k = []"
    using pb.clusters_per_policy_batch [OF S pb_holds_new [of StatusSchema ComplianceTable ?lh] b(2,3), where m = m and rng = rng' and rnga = rng]
    by (elim exE conjE) (rule that)
  obtain ss where ss: "q = map (render (pb_layout StatusSchema ComplianceTable ?lh)) ss"
      "inserted_rows ss = concat (map (new_rows (db_clusters members m)) ps)"
      "updated_rows ss = []" "extra_updates (extras ss) = []" "deleted_keys ss = map fst ?gone"
      "extra_deletes (extras ss) = del"
    using 1(4) by (auto simp: pb_carries_def policy_changes_of_def)
  have obj: "GetObjects (ClustersPerPolicyBundle b) = map ObjClusters ps" by (simp add: b(1))
  have "bind_go (clusters_per_policy_rows (policies_db conn S rng) S rng' (ClustersPerPolicyBundle b)
        StatusSchema ComplianceTable m) (pdb_Build (policies_db conn S rng)) = Inr (PgxBatch q)"
    using 1(1-3) unfolding clusters_per_policy_rows_def obj by (simp add: policies_db_def)
  then show ?thesis unfolding ss(1) by (rule that) (rule ss(2-6) del)+
qed

lemma clusters_per_policy_handler_syncs:
  assumes S: "sets_laws S members" and laws: "compliance_table_laws conn tbl"
    and b: "cpb_Objects b = map Some ps" "distinct (map cpp_PolicyID ps)"
      "\<forall>p \<in> set ps. distinct (cpp_Clusters p)"
  shows "\<exists>err d'. handleClustersPerPolicyBundle (policies_db conn S rng) S rng'
      (ClustersPerPolicyBundle b) StatusSchema ComplianceTable d = Inr (err, d') \<and>
    (if err = None then pairs_synced (cpb_LeafHubName b) ps (tbl d) (tbl d') else tbl d' = tbl d)"
proof -
  obtain m where m: "GetComplianceStatusByLeafHub conn S StatusSchema ComplianceTable (cpb_LeafHubName b) d = Inr m"
      "\<And>p. db_clusters members m p = {cl. pair_rows (cpb_LeafHubName b) p cl (tbl d) \<noteq> []}"
    using compliance_query_result [OF S laws, of "cpb_LeafHubName b" d] by blast
  show ?thesis
  proof (rule clusters_per_policy_statements [OF S b, of conn rng rng' m])
    fix ss del
    assume batch: "bind_go (clusters_per_policy_rows (policies_db conn S rng) S rng' (ClustersPerPolicyBundle b)
          StatusSchema ComplianceTable m) (pdb_Build (policies_db conn S rng)) =
        Inr (PgxBatch (map (render (pb_layout StatusSchema ComplianceTable (cpb_LeafHubName b))) ss))"
      and ss: "inserted_rows ss = concat (map (new_rows (db_clusters members m)) ps)"
        "updated_rows ss = []" "extra_updates (extras ss) = []"
        "deleted_keys ss = map fst (go_range rng' (gone_policies m (cpp_PolicyID ` set ps)))"
        "extra_deletes (extras ss) = del"
      and del: "\<forall>p \<in> set ps. set (del (cpp_PolicyID p)) =
          db_clusters members m (cpp_PolicyID p) - set (cpp_Clusters p)"
        "\<forall>k. k \<notin> cpp_PolicyID ` set ps \<longrightarrow> del k = []"
    have run: "handleClustersPerPolicyBundle (policies_db conn S rng) S rng' (ClustersPerPolicyBundle b)
        StatusSchema ComplianceTable d =
      bind_go (clusters_per_policy_rows (policies_db conn S rng) S rng' (ClustersPerPolicyBundle b)
          StatusSchema ComplianceTable m) (\<lambda>b. send_built (pdb_Build (policies_db conn S rng)) (SendBatch conn) b d)"
      using m(1) by (simp add: handleClustersPerPolicyBundle_def policies_db_def Let_def)
    show ?thesis
      using send_policy_batch [OF laws batch, of d] exec_pairs_synced [OF b(2,3) m(2) ss del]
      unfolding run by metis
  qed
qed

lemma compliance_status_statements:
  assumes S: "sets_laws S members"
    and b: "csb_Objects b = map Some ps" "distinct (map pcs_PolicyID ps)"
  obtains ss ups where
    "bind_go (compliance_status_rows (policies_db conn S rng) S rng' (ComplianceStatusBundle b)
        StatusSchema ComplianceTable m) (pdb_Build (policies_db conn S rng)) =
      Inr (PgxBatch (map (render (pb_layout StatusSchema ComplianceTable (csb_LeafHubName b))) ss))"
    "inserted_rows ss = []" "deleted_keys ss = []" "extra_deletes (extras ss) = (\<lambda>_. [])"
    "updated_rows ss = map (\<lambda>x. (fst x, Compliant)) (go_range rng' (gone_policies m (pcs_PolicyID ` set ps)))"
    "extra_updates (extras ss) = ups"
    "\<forall>q cl st. (q, cl, st) \<in> set ups \<longleftrightarrow> (\<exists>p \<in> set ps. q = pcs_PolicyID p \<and>
       status_update (db_non_compliant members m q) (db_unknown members m q) p cl st)"
proof -
  let ?lh = "csb_LeafHubName b"
  let ?gone = "go_range rng' (gone_policies m (pcs_PolicyID ` set ps))"
  obtain b' b'' q ups where 1:
    "fold_go (handle_status_object S pb_UpdateClusterCompliance)
       (NewPoliciesBatchBuilder StatusSchema ComplianceTable ?lh, m) (map ObjStatus ps) =
       Inr (b', gone_policies m (pcs_PolicyID ` set ps))"
    "fold_go (\<lambda>b (p, _). pb_UpdatePolicyCompliance p Compliant b) b' ?gone = Inr b''"
    "pb_Build rng b'' = Inr q"
    "pb_carries StatusSchema ComplianceTable ?lh q \<lparr>pc_inserted = [],
      pc_updatedPolicies = map (\<lambda>x. (fst x, Compliant)) ?gone, pc_updatedClusters = ups,
      pc_deletedPolicies = [], pc_deletedClusters = (\<lambda>_. [])\<rparr>"
    and ups: "\<forall>q cl st. (q, cl, st) \<in> set ups \<longleftrightarrow> (\<exists>p \<in> set ps. q = pcs_PolicyID p \<and>
       status_update (db_non_compliant members m q) (db_unknown members m q) p cl st)"
    using pb.compliance_batch [OF S pb_holds_new [of StatusSchema ComplianceTable ?lh] b(2), where m = m and rng = rng' and rnga = rng]
    by (elim exE conjE) (rule that)
  obtain ss where ss: "q = map (render (pb_layout StatusSchema ComplianceTable ?lh)) ss"
      "inserted_rows ss = []" "deleted_keys ss = []" "extra_deletes (extras ss) = (\<lambda>_. [])"
      "updated_rows ss = map (\<lambda>x. (fst x, Compliant)) ?gone" "extra_updates (extras ss) = ups"
    using 1(4) by (auto simp: pb_carries_def policy_changes_of_def)
  have obj: "GetObjects (ComplianceStatusBundle b) = map ObjStatus ps" by (simp add: b(1))
  have "bind_go (compliance_status_rows (policies_db conn S rng) S rng' (ComplianceStatusBundle b)
        StatusSchema ComplianceTable m) (pdb_Build (policies_db conn S rng)) = Inr (PgxBatch q)"
    using 1(1-3) unfolding compliance_status_rows_def obj by (simp add: policies_db_def)
  then show ?thesis unfolding ss(1) by (rule that) (rule ss(2-6) ups)+
qed

lemma compliance_handler_syncs:
  assumes S: "sets_laws S members" and laws: "compliance_table_laws conn tbl"
    and b: "csb_Objects b = map Some ps" "distinct (map pcs_PolicyID ps)"
      "\<forall>p \<in> set ps. set (pcs_NonCompliantClusters p) \<inter> set (pcs_UnknownComplianceClusters p) = {}"
    and one: "\<And>q cl. length (pair_rows (csb_LeafHubName b) q cl (tbl d)) \<le> 1"
    and enum: "\<And>r. r \<in> set (tbl d) \<Longrightarrow> co_compliance r \<in> {Compliant, NonCompliant, Unknown}"
  shows "\<exists>err d'. handleComplianceBundle (policies_db conn S rng) S rng'
      (ComplianceStatusBundle b) StatusSchema ComplianceTable d = Inr (err, d') \<and>
    (if err = None then states_synced (csb_LeafHubName b) ps (tbl d) (tbl d') else tbl d' = tbl d)"
proof -
  let ?lh = "csb_LeafHubName b"
  obtain m where m: "GetNonCompliantClustersByLeafHub conn S StatusSchema ComplianceTable ?lh d = Inr m"
      "\<And>p. db_non_compliant members m p =
         {cl. \<exists>r \<in> set (pair_rows ?lh p cl (tbl d)). co_compliance r = NonCompliant}"
      "\<And>p. db_unknown members m p =
         {cl. \<exists>r \<in> set (pair_rows ?lh p cl (tbl d)). co_compliance r = Unknown}"
      "\<And>p. p \<in> fst ` set m \<longleftrightarrow>
         (\<exists>cl. \<exists>r \<in> set (pair_rows ?lh p cl (tbl d)). co_compliance r \<noteq> Compliant)"
    using non_compliant_query_result [OF S laws, of ?lh d] by (elim exE conjE) (rule that, assumption, (erule spec)+)
  show ?thesis
  proof (rule compliance_status_statements [OF S b(1,2), of conn rng rng' m])
    fix ss ups
    assume batch: "bind_go (compliance_status_rows (policies_db conn S rng) S rng' (ComplianceStatusBundle b)
          StatusSchema ComplianceTable m) (pdb_Build (policies_db conn S rng)) =
        Inr (PgxBatch (map (render (pb_layout StatusSchema ComplianceTable ?lh)) ss))"
      and ss: "inserted_rows ss = []" "deleted_keys ss = []" "extra_deletes (extras ss) = (\<lambda>_. [])"
        "updated_rows ss = map (\<lambda>x. (fst x, Compliant)) (go_range rng' (gone_policies m (pcs_PolicyID ` set ps)))"
        "extra_updates (extras ss) = ups"
      and ups: "\<forall>q cl st. (q, cl, st) \<in> set ups \<longleftrightarrow> (\<exists>p \<in> set ps. q = pcs_PolicyID p \<and>
        status_update (db_non_compliant members m q) (db_unknown members m q) p cl st)"
    have run: "handleComplianceBundle (policies_db conn S rng) S rng' (ComplianceStatusBundle b)
        StatusSchema ComplianceTable d =
      bind_go (compliance_status_rows (policies_db conn S rng) S rng' (ComplianceStatusBundle b)
          StatusSchema ComplianceTable m) (\<lambda>b. send_built (pdb_Build (policies_db conn S rng)) (SendBatch conn) b d)"
      using m(1) by (simp add: handleComplianceBundle_def policies_db_def Let_def)
    show ?thesis
      using send_policy_batch [OF laws batch, of d]
        exec_states_synced [OF b(2,3) m(2-4) one enum ss ups]
      unfolding run by metis
  qed
qed

end
