(* ===== verification/Aggregated_Table.thy ===== *)
theory Aggregated_Table
  imports Policies_Syncer
begin

text \<open>
  The table of aggregated compliance: what is assumed of the database that holds it, and its rows after
  a run of the minimal compliance handler, which works policy by policy, without a batch.
\<close>

section \<open>Rows and statements\<close>

record aggregated_row =
  ag_leafHub :: string
  ag_policy :: string
  ag_applied :: int
  ag_nonCompliant :: int

definition agg_rows :: "string \<Rightarrow> string \<Rightarrow> aggregated_row list \<Rightarrow> aggregated_row list" where
  "agg_rows lh p t = filter (\<lambda>r. ag_leafHub r = lh \<and> ag_policy r = p) t"

definition other_agg_rows :: "string \<Rightarrow> aggregated_row list \<Rightarrow> aggregated_row list" where
  "other_agg_rows lh t = filter (\<lambda>r. ag_leafHub r \<noteq> lh) t"

definition agg_update :: "string \<Rightarrow> string \<Rightarrow> int \<Rightarrow> int \<Rightarrow> aggregated_row list \<Rightarrow> aggregated_row list" where
  "agg_update lh p applied non t = map (\<lambda>r. if ag_leafHub r = lh \<and> ag_policy r = p
     then r\<lparr>ag_applied := applied, ag_nonCompliant := non\<rparr> else r) t"

definition agg_insert :: "string \<Rightarrow> string \<Rightarrow> int \<Rightarrow> int \<Rightarrow> aggregated_row list \<Rightarrow> aggregated_row list" where
  "agg_insert lh p applied non t =
     t @ [\<lparr>ag_leafHub = lh, ag_policy = p, ag_applied = applied, ag_nonCompliant = non\<rparr>]"

definition agg_delete :: "string \<Rightarrow> string \<Rightarrow> aggregated_row list \<Rightarrow> aggregated_row list" where
  "agg_delete lh p t = filter (\<lambda>r. \<not> (ag_leafHub r = lh \<and> ag_policy r = p)) t"

text \<open>
  The statements of the client with a name for the column of the policy. The code uses two names: the
  query of the policies and the delete say \<open>policy_id\<close>, the other three say \<open>id\<close>.
\<close>

definition policy_ids_query_on :: "string \<Rightarrow> string \<Rightarrow> string \<Rightarrow> string" where
  "policy_ids_query_on col schema tableName =
     ''SELECT DISTINCT('' @ col @ '') FROM '' @ schema @ ''.'' @ tableName @ '' WHERE leaf_hub_name=$1''"

definition aggregated_exists_on :: "string \<Rightarrow> string \<Rightarrow> string \<Rightarrow> string" where
  "aggregated_exists_on col schema tableName =
     ''SELECT EXISTS(SELECT 1 from '' @ schema @ ''.'' @ tableName @ '' WHERE leaf_hub_name=$1 AND '' @
     nl @ tab @ tab @ tab @ col @ ''=$2)''"

definition aggregated_update_on :: "string \<Rightarrow> string \<Rightarrow> string \<Rightarrow> string" where
  "aggregated_update_on col schema tableName =
     ''UPDATE '' @ schema @ ''.'' @ tableName @ '' SET applied_clusters=$1,non_compliant_clusters=$2'' @
     nl @ tab @ tab @ tab @ '' WHERE leaf_hub_name=$3 AND '' @ col @ ''=$4''"

definition aggregated_insert_on :: "string \<Rightarrow> string \<Rightarrow> string \<Rightarrow> string" where
  "aggregated_insert_on col schema tableName =
     ''INSERT INTO '' @ schema @ ''.'' @ tableName @ '' ('' @ col @ '',leaf_hub_name,applied_clusters,'' @
     nl @ tab @ tab @ tab @ ''non_compliant_clusters) values($1, $2, $3, $4)''"

definition delete_policy_on :: "string \<Rightarrow> string \<Rightarrow> string \<Rightarrow> string" where
  "delete_policy_on col schema tableName =
     ''DELETE from '' @ schema @ ''.'' @ tableName @ '' WHERE leaf_hub_name=$1 AND '' @ col @ ''=$2''"

lemmas statements_on_def = policy_ids_query_on_def aggregated_exists_on_def aggregated_update_on_def
  aggregated_insert_on_def delete_policy_on_def

lemma columns_of_statements:
  "policy_ids_query schema tableName = policy_ids_query_on ''policy_id'' schema tableName"
  "delete_policy_sql schema tableName = delete_policy_on ''policy_id'' schema tableName"
  "aggregated_exists_sql schema tableName = aggregated_exists_on ''id'' schema tableName"
  "aggregated_update_sql schema tableName = aggregated_update_on ''id'' schema tableName"
  "aggregated_insert_sql schema tableName = aggregated_insert_on ''id'' schema tableName"
  by (simp_all add: statements_on_def policy_ids_query_def delete_policy_sql_def aggregated_exists_sql_def
      aggregated_update_sql_def aggregated_insert_sql_def)

text \<open>
  The database. \<open>cols\<close> are the names, of the two that the code uses, under which the table has the
  policy's column. On such a name the queries read the table, a statement that succeeds does what it says,
  and one that fails does nothing. A statement that names a column the table does not have is refused:
  the query has an error, which the code drops, and no rows, the other statements return an error, and
  nothing changes.
\<close>

definition aggregated_table_laws ::
  "'d pg_conn \<Rightarrow> string set \<Rightarrow> ('d \<Rightarrow> aggregated_row list) \<Rightarrow> bool" where
  "aggregated_table_laws conn cols tbl \<longleftrightarrow> (\<forall>col \<in> {''id'', ''policy_id''}.
     (\<forall>lh d. if col \<in> cols
        then \<exists>ps. rows_scans (fst (conn_Query conn (policy_ids_query_on col StatusSchema MinimalComplianceTable)
            [ArgString lh] d)) = map (\<lambda>p. Inr [p]) ps \<and>
          set ps = ag_policy ` {r \<in> set (tbl d). ag_leafHub r = lh}
        else rows_scans (fst (conn_Query conn (policy_ids_query_on col StatusSchema MinimalComplianceTable)
            [ArgString lh] d)) = []) \<and>
     (\<forall>lh p d result. conn_QueryRow conn (aggregated_exists_on col StatusSchema MinimalComplianceTable)
          [ArgString lh, ArgString p] d = result \<longrightarrow>
        (case result of Inr found \<Rightarrow> col \<in> cols \<and> (found \<longleftrightarrow> agg_rows lh p (tbl d) \<noteq> []) | Inl err \<Rightarrow> True)) \<and>
     (\<forall>lh p applied non d err d'. conn_Exec conn (aggregated_update_on col StatusSchema MinimalComplianceTable)
          [ArgInt applied, ArgInt non, ArgString lh, ArgString p] d = (err, d') \<longrightarrow>
        (if err = None then col \<in> cols \<and> tbl d' = agg_update lh p applied non (tbl d) else tbl d' = tbl d)) \<and>
     (\<forall>lh p applied non d err d'. conn_Exec conn (aggregated_insert_on col StatusSchema MinimalComplianceTable)
          [ArgString p, ArgString lh, ArgInt applied, ArgInt non] d = (err, d') \<longrightarrow>
        (if err = None then col \<in> cols \<and> tbl d' = agg_insert lh p applied non (tbl d) else tbl d' = tbl d)) \<and>
     (\<forall>lh p d err d'. conn_Exec conn (delete_policy_on col StatusSchema MinimalComplianceTable)
          [ArgString lh, ArgString p] d = (err, d') \<longrightarrow>
        (if err = None then col \<in> cols \<and> tbl d' = agg_delete lh p (tbl d) else tbl d' = tbl d)))"

text \<open>What this says of the code's statements.\<close>

definition aggregated_statement_laws :: "'d pg_conn \<Rightarrow> ('d \<Rightarrow> aggregated_row list) \<Rightarrow> bool" where
  "aggregated_statement_laws conn tbl \<longleftrightarrow>
     (\<forall>lh p d found. conn_QueryRow conn (aggregated_exists_sql StatusSchema MinimalComplianceTable)
          [ArgString lh, ArgString p] d = Inr found \<longrightarrow> (found \<longleftrightarrow> agg_rows lh p (tbl d) \<noteq> [])) \<and>
     (\<forall>lh p applied non d err d'. conn_Exec conn (aggregated_update_sql StatusSchema MinimalComplianceTable)
          [ArgInt applied, ArgInt non, ArgString lh, ArgString p] d = (err, d') \<longrightarrow>
        tbl d' = (if err = None then agg_update lh p applied non (tbl d) else tbl d)) \<and>
     (\<forall>lh p applied non d err d'. conn_Exec conn (aggregated_insert_sql StatusSchema MinimalComplianceTable)
          [ArgString p, ArgString lh, ArgInt applied, ArgInt non] d = (err, d') \<longrightarrow>
        tbl d' = (if err = None then agg_insert lh p applied non (tbl d) else tbl d)) \<and>
     (\<forall>lh p d err d'. conn_Exec conn (delete_policy_sql StatusSchema MinimalComplianceTable)
          [ArgString lh, ArgString p] d = (err, d') \<longrightarrow>
        tbl d' = (if err = None then agg_delete lh p (tbl d) else tbl d))"

lemma aggregated_laws_statements:
  assumes "aggregated_table_laws conn cols tbl"
  shows "aggregated_statement_laws conn tbl"
proof -
  note law = assms [unfolded aggregated_table_laws_def, THEN bspec]
  note row = law [of "''id''", THEN conjunct2, simplified]
    and delete = law [of "''policy_id''", THEN conjunct2, THEN conjunct2, THEN conjunct2, THEN conjunct2, simplified]
  show ?thesis
    unfolding aggregated_statement_laws_def columns_of_statements
  proof (intro conjI)
    show "\<forall>lh p d found. conn_QueryRow conn (aggregated_exists_on ''id'' StatusSchema MinimalComplianceTable)
        [ArgString lh, ArgString p] d = Inr found \<longrightarrow> (found \<longleftrightarrow> agg_rows lh p (tbl d) \<noteq> [])"
      using row [THEN conjunct1] by (auto split: sum.splits)
  qed (use row [THEN conjunct2, THEN conjunct1] row [THEN conjunct2, THEN conjunct2, THEN conjunct1] delete
      in \<open>(auto split: if_splits)[3]\<close>)
qed

lemma exists_needs_column:
  assumes "aggregated_table_laws conn cols tbl" "''id'' \<notin> cols"
  obtains err where "conn_QueryRow conn (aggregated_exists_sql StatusSchema MinimalComplianceTable)
    [ArgString lh, ArgString p] d = Inl err"
proof -
  note law = assms(1) [unfolded aggregated_table_laws_def, THEN bspec, of "''id''", THEN conjunct2, THEN conjunct1]
  show ?thesis
    using law [simplified, rule_format, of lh p d] assms(2) that unfolding columns_of_statements
    by (cases "conn_QueryRow conn (aggregated_exists_on ''id'' StatusSchema MinimalComplianceTable)
      [ArgString lh, ArgString p] d") auto
qed

lemma agg_rows_effects [simp]:
  "agg_rows lh q (agg_update lh p applied non t) =
     (if q = p then map (\<lambda>r. r\<lparr>ag_applied := applied, ag_nonCompliant := non\<rparr>) (agg_rows lh q t)
      else agg_rows lh q t)"
  "agg_rows lh q (agg_insert lh p applied non t) = agg_rows lh q t @
     (if q = p then [\<lparr>ag_leafHub = lh, ag_policy = p, ag_applied = applied, ag_nonCompliant = non\<rparr>] else [])"
  "agg_rows lh q (agg_delete lh p t) = (if q = p then [] else agg_rows lh q t)"
  by (induction t) (auto simp: agg_rows_def agg_update_def agg_insert_def agg_delete_def)

lemma other_agg_rows_effects [simp]:
  "other_agg_rows lh (agg_update lh p applied non t) = other_agg_rows lh t"
  "other_agg_rows lh (agg_insert lh p applied non t) = other_agg_rows lh t"
  "other_agg_rows lh (agg_delete lh p t) = other_agg_rows lh t"
  by (induction t) (auto simp: other_agg_rows_def agg_update_def agg_insert_def agg_delete_def)

section \<open>One policy\<close>

definition status_row :: "string \<Rightarrow> minimal_policy_compliance_status \<Rightarrow> aggregated_row" where
  "status_row lh p = \<lparr>ag_leafHub = lh, ag_policy = mpc_PolicyID p, ag_applied = mpc_AppliedClusters p,
     ag_nonCompliant = mpc_NonCompliantClusters p\<rparr>"

text \<open>The table after statements that leave other leaf hubs alone and give the policies in \<open>ks\<close> new rows.\<close>

definition agg_step ::
  "string \<Rightarrow> (string \<Rightarrow> aggregated_row list) \<Rightarrow> string set \<Rightarrow> aggregated_row list \<Rightarrow> aggregated_row list \<Rightarrow> bool" where
  "agg_step lh new ks t t' \<longleftrightarrow> other_agg_rows lh t' = other_agg_rows lh t \<and>
     (\<forall>q. agg_rows lh q t' = (if q \<in> ks then new q else agg_rows lh q t))"

lemma agg_step_refl: "agg_step lh new {} t t"
  by (simp add: agg_step_def)

lemma agg_step_trans:
  "agg_step lh new ks t t' \<Longrightarrow> agg_step lh new ks' t' t'' \<Longrightarrow> agg_step lh new (ks \<union> ks') t t''"
  by (auto simp: agg_step_def)

lemma agg_rows_update_one:
  "length (agg_rows lh (mpc_PolicyID p) t) \<le> 1 \<Longrightarrow> agg_rows lh (mpc_PolicyID p) t \<noteq> [] \<Longrightarrow>
   map (\<lambda>r. r\<lparr>ag_applied := mpc_AppliedClusters p, ag_nonCompliant := mpc_NonCompliantClusters p\<rparr>)
     (agg_rows lh (mpc_PolicyID p) t) = [status_row lh p]"
  by (cases "agg_rows lh (mpc_PolicyID p) t")
     (auto simp: status_row_def agg_rows_def filter_eq_Cons_iff)

lemma upsert_step:
  assumes laws: "aggregated_statement_laws conn tbl"
    and one: "length (agg_rows lh (mpc_PolicyID p) (tbl d)) \<le> 1"
    and new: "new (mpc_PolicyID p) = [status_row lh p]"
    and run: "InsertOrUpdateAggregatedPolicyCompliance conn StatusSchema MinimalComplianceTable lh
      (mpc_PolicyID p) (mpc_AppliedClusters p) (mpc_NonCompliantClusters p) d = (err, d')"
  shows "agg_step lh new (if err = None then {mpc_PolicyID p} else {}) (tbl d) (tbl d')"
proof (cases "conn_QueryRow conn (aggregated_exists_sql StatusSchema MinimalComplianceTable)
    [ArgString lh, ArgString (mpc_PolicyID p)] d")
  case (Inl e)
  with run show ?thesis by (auto simp: InsertOrUpdateAggregatedPolicyCompliance_def agg_step_refl)
next
  case (Inr found)
  with laws have found: "found \<longleftrightarrow> agg_rows lh (mpc_PolicyID p) (tbl d) \<noteq> []"
    by (simp add: aggregated_statement_laws_def)
  show ?thesis
  proof (cases found)
    case True
    obtain e1 d1 where e: "conn_Exec conn (aggregated_update_sql StatusSchema MinimalComplianceTable)
        [ArgInt (mpc_AppliedClusters p), ArgInt (mpc_NonCompliantClusters p), ArgString lh,
         ArgString (mpc_PolicyID p)] d = (e1, d1)" by fastforce
    with laws have "tbl d1 = (if e1 = None then agg_update lh (mpc_PolicyID p) (mpc_AppliedClusters p)
        (mpc_NonCompliantClusters p) (tbl d) else tbl d)"
      unfolding aggregated_statement_laws_def by blast
    moreover have "d' = d1" "err = None \<longleftrightarrow> e1 = None"
      using run Inr True e by (auto simp: InsertOrUpdateAggregatedPolicyCompliance_def split: option.splits)
    ultimately show ?thesis
      using new found True agg_rows_update_one [OF one] by (simp add: agg_step_def)
  next
    case False
    obtain e1 d1 where e: "conn_Exec conn (aggregated_insert_sql StatusSchema MinimalComplianceTable)
        [ArgString (mpc_PolicyID p), ArgString lh, ArgInt (mpc_AppliedClusters p),
         ArgInt (mpc_NonCompliantClusters p)] d = (e1, d1)" by fastforce
    with laws have "tbl d1 = (if e1 = None then agg_insert lh (mpc_PolicyID p) (mpc_AppliedClusters p)
        (mpc_NonCompliantClusters p) (tbl d) else tbl d)"
      unfolding aggregated_statement_laws_def by blast
    moreover have "d' = d1" "err = None \<longleftrightarrow> e1 = None"
      using run Inr False e by (auto simp: InsertOrUpdateAggregatedPolicyCompliance_def split: option.splits)
    ultimately show ?thesis using new found False by (simp add: agg_step_def status_row_def)
  qed
qed

lemma delete_step:
  assumes laws: "aggregated_statement_laws conn tbl" and new: "new q = []"
    and run: "DeleteAllComplianceRows conn StatusSchema MinimalComplianceTable lh q d = (err, d')"
  shows "agg_step lh new (if err = None then {q} else {}) (tbl d) (tbl d')"
proof -
  obtain e1 d1 where e: "conn_Exec conn (delete_policy_sql StatusSchema MinimalComplianceTable)
      [ArgString lh, ArgString q] d = (e1, d1)" by fastforce
  with laws have "tbl d1 = (if e1 = None then agg_delete lh q (tbl d) else tbl d)"
    unfolding aggregated_statement_laws_def by blast
  moreover have "d' = d1" "err = None \<longleftrightarrow> e1 = None"
    using run e by (auto simp: DeleteAllComplianceRows_def split: option.splits)
  ultimately show ?thesis using new by (simp add: agg_step_def)
qed

section \<open>The loops\<close>

abbreviation ObjMinimal :: "minimal_policy_compliance_status \<Rightarrow> bundle_object" where
  "ObjMinimal p \<equiv> ObjMinimalPolicyComplianceStatus (Some p)"

lemma update_loop:
  assumes laws: "aggregated_statement_laws conn tbl" and S: "sets_laws S members"
    and "\<forall>p \<in> set ps. new (mpc_PolicyID p) = [status_row lh p]"
    and "\<forall>q. length (agg_rows lh q (tbl d)) \<le> 1"
  shows "\<exists>err s' d' ks. update_aggregated (aggregated_db conn S) S lh (map ObjMinimal ps) s d =
      Inr (err, s', d') \<and> agg_step lh new ks (tbl d) (tbl d') \<and> ks \<subseteq> mpc_PolicyID ` set ps \<and>
    (err = None \<longrightarrow> ks = mpc_PolicyID ` set ps \<and> members s' = members s - mpc_PolicyID ` set ps)"
  using assms(3,4)
proof (induction ps arbitrary: s d)
  case Nil
  then show ?case using agg_step_refl by fastforce
next
  case (Cons p ps)
  let ?k = "mpc_PolicyID p"
  obtain err1 d1 where run: "InsertOrUpdateAggregatedPolicyCompliance conn StatusSchema MinimalComplianceTable lh
      ?k (mpc_AppliedClusters p) (mpc_NonCompliantClusters p) d = (err1, d1)" by fastforce
  have step: "agg_step lh new (if err1 = None then {?k} else {}) (tbl d) (tbl d1)"
    by (rule upsert_step [OF laws _ _ run]) (use Cons.prems in \<open>simp_all del: One_nat_def\<close>)
  show ?case
  proof (cases err1)
    case (Some e)
    with run step show ?thesis by (auto simp: aggregated_db_def)
  next
    case None
    have "\<forall>q. length (agg_rows lh q (tbl d1)) \<le> 1"
      using step None Cons.prems by (simp add: agg_step_def)
    from Cons.IH [OF _ this, of "set_Remove S s ?k"] Cons.prems(1)
    obtain err s' d' ks where ih: "update_aggregated (aggregated_db conn S) S lh (map ObjMinimal ps)
          (set_Remove S s ?k) d1 = Inr (err, s', d')" "agg_step lh new ks (tbl d1) (tbl d')"
        "ks \<subseteq> mpc_PolicyID ` set ps" "err = None \<longrightarrow> ks = mpc_PolicyID ` set ps \<and>
         members s' = members (set_Remove S s ?k) - mpc_PolicyID ` set ps" by auto
    have "members (set_Remove S s ?k) = members s - {?k}" using S by (simp add: sets_laws_def)
    moreover have "update_aggregated (aggregated_db conn S) S lh (map ObjMinimal (p # ps)) s d =
        Inr (err, s', d')"
      using ih(1) run None by (simp add: aggregated_db_def)
    moreover have "agg_step lh new ({?k} \<union> ks) (tbl d) (tbl d')"
      by (rule agg_step_trans [OF _ ih(2)]) (use step None in simp)
    ultimately show ?thesis using ih(3,4) by (intro exI [of _ err] exI [of _ s'] exI [of _ d']
        exI [of _ "{?k} \<union> ks"]) auto
  qed
qed

lemma delete_loop:
  assumes laws: "aggregated_statement_laws conn tbl" and "\<forall>q \<in> set qs. new q = []"
  shows "\<exists>err d' ks. delete_aggregated (aggregated_db conn S) lh qs d = (err, d') \<and>
    agg_step lh new ks (tbl d) (tbl d') \<and> ks \<subseteq> set qs \<and> (err = None \<longrightarrow> ks = set qs)"
  using assms(2)
proof (induction qs arbitrary: d)
  case Nil
  then show ?case using agg_step_refl by fastforce
next
  case (Cons q qs)
  obtain err1 d1 where run:
    "DeleteAllComplianceRows conn StatusSchema MinimalComplianceTable lh q d = (err1, d1)" by fastforce
  have step: "agg_step lh new (if err1 = None then {q} else {}) (tbl d) (tbl d1)"
    by (rule delete_step [OF laws _ run]) (simp add: Cons.prems)
  show ?case
  proof (cases err1)
    case (Some e)
    with run step show ?thesis by (auto simp: aggregated_db_def)
  next
    case None
    from Cons.IH [of d1] Cons.prems obtain err d' ks where
      ih: "delete_aggregated (aggregated_db conn S) lh qs d1 = (err, d')"
        "agg_step lh new ks (tbl d1) (tbl d')" "ks \<subseteq> set qs" "err = None \<longrightarrow> ks = set qs" by auto
    moreover have "agg_step lh new ({q} \<union> ks) (tbl d) (tbl d')"
      by (rule agg_step_trans [OF _ ih(2)]) (use step None in simp)
    ultimately show ?thesis using run None
      by (intro exI [of _ err] exI [of _ d'] exI [of _ "{q} \<union> ks"]) (auto simp: aggregated_db_def)
  qed
qed

section \<open>The handler on the table\<close>

definition reported_rows ::
  "string \<Rightarrow> minimal_policy_compliance_status list \<Rightarrow> string \<Rightarrow> aggregated_row list" where
  "reported_rows lh ps q = map (status_row lh) (filter (\<lambda>p. mpc_PolicyID p = q) ps)"

lemma reported_rows_eq:
  assumes "distinct (map mpc_PolicyID ps)"
  shows "p \<in> set ps \<Longrightarrow> reported_rows lh ps (mpc_PolicyID p) = [status_row lh p]"
    and "q \<notin> mpc_PolicyID ` set ps \<Longrightarrow> reported_rows lh ps q = []"
  using assms
  by (induction ps) (auto simp: reported_rows_def filter_empty_conv image_iff)

lemma policy_ids_query_result:
  assumes S: "sets_laws S members" and laws: "aggregated_table_laws conn cols tbl"
  shows "\<exists>s. GetPolicyIDsByLeafHub conn S StatusSchema MinimalComplianceTable lh d = Inr s \<and>
    (\<forall>q. q \<in> members s \<longleftrightarrow> ''policy_id'' \<in> cols \<and> agg_rows lh q (tbl d) \<noteq> [])"
proof -
  have "\<exists>ps. rows_scans (fst (conn_Query conn (policy_ids_query StatusSchema MinimalComplianceTable)
        [ArgString lh] d)) = map (\<lambda>p. Inr [p]) ps \<and>
      set ps = (if ''policy_id'' \<in> cols then ag_policy ` {r \<in> set (tbl d). ag_leafHub r = lh} else {})"
    using laws [unfolded aggregated_table_laws_def, THEN bspec, of "''policy_id''", THEN conjunct1]
    unfolding columns_of_statements by (cases "''policy_id'' \<in> cols") simp_all
  then obtain ps where ps: "rows_scans (fst (conn_Query conn (policy_ids_query StatusSchema MinimalComplianceTable)
        [ArgString lh] d)) = map (\<lambda>p. Inr [p]) ps"
      "set ps = (if ''policy_id'' \<in> cols then ag_policy ` {r \<in> set (tbl d). ag_leafHub r = lh} else {})" by blast
  have "\<exists>s'. fold_err (\<lambda>result scan.
           case (case scan of Inr [policyID] \<Rightarrow> Inr policyID | Inr _ \<Rightarrow> Inl errScan | Inl err \<Rightarrow> Inl err) of
             Inl err \<Rightarrow> Inl (e err)
           | Inr policyID \<Rightarrow> Inr (set_Add S result policyID)) s (map (\<lambda>p. Inr [p]) ps) = Inr s' \<and>
      members s' = members s \<union> set ps" for s e
  proof (induction ps arbitrary: s)
    case (Cons p ps)
    have "members (set_Add S s p) = insert p (members s)" using S by (simp add: sets_laws_def)
    with Cons [of "set_Add S s p"] show ?case by auto
  qed simp
  from this [where s = "set_NewSet S"] obtain s where
    "GetPolicyIDsByLeafHub conn S StatusSchema MinimalComplianceTable lh d = Inr s"
    "members s = members (set_NewSet S) \<union> set ps"
    by (force simp: GetPolicyIDsByLeafHub_def Let_def case_prod_beta ps(1))
  moreover have "members (set_NewSet S) = {}" using S by (simp add: sets_laws_def)
  ultimately show ?thesis by (auto simp: ps(2) agg_rows_def filter_empty_conv)
qed

text \<open>
  The handler on a table that has the policy's column under the names \<open>cols\<close>. Listed policies have what
  the bundle reports after a success, all others are deleted only if the column is called \<open>policy_id\<close>;
  and if no column is called \<open>id\<close>, the first listed policy ends the handler before anything has changed.
\<close>

lemma minimal_handler_syncs:
  assumes S: "sets_laws S members" and laws: "aggregated_table_laws conn cols tbl"
    and b: "msb_Objects b = map Some ps" "distinct (map mpc_PolicyID ps)"
    and one: "\<forall>q. length (agg_rows (msb_LeafHubName b) q (tbl d)) \<le> 1"
  shows "\<exists>err d' ks. handleMinimalComplianceBundle (aggregated_db conn S) S (MinimalComplianceStatusBundle b) d =
      Inr (err, d') \<and>
    agg_step (msb_LeafHubName b) (reported_rows (msb_LeafHubName b) ps) ks (tbl d) (tbl d') \<and>
    (''policy_id'' \<notin> cols \<longrightarrow> ks \<subseteq> mpc_PolicyID ` set ps) \<and>
    (err = None \<longrightarrow> mpc_PolicyID ` set ps \<subseteq> ks) \<and>
    (err = None \<and> ''policy_id'' \<in> cols \<longrightarrow>
       (\<forall>q. agg_rows (msb_LeafHubName b) q (tbl d') = reported_rows (msb_LeafHubName b) ps q)) \<and>
    (''id'' \<notin> cols \<and> ps \<noteq> [] \<longrightarrow> err \<noteq> None \<and> d' = d)"
proof -
  let ?lh = "msb_LeafHubName b"
  let ?new = "reported_rows ?lh ps"
  note st = aggregated_laws_statements [OF laws]
  obtain s where s: "GetPolicyIDsByLeafHub conn S StatusSchema MinimalComplianceTable ?lh d = Inr s"
      "\<And>q. q \<in> members s \<longleftrightarrow> ''policy_id'' \<in> cols \<and> agg_rows ?lh q (tbl d) \<noteq> []"
    using policy_ids_query_result [OF S laws] by blast
  have new: "\<forall>p \<in> set ps. ?new (mpc_PolicyID p) = [status_row ?lh p]"
    by (simp add: reported_rows_eq(1) [OF b(2)])
  obtain err1 s1 d1 ks1 where 1: "update_aggregated (aggregated_db conn S) S ?lh (map ObjMinimal ps) s d =
        Inr (err1, s1, d1)" "agg_step ?lh ?new ks1 (tbl d) (tbl d1)" "ks1 \<subseteq> mpc_PolicyID ` set ps"
      "err1 = None \<longrightarrow> ks1 = mpc_PolicyID ` set ps \<and> members s1 = members s - mpc_PolicyID ` set ps"
    using update_loop [where lh = ?lh and new = ?new and ps = ps and d = d and s = s, OF st S new one]
    by (elim exE conjE) (rule that)
  have no_column: "err1 \<noteq> None \<and> d1 = d" if col: "''id'' \<notin> cols" and some: "ps \<noteq> []"
  proof -
    obtain p ps' where ps: "ps = p # ps'" using some by (cases ps) auto
    obtain e where "conn_QueryRow conn (aggregated_exists_sql StatusSchema MinimalComplianceTable)
        [ArgString ?lh, ArgString (mpc_PolicyID p)] d = Inl e" by (rule exists_needs_column [OF laws col])
    with 1(1) show ?thesis by (auto simp: ps aggregated_db_def InsertOrUpdateAggregatedPolicyCompliance_def)
  qed
  have objs: "GetObjects (MinimalComplianceStatusBundle b) = map ObjMinimal ps" by (simp add: b(1))
  show ?thesis
  proof (cases err1)
    case (Some e)
    then have "handleMinimalComplianceBundle (aggregated_db conn S) S (MinimalComplianceStatusBundle b) d =
        Inr (Some e, d1)"
      using s(1) 1(1) unfolding handleMinimalComplianceBundle_def objs by (simp add: aggregated_db_def)
    with 1(2,3) no_column show ?thesis
      by (intro exI [of _ "Some e"] exI [of _ d1] exI [of _ ks1]) simp
  next
    case None
    have slice: "set (set_ToSlice S s1) = members s - mpc_PolicyID ` set ps"
      using S 1(4) None by (simp add: sets_laws_def)
    then have gone: "\<forall>q \<in> set (set_ToSlice S s1). ?new q = []"
      using reported_rows_eq(2) [OF b(2)] by blast
    obtain err d' ks where 2: "delete_aggregated (aggregated_db conn S) ?lh (set_ToSlice S s1) d1 = (err, d')"
        "agg_step ?lh ?new ks (tbl d1) (tbl d')" "ks \<subseteq> set (set_ToSlice S s1)" "err = None \<longrightarrow> ks = set (set_ToSlice S s1)"
      using delete_loop [where new = ?new and lh = ?lh and qs = "set_ToSlice S s1" and d = d1 and S = S,
        OF st gone]
    by (elim exE conjE) (rule that)
    have run: "handleMinimalComplianceBundle (aggregated_db conn S) S (MinimalComplianceStatusBundle b) d =
        Inr (err, d')"
      using s(1) 1(1) 2(1) None unfolding handleMinimalComplianceBundle_def objs
      by (simp add: aggregated_db_def)
    have step: "agg_step ?lh ?new (ks1 \<union> ks) (tbl d) (tbl d')" by (rule agg_step_trans [OF 1(2) 2(2)])
    have all: "agg_rows ?lh q (tbl d') = ?new q" if "err = None" "''policy_id'' \<in> cols" for q
    proof (cases "q \<in> ks1 \<union> ks")
      case True
      with step show ?thesis by (simp add: agg_step_def)
    next
      case False
      with 1(4) 2(4) None slice that(1) have "q \<notin> members s" "q \<notin> mpc_PolicyID ` set ps" by auto
      with s(2) [of q] that(2) reported_rows_eq(2) [OF b(2)] step False show ?thesis by (simp add: agg_step_def)
    qed
    have "ks1 \<union> ks \<subseteq> mpc_PolicyID ` set ps" if "''policy_id'' \<notin> cols"
      using 1(3) 2(3) slice s(2) that by auto
    with run step all no_column None 1(4) show ?thesis
      by (intro exI [of _ err] exI [of _ d'] exI [of _ "ks1 \<union> ks"]) auto
  qed
qed

end
