(* ===== verification/Handlers.thy ===== *)
theory Handlers
  imports Clusters_Table Compliance_Sync Aggregated_Table Bridge_Steps
begin

text \<open>
  The handler functions the syncers register, as functions of the bundle and the database client. A
  handler never panics on a bundle without nil objects, whatever the database answers.
\<close>

section \<open>The registered functions\<close>

text \<open>The orders in which \<open>range\<close> visits the maps of the handlers and of the policies builder.\<close>

record 'set map_orders =
  ord_clusters :: "(string \<times> string) list \<Rightarrow> (string \<times> string) list"
  ord_policies :: "(string \<times> 'set) list \<Rightarrow> (string \<times> 'set) list"
  ord_statuses :: "(string \<times> 'set non_compliant_cluster_sets) list \<Rightarrow>
    (string \<times> 'set non_compliant_cluster_sets) list"
  ord_deletes :: "(string \<times> db_arg list) list \<Rightarrow> (string \<times> db_arg list) list"

fun handler_function ::
  "'d pg_conn \<Rightarrow> 'set go_sets \<Rightarrow> 'set map_orders \<Rightarrow> bundle_handler \<Rightarrow> status_bundle \<Rightarrow> 'd \<Rightarrow>
   (go_error option \<times> 'd) go" where
  "handler_function conn S ord ManagedClustersHandler b d =
     handleManagedClustersBundle (clusters_db conn) (ord_clusters ord) b d"
| "handler_function conn S ord ClustersPerPolicyHandler b d =
     handleClustersPerPolicyBundle (policies_db conn S (ord_deletes ord)) S (ord_policies ord) b
       StatusSchema ComplianceTable d"
| "handler_function conn S ord ComplianceHandler b d =
     handleComplianceBundle (policies_db conn S (ord_deletes ord)) S (ord_statuses ord) b
       StatusSchema ComplianceTable d"
| "handler_function conn S ord MinimalComplianceHandler b d =
     handleMinimalComplianceBundle (aggregated_db conn S) S b d"

section \<open>No panics\<close>

fun nil_object :: "bundle_object \<Rightarrow> bool" where
  "nil_object (ObjManagedCluster p) \<longleftrightarrow> p = None"
| "nil_object (ObjClustersPerPolicy p) \<longleftrightarrow> p = None"
| "nil_object (ObjPolicyComplianceStatus p) \<longleftrightarrow> p = None"
| "nil_object (ObjMinimalPolicyComplianceStatus p) \<longleftrightarrow> p = None"

definition no_nil_objects :: "status_bundle \<Rightarrow> bool" where
  "no_nil_objects b \<longleftrightarrow> (\<forall>x \<in> set (GetObjects b). \<not> nil_object x)"

text \<open>A loop whose body keeps a property of the state and returns.\<close>

lemma fold_go_inv:
  assumes "P b" and "\<And>b m x. x \<in> set xs \<Longrightarrow> P b \<Longrightarrow> \<exists>b' m'. f (b, m) x = Inr (b', m') \<and> P b'"
  shows "\<exists>b' m'. fold_go f (b, m) xs = Inr (b', m') \<and> P b'"
proof -
  have "\<exists>s'. fold_go f (b, m) xs = Inr s' \<and> P (fst s')"
    using fold_go_rule [where R = "\<lambda>s _. P (fst s)" and f = f and xs = xs and a = "()" and g = "\<lambda>_ _. ()"
      and s = "(b, m)"] assms by fastforce
  then show ?thesis by auto
qed

context managed_clusters_batch_builder
begin

lemma object_returns:
  assumes "holds b c" "\<not> nil_object x"
  shows "\<exists>b' m'. handle_cluster_object Insert Update (b, m) x = Inr (b', m') \<and> (\<exists>c. holds b' c)"
proof (cases x)
  case (ObjManagedCluster p)
  with assms(2) obtain cl where x: "x = ObjManagedCluster (Some cl)" by auto
  from insert [OF assms(1), of cl ErrorNone] update [OF assms(1), of "mc_name cl" cl] assms(1) show ?thesis
    unfolding x by (auto simp: handle_cluster_object_def Let_def split: option.split)
qed (use assms in \<open>auto simp: handle_cluster_object_def\<close>)

end

context policies_batch_builder_contract
begin

lemma cluster_per_policy_returns:
  assumes "holds b c"
  shows "\<exists>b'. handleClusterPerPolicy S Insert DeleteClusterStatus p s b = Inr b' \<and> (\<exists>c. holds b' c)"
proof -
  let ?f = "\<lambda>(b, s) cl. if \<not> set_Contains S s cl
      then bind_go (Insert (cpp_PolicyID p) cl ErrorNone Unknown b) (\<lambda>b'. Inr (b', s))
      else Inr (b, set_Remove S s cl)"
  have "\<exists>b' s'. fold_go ?f (b, s) (cpp_Clusters p) = Inr (b', s') \<and> (\<exists>c. holds b' c)"
  proof (rule fold_go_inv)
    fix b s cl assume "\<exists>c. holds b c"
    then obtain c where "holds b c" ..
    from insert [OF this, of "cpp_PolicyID p" cl ErrorNone Unknown] this
    show "\<exists>b' s'. ?f (b, s) cl = Inr (b', s') \<and> (\<exists>c. holds b' c)" by auto
  qed (use assms in auto)
  then obtain b1 s1 c1 where 1: "fold_go ?f (b, s) (cpp_Clusters p) = Inr (b1, s1)" "holds b1 c1" by auto
  from delete_clusters [OF 1(2), of "cpp_PolicyID p" "set_ToSlice S s1"] 1(1) show ?thesis
    by (auto simp: handleClusterPerPolicy_def)
qed

lemma policy_object_returns:
  assumes "holds b c" "\<not> nil_object x"
  shows "\<exists>b' m'. handle_policy_object S Insert DeleteClusterStatus (b, m) x = Inr (b', m') \<and> (\<exists>c. holds b' c)"
proof (cases x)
  case (ObjClustersPerPolicy q)
  with assms(2) obtain p where x: "x = ObjClustersPerPolicy (Some p)" by auto
  from cluster_per_policy_returns [OF assms(1), of S p "case map_of m (cpp_PolicyID p) of
      None \<Rightarrow> set_NewSet S | Some found \<Rightarrow> found"] show ?thesis
    unfolding x by (auto simp: handle_policy_object_def Let_def)
qed (use assms in \<open>auto simp: handle_policy_object_def\<close>)

lemma update_reported_returns:
  assumes "holds b c"
  shows "\<exists>b' s'. update_reported S UpdateClusterCompliance p fromDB st (b, s) cls = Inr (b', s') \<and>
    (\<exists>c. holds b' c)"
  unfolding update_reported_def
proof (rule fold_go_inv)
  fix b s cl assume "\<exists>c. holds b c"
  then obtain c where "holds b c" ..
  from update_cluster [OF this, of p cl st] this
  show "\<exists>b' s'. (\<lambda>(b, clusters) cl. bind_go (if \<not> set_Contains S fromDB cl
      then UpdateClusterCompliance p cl st b else Inr b) (\<lambda>b'. Inr (b', set_Remove S clusters cl))) (b, s) cl =
      Inr (b', s') \<and> (\<exists>c. holds b' c)" by auto
qed (use assms in auto)

lemma policy_status_returns:
  assumes "holds b c"
  shows "\<exists>b'. handlePolicyComplianceStatus S UpdateClusterCompliance p nc unk b = Inr b' \<and> (\<exists>c. holds b' c)"
proof -
  obtain b1 s1 c1 where 1: "update_reported S UpdateClusterCompliance (pcs_PolicyID p) nc NonCompliant
      (b, set_Union S nc unk) (pcs_NonCompliantClusters p) = Inr (b1, s1)" "holds b1 c1"
    using update_reported_returns [OF assms] by metis
  obtain b2 s2 c2 where 2: "update_reported S UpdateClusterCompliance (pcs_PolicyID p) unk Unknown
      (b1, s1) (pcs_UnknownComplianceClusters p) = Inr (b2, s2)" "holds b2 c2"
    using update_reported_returns [OF 1(2)] by metis
  from update_clusters [OF 2(2), of "pcs_PolicyID p" Compliant "set_ToSlice S s2"] 1(1) 2(1) show ?thesis
    by (auto simp: handlePolicyComplianceStatus_def Let_def)
qed

lemma status_object_returns:
  assumes "holds b c" "\<not> nil_object x"
  shows "\<exists>b' m'. handle_status_object S UpdateClusterCompliance (b, m) x = Inr (b', m') \<and> (\<exists>c. holds b' c)"
proof (cases x)
  case (ObjPolicyComplianceStatus q)
  with assms(2) obtain p where x: "x = ObjPolicyComplianceStatus (Some p)" by auto
  let ?sets = "case map_of m (pcs_PolicyID p) of None \<Rightarrow> NewNonCompliantClusterSets S | Some found \<Rightarrow> found"
  from policy_status_returns [OF assms(1), of S p "nc_nonCompliantClusters ?sets" "nc_unknownClusters ?sets"]
  show ?thesis unfolding x by (auto simp: handle_status_object_def Let_def)
qed (use assms in \<open>auto simp: handle_status_object_def\<close>)

end

text \<open>A batch handler leaves the database alone or sends one batch of rendered statements.\<close>

definition one_batch :: "'d pg_conn \<Rightarrow> ('s \<Rightarrow> queued) \<Rightarrow> 'd \<Rightarrow> 'd \<Rightarrow> bool" where
  "one_batch conn rend d d' \<longleftrightarrow>
     d' = d \<or> (\<exists>ss results. conn_SendBatch conn (map rend ss) d = (results, d'))"

lemma SendBatch_one_batch:
  "q = map rend ss \<Longrightarrow> one_batch conn rend d (snd (SendBatch conn (PgxBatch q) d))"
  by (cases "conn_SendBatch conn q d") (auto simp: SendBatch_def one_batch_def Let_def)

text \<open>Whatever the query has answered, the batch of a handler consists of rendered statements.\<close>

lemma managed_clusters_batch_rendered:
  assumes "no_nil_objects b"
  obtains ss where "managed_clusters_batch (clusters_db conn) rng b m =
    Inr (PgxBatch (map (render (mc_layout StatusSchema ManagedClustersTable (GetLeafHubName b))) ss))"
proof -
  let ?new = "NewManagedClustersBatchBuilder StatusSchema ManagedClustersTable (GetLeafHubName b)"
  let ?holds = "mc_holds StatusSchema ManagedClustersTable (GetLeafHubName b)"
  have "\<exists>b' m'. fold_go (handle_cluster_object mc_Insert mc_Update) (?new, m) (GetObjects b) = Inr (b', m') \<and>
      (\<exists>c. ?holds b' c)"
  proof (rule fold_go_inv)
    fix b0 m0 x assume "x \<in> set (GetObjects b)" "\<exists>c. ?holds b0 c"
    with assms mc.object_returns [where b = b0 and x = x and m = m0]
    show "\<exists>b' m'. handle_cluster_object mc_Insert mc_Update (b0, m0) x = Inr (b', m') \<and> (\<exists>c. ?holds b' c)"
      unfolding no_nil_objects_def by blast
  qed (use mc_holds_new in auto)
  then obtain b1 m1 c1 where 1: "fold_go (handle_cluster_object mc_Insert mc_Update) (?new, m) (GetObjects b) =
      Inr (b1, m1)" "?holds b1 c1" by auto
  have "fold_go (\<lambda>b (k, _). mc_Delete k b) b1 (go_range rng m1) =
      fold_go (\<lambda>b k. mc_Delete k b) b1 (map fst (go_range rng m1))"
    by (simp add: fold_go_map case_prod_unfold)
  then obtain b2 c2 where 2: "fold_go (\<lambda>b (k, _). mc_Delete k b) b1 (go_range rng m1) = Inr b2" "?holds b2 c2"
    using mc.delete_all [OF 1(2), of "map fst (go_range rng m1)"] by auto
  obtain q ss where q: "mc_Build b2 = Inr q"
      "q = map (render (mc_layout StatusSchema ManagedClustersTable (GetLeafHubName b))) ss"
    using mc.build [OF 2(2)] by (auto simp: mc_carries_def)
  with that [of ss] 1(1) 2(1) show ?thesis
    by (simp add: managed_clusters_batch_def clusters_db_def Let_def)
qed

lemma clusters_per_policy_batch_rendered:
  assumes "no_nil_objects b"
  obtains ss where "bind_go (clusters_per_policy_rows (policies_db conn S rng) S rng' b StatusSchema ComplianceTable m)
      (pdb_Build (policies_db conn S rng)) =
    Inr (PgxBatch (map (render (pb_layout StatusSchema ComplianceTable (GetLeafHubName b))) ss))"
proof -
  let ?new = "NewPoliciesBatchBuilder StatusSchema ComplianceTable (GetLeafHubName b)"
  let ?holds = "pb_holds StatusSchema ComplianceTable (GetLeafHubName b)"
  have "\<exists>b' m'. fold_go (handle_policy_object S pb_Insert pb_DeleteClusterStatus) (?new, m) (GetObjects b) = Inr (b', m') \<and>
      (\<exists>c. ?holds b' c)"
  proof (rule fold_go_inv)
    fix b0 m0 x assume "x \<in> set (GetObjects b)" "\<exists>c. ?holds b0 c"
    with assms pb.policy_object_returns [where b = b0 and x = x and m = m0]
    show "\<exists>b' m'. handle_policy_object S pb_Insert pb_DeleteClusterStatus (b0, m0) x = Inr (b', m') \<and> (\<exists>c. ?holds b' c)"
      unfolding no_nil_objects_def by blast
  qed (use pb_holds_new in auto)
  then obtain b1 m1 c1 where 1: "fold_go (handle_policy_object S pb_Insert pb_DeleteClusterStatus) (?new, m)
      (GetObjects b) = Inr (b1, m1)" "?holds b1 c1" by auto
  obtain b2 c2 where 2: "fold_go (\<lambda>b (p, _). pb_DeletePolicy p b) b1 (go_range rng' m1) = Inr b2" "?holds b2 c2"
    using pb.delete_policies [OF 1(2), where xs = "go_range rng' m1"] by blast
  obtain q where q: "pb_Build rng b2 = Inr q"
      "pb_carries StatusSchema ComplianceTable (GetLeafHubName b) q c2"
    using pb_Build_rel [OF 2(2)] by blast
  obtain ss where "q = map (render (pb_layout StatusSchema ComplianceTable (GetLeafHubName b))) ss"
    using q(2) by (auto simp: pb_carries_def)
  with that [of ss] 1(1) 2(1) q(1) show ?thesis
    by (simp add: clusters_per_policy_rows_def policies_db_def Let_def)
qed

lemma compliance_batch_rendered:
  assumes "no_nil_objects b"
  obtains ss where "bind_go (compliance_status_rows (policies_db conn S rng) S rng' b StatusSchema ComplianceTable m)
      (pdb_Build (policies_db conn S rng)) =
    Inr (PgxBatch (map (render (pb_layout StatusSchema ComplianceTable (GetLeafHubName b))) ss))"
proof -
  let ?new = "NewPoliciesBatchBuilder StatusSchema ComplianceTable (GetLeafHubName b)"
  let ?holds = "pb_holds StatusSchema ComplianceTable (GetLeafHubName b)"
  have "\<exists>b' m'. fold_go (handle_status_object S pb_UpdateClusterCompliance) (?new, m) (GetObjects b) = Inr (b', m') \<and>
      (\<exists>c. ?holds b' c)"
  proof (rule fold_go_inv)
    fix b0 m0 x assume "x \<in> set (GetObjects b)" "\<exists>c. ?holds b0 c"
    with assms pb.status_object_returns [where b = b0 and x = x and m = m0]
    show "\<exists>b' m'. handle_status_object S pb_UpdateClusterCompliance (b0, m0) x = Inr (b', m') \<and> (\<exists>c. ?holds b' c)"
      unfolding no_nil_objects_def by blast
  qed (use pb_holds_new in auto)
  then obtain b1 m1 c1 where 1: "fold_go (handle_status_object S pb_UpdateClusterCompliance) (?new, m)
      (GetObjects b) = Inr (b1, m1)" "?holds b1 c1" by auto
  obtain b2 c2 where 2: "fold_go (\<lambda>b (p, _). pb_UpdatePolicyCompliance p Compliant b) b1 (go_range rng' m1) =
      Inr b2" "?holds b2 c2"
    using pb.update_policies [OF 1(2), where xs = "go_range rng' m1" and st = Compliant] by blast
  obtain q where q: "pb_Build rng b2 = Inr q"
      "pb_carries StatusSchema ComplianceTable (GetLeafHubName b) q c2"
    using pb_Build_rel [OF 2(2)] by blast
  obtain ss where "q = map (render (pb_layout StatusSchema ComplianceTable (GetLeafHubName b))) ss"
    using q(2) by (auto simp: pb_carries_def)
  with that [of ss] 1(1) 2(1) q(1) show ?thesis
    by (simp add: compliance_status_rows_def policies_db_def Let_def)
qed

lemma managed_clusters_returns:
  assumes "no_nil_objects b"
  shows "\<exists>err d'. handleManagedClustersBundle (clusters_db conn) rng b d = Inr (err, d') \<and>
    one_batch conn (render (mc_layout StatusSchema ManagedClustersTable (GetLeafHubName b))) d d'"
proof (cases "GetManagedClustersByLeafHub conn StatusSchema ManagedClustersTable (GetLeafHubName b) d")
  case (Inr m)
  obtain ss where ss: "managed_clusters_batch (clusters_db conn) rng b m = Inr (PgxBatch (map (render (mc_layout StatusSchema ManagedClustersTable (GetLeafHubName b))) ss))"
    by (rule managed_clusters_batch_rendered [OF assms])
  obtain err d' where sb: "SendBatch conn (PgxBatch (map (render (mc_layout StatusSchema ManagedClustersTable (GetLeafHubName b))) ss)) d = (err, d')" by fastforce
  from SendBatch_one_batch [where rend = "render (mc_layout StatusSchema ManagedClustersTable (GetLeafHubName b))" and ss = ss and conn = conn and d = d, OF refl] sb
  have "one_batch conn (render (mc_layout StatusSchema ManagedClustersTable (GetLeafHubName b))) d d'" by simp
  with Inr ss sb show ?thesis
    by (cases err) (simp_all add: handleManagedClustersBundle_def clusters_db_def Let_def)
qed (simp add: handleManagedClustersBundle_def managed_clusters_batch_def clusters_db_def Let_def one_batch_def)

lemma clusters_per_policy_returns:
  assumes "no_nil_objects b"
  shows "\<exists>err d'. handleClustersPerPolicyBundle (policies_db conn S rng) S rng' b StatusSchema ComplianceTable d =
      Inr (err, d') \<and>
    one_batch conn (render (pb_layout StatusSchema ComplianceTable (GetLeafHubName b))) d d'"
proof (cases "GetComplianceStatusByLeafHub conn S StatusSchema ComplianceTable (GetLeafHubName b) d")
  case (Inr m)
  obtain ss where ss: "bind_go (clusters_per_policy_rows (policies_db conn S rng) S rng' b StatusSchema ComplianceTable m)
      (pdb_Build (policies_db conn S rng)) = Inr (PgxBatch (map (render (pb_layout StatusSchema ComplianceTable (GetLeafHubName b))) ss))"
    by (rule clusters_per_policy_batch_rendered [OF assms])
  obtain err d' where sb: "SendBatch conn (PgxBatch (map (render (pb_layout StatusSchema ComplianceTable (GetLeafHubName b))) ss)) d = (err, d')" by fastforce
  from SendBatch_one_batch [where rend = "render (pb_layout StatusSchema ComplianceTable (GetLeafHubName b))" and ss = ss and conn = conn and d = d, OF refl] sb
  have "one_batch conn (render (pb_layout StatusSchema ComplianceTable (GetLeafHubName b))) d d'" by simp
  with Inr ss sb show ?thesis
    by (cases err) (auto simp: handleClustersPerPolicyBundle_def send_built_def policies_db_def Let_def bind_go_eq_Inr)
qed (simp add: handleClustersPerPolicyBundle_def clusters_per_policy_rows_def policies_db_def Let_def one_batch_def)

lemma compliance_returns:
  assumes "no_nil_objects b"
  shows "\<exists>err d'. handleComplianceBundle (policies_db conn S rng) S rng' b StatusSchema ComplianceTable d =
      Inr (err, d') \<and>
    one_batch conn (render (pb_layout StatusSchema ComplianceTable (GetLeafHubName b))) d d'"
proof (cases "GetNonCompliantClustersByLeafHub conn S StatusSchema ComplianceTable (GetLeafHubName b) d")
  case (Inr m)
  obtain ss where ss: "bind_go (compliance_status_rows (policies_db conn S rng) S rng' b StatusSchema ComplianceTable m)
      (pdb_Build (policies_db conn S rng)) = Inr (PgxBatch (map (render (pb_layout StatusSchema ComplianceTable (GetLeafHubName b))) ss))"
    by (rule compliance_batch_rendered [OF assms])
  obtain err d' where sb: "SendBatch conn (PgxBatch (map (render (pb_layout StatusSchema ComplianceTable (GetLeafHubName b))) ss)) d = (err, d')" by fastforce
  from SendBatch_one_batch [where rend = "render (pb_layout StatusSchema ComplianceTable (GetLeafHubName b))" and ss = ss and conn = conn and d = d, OF refl] sb
  have "one_batch conn (render (pb_layout StatusSchema ComplianceTable (GetLeafHubName b))) d d'" by simp
  with Inr ss sb show ?thesis
    by (cases err) (auto simp: handleComplianceBundle_def send_built_def policies_db_def Let_def bind_go_eq_Inr)
qed (simp add: handleComplianceBundle_def compliance_status_rows_def policies_db_def Let_def one_batch_def)

text \<open>The minimal compliance handler changes the database by its three statements only.\<close>

definition keeps_aggregated :: "'d pg_conn \<Rightarrow> ('d \<Rightarrow> 'a) \<Rightarrow> bool" where
  "keeps_aggregated conn f \<longleftrightarrow>
     (\<forall>sql \<in> {aggregated_update_sql StatusSchema MinimalComplianceTable,
        aggregated_insert_sql StatusSchema MinimalComplianceTable,
        delete_policy_sql StatusSchema MinimalComplianceTable}.
      \<forall>args d. f (snd (conn_Exec conn sql args d)) = f d)"

lemma keeps_aggregatedD:
  assumes "keeps_aggregated conn f"
  shows "f (snd (InsertOrUpdateAggregatedPolicyCompliance conn StatusSchema MinimalComplianceTable lh p a n d)) = f d"
    and "f (snd (DeleteAllComplianceRows conn StatusSchema MinimalComplianceTable lh p d)) = f d"
  using assms
  by (auto simp: keeps_aggregated_def InsertOrUpdateAggregatedPolicyCompliance_def DeleteAllComplianceRows_def
      split: sum.split prod.split option.split) (metis snd_conv)+

lemma update_aggregated_returns:
  assumes "\<forall>x \<in> set xs. \<not> nil_object x" and f: "keeps_aggregated conn f"
  shows "\<exists>err s' d'. update_aggregated (aggregated_db conn S) S lh xs s d = Inr (err, s', d') \<and> f d' = f d"
  using assms(1)
proof (induction xs arbitrary: s d)
  case (Cons x xs)
  then have ih: "\<exists>err s' d'. update_aggregated (aggregated_db conn S) S lh xs s d = Inr (err, s', d') \<and> f d' = f d"
    for s d by simp
  show ?case
  proof (cases x)
    case (ObjMinimalPolicyComplianceStatus p)
    with Cons.prems obtain st where x: "x = ObjMinimalPolicyComplianceStatus (Some st)" by auto
    obtain err d1 where run: "InsertOrUpdateAggregatedPolicyCompliance conn StatusSchema MinimalComplianceTable lh
        (mpc_PolicyID st) (mpc_AppliedClusters st) (mpc_NonCompliantClusters st) d = (err, d1)" by fastforce
    with keeps_aggregatedD(1) [OF f, of lh "mpc_PolicyID st" "mpc_AppliedClusters st"
        "mpc_NonCompliantClusters st" d] have "f d1 = f d" by simp
    with run ih [of "set_Remove S s (mpc_PolicyID st)" d1] show ?thesis
      by (cases err) (simp_all add: x aggregated_db_def)
  qed (use ih in simp_all)
qed simp

lemma delete_aggregated_keeps:
  assumes f: "keeps_aggregated conn f"
  shows "f (snd (delete_aggregated (aggregated_db conn S) lh qs d)) = f d"
proof (induction qs arbitrary: d)
  case (Cons q qs)
  with keeps_aggregatedD(2) [OF f, of lh q d] show ?case
    by (auto simp: aggregated_db_def split: prod.split option.split)
qed simp

lemma minimal_compliance_returns:
  assumes "no_nil_objects b" "keeps_aggregated conn f"
  shows "\<exists>err d'. handleMinimalComplianceBundle (aggregated_db conn S) S b d = Inr (err, d') \<and> f d' = f d"
proof (cases "adb_GetPolicyIDsByLeafHub (aggregated_db conn S) StatusSchema MinimalComplianceTable
    (GetLeafHubName b) d")
  case (Inr s)
  obtain err s' d1 where 1: "update_aggregated (aggregated_db conn S) S (GetLeafHubName b) (GetObjects b) s d =
      Inr (err, s', d1)" "f d1 = f d"
    using update_aggregated_returns [OF _ assms(2)] assms(1) unfolding no_nil_objects_def by metis
  obtain err2 d2 where 2: "delete_aggregated (aggregated_db conn S) (GetLeafHubName b) (set_ToSlice S s') d1 =
      (err2, d2)" by fastforce
  with delete_aggregated_keeps [OF assms(2), of S "GetLeafHubName b" "set_ToSlice S s'" d1] have "f d2 = f d1"
    by simp
  with Inr 1 2 show ?thesis by (cases err) (simp_all add: handleMinimalComplianceBundle_def Let_def)
qed (simp add: handleMinimalComplianceBundle_def Let_def)

lemma handler_returns:
  assumes b: "no_nil_objects b"
  shows "\<exists>err d'. handler_function conn S ord h b d = Inr (err, d')"
proof (cases h)
  case ManagedClustersHandler
  with managed_clusters_returns [OF b, of conn "ord_clusters ord" d] show ?thesis by auto
next
  case ClustersPerPolicyHandler
  with clusters_per_policy_returns [OF b, of conn S "ord_deletes ord" "ord_policies ord" d] show ?thesis by auto
next
  case ComplianceHandler
  with compliance_returns [OF b, of conn S "ord_deletes ord" "ord_statuses ord" d] show ?thesis by auto
next
  case MinimalComplianceHandler
  have "keeps_aggregated conn (\<lambda>_. ())" by (simp add: keeps_aggregated_def)
  from minimal_compliance_returns [OF b this, of S d] MinimalComplianceHandler show ?thesis by auto
qed

end
