(* ===== verification/Handler_Effects.thy ===== *)
theory Handler_Effects
  imports Handlers
begin

text \<open>
  What one run of a handler does to the three tables of the database, for the bundles a leaf hub
  sends when it does not repeat or drop objects.
\<close>

section \<open>Bundles\<close>

text \<open>No nil objects; no cluster or policy twice; no cluster reported in two states.\<close>

fun well_formed_bundle :: "status_bundle \<Rightarrow> bool" where
  "well_formed_bundle (ManagedClustersStatusBundle b) \<longleftrightarrow>
     None \<notin> set (mcb_Objects b) \<and> distinct (map mc_name (map the (mcb_Objects b)))"
| "well_formed_bundle (ClustersPerPolicyBundle b) \<longleftrightarrow>
     None \<notin> set (cpb_Objects b) \<and> distinct (map cpp_PolicyID (map the (cpb_Objects b))) \<and>
     (\<forall>p \<in> set (map the (cpb_Objects b)). distinct (cpp_Clusters p))"
| "well_formed_bundle (ComplianceStatusBundle b) \<longleftrightarrow>
     None \<notin> set (csb_Objects b) \<and> distinct (map pcs_PolicyID (map the (csb_Objects b))) \<and>
     (\<forall>p \<in> set (map the (csb_Objects b)).
        set (pcs_NonCompliantClusters p) \<inter> set (pcs_UnknownComplianceClusters p) = {})"
| "well_formed_bundle (MinimalComplianceStatusBundle b) \<longleftrightarrow>
     None \<notin> set (msb_Objects b) \<and> distinct (map mpc_PolicyID (map the (msb_Objects b)))"

lemma well_formed_no_nil: "well_formed_bundle b \<Longrightarrow> no_nil_objects b"
  by (cases b) (auto simp: no_nil_objects_def, (metis not_None_eq)+)

text \<open>The handler the setup registers for the type of a bundle.\<close>

fun handler_of :: "status_bundle \<Rightarrow> bundle_handler" where
  "handler_of (ManagedClustersStatusBundle _) = ManagedClustersHandler"
| "handler_of (ClustersPerPolicyBundle _) = ClustersPerPolicyHandler"
| "handler_of (ComplianceStatusBundle _) = ComplianceHandler"
| "handler_of (MinimalComplianceStatusBundle _) = MinimalComplianceHandler"

section \<open>The database\<close>

record 'd tables =
  tb_clusters :: "'d \<Rightarrow> cluster_row list"
  tb_compliance :: "'d \<Rightarrow> compliance_row list"
  tb_aggregated :: "'d \<Rightarrow> aggregated_row list"

text \<open>The statements for one table leave the other two as they are.\<close>

definition tables_separate :: "'d pg_conn \<Rightarrow> 'd tables \<Rightarrow> bool" where
  "tables_separate conn tb \<longleftrightarrow>
     (\<forall>lh ss d results d'.
        conn_SendBatch conn (map (render (mc_layout StatusSchema ManagedClustersTable lh)) ss) d =
          (results, d') \<longrightarrow> tb_compliance tb d' = tb_compliance tb d \<and> tb_aggregated tb d' = tb_aggregated tb d) \<and>
     (\<forall>lh ss d results d'.
        conn_SendBatch conn (map (render (pb_layout StatusSchema ComplianceTable lh)) ss) d =
          (results, d') \<longrightarrow> tb_clusters tb d' = tb_clusters tb d \<and> tb_aggregated tb d' = tb_aggregated tb d) \<and>
     keeps_aggregated conn (\<lambda>d. (tb_clusters tb d, tb_compliance tb d))"

text \<open>
  The laws of the three tables. The policy's column of the aggregated table is called \<open>policy_id\<close>, as the
  query of the policies and the delete have it, and possibly also \<open>id\<close>, as the other statements have it.
\<close>

definition database_laws :: "'d pg_conn \<Rightarrow> 'd tables \<Rightarrow> bool" where
  "database_laws conn tb \<longleftrightarrow>
     clusters_table_laws conn (tb_clusters tb) \<and> compliance_table_laws conn (tb_compliance tb) \<and>
     (\<exists>cols. ''policy_id'' \<in> cols \<and> aggregated_table_laws conn cols (tb_aggregated tb)) \<and>
     tables_separate conn tb"

lemma database_lawsE:
  assumes "database_laws conn tb"
  obtains cols where "''policy_id'' \<in> cols" "aggregated_table_laws conn cols (tb_aggregated tb)"
    "aggregated_statement_laws conn (tb_aggregated tb)"
  using assms aggregated_laws_statements unfolding database_laws_def by blast

text \<open>At most one row for each cluster, pair and policy of a leaf hub, and known states only.\<close>

definition tables_ok :: "'d tables \<Rightarrow> 'd \<Rightarrow> bool" where
  "tables_ok tb d \<longleftrightarrow>
     (\<forall>lh n. length (cluster_rows lh n (tb_clusters tb d)) \<le> 1) \<and>
     (\<forall>lh p cl. length (pair_rows lh p cl (tb_compliance tb d)) \<le> 1) \<and>
     (\<forall>r \<in> set (tb_compliance tb d). co_compliance r \<in> {Compliant, NonCompliant, Unknown}) \<and>
     (\<forall>lh p. length (agg_rows lh p (tb_aggregated tb d)) \<le> 1)"

section \<open>The effect of a run\<close>

definition clusters_effect ::
  "status_bundle \<Rightarrow> go_error option \<Rightarrow> cluster_row list \<Rightarrow> cluster_row list \<Rightarrow> bool" where
  "clusters_effect b err t t' \<longleftrightarrow>
     (case b of ManagedClustersStatusBundle m \<Rightarrow>
        if err = None then synced (mcb_LeafHubName m) (map the (mcb_Objects m)) t t' else t' = t
      | _ \<Rightarrow> t' = t)"

definition compliance_effect ::
  "status_bundle \<Rightarrow> go_error option \<Rightarrow> compliance_row list \<Rightarrow> compliance_row list \<Rightarrow> bool" where
  "compliance_effect b err t t' \<longleftrightarrow>
     (case b of ClustersPerPolicyBundle c \<Rightarrow>
        if err = None then pairs_synced (cpb_LeafHubName c) (map the (cpb_Objects c)) t t' else t' = t
      | ComplianceStatusBundle c \<Rightarrow>
        if err = None then states_synced (csb_LeafHubName c) (map the (csb_Objects c)) t t' else t' = t
      | _ \<Rightarrow> t' = t)"

definition aggregated_effect ::
  "status_bundle \<Rightarrow> go_error option \<Rightarrow> aggregated_row list \<Rightarrow> aggregated_row list \<Rightarrow> bool" where
  "aggregated_effect b err t t' \<longleftrightarrow>
     (case b of MinimalComplianceStatusBundle m \<Rightarrow>
        (\<exists>ks. agg_step (msb_LeafHubName m) (reported_rows (msb_LeafHubName m) (map the (msb_Objects m))) ks t t') \<and>
        (err = None \<longrightarrow> (\<forall>q. agg_rows (msb_LeafHubName m) q t' =
           reported_rows (msb_LeafHubName m) (map the (msb_Objects m)) q))
      | _ \<Rightarrow> t' = t)"

lemma one_batch_separate:
  assumes "tables_separate conn tb"
  shows "one_batch conn (render (mc_layout StatusSchema ManagedClustersTable lh)) d d' \<Longrightarrow>
      tb_compliance tb d' = tb_compliance tb d \<and> tb_aggregated tb d' = tb_aggregated tb d"
    and "one_batch conn (render (pb_layout StatusSchema ComplianceTable lh)) d d' \<Longrightarrow>
      tb_clusters tb d' = tb_clusters tb d \<and> tb_aggregated tb d' = tb_aggregated tb d"
  using assms unfolding tables_separate_def one_batch_def by blast+

lemma handler_effect:
  assumes S: "sets_laws S members" and laws: "database_laws conn tb" and ok: "tables_ok tb d"
    and b: "well_formed_bundle b"
  shows "\<exists>err d'. handler_function conn S ord (handler_of b) b d = Inr (err, d') \<and>
    clusters_effect b err (tb_clusters tb d) (tb_clusters tb d') \<and>
    compliance_effect b err (tb_compliance tb d) (tb_compliance tb d') \<and>
    aggregated_effect b err (tb_aggregated tb d) (tb_aggregated tb d')"
proof -
  have law: "clusters_table_laws conn (tb_clusters tb)" "compliance_table_laws conn (tb_compliance tb)"
    "tables_separate conn tb"
    using laws by (simp_all add: database_laws_def)
  obtain cols where agg: "''policy_id'' \<in> cols" "aggregated_table_laws conn cols (tb_aggregated tb)"
    by (rule database_lawsE [OF laws])
  show ?thesis
  proof (cases b)
    case (ManagedClustersStatusBundle m)
    have objs: "mcb_Objects m = map Some (map the (mcb_Objects m))"
      "distinct (map mc_name (map the (mcb_Objects m)))"
      using b ManagedClustersStatusBundle map_Some_the [of "mcb_Objects m"] by simp_all
    have one: "length (cluster_rows (mcb_LeafHubName m) n (tb_clusters tb d)) \<le> 1" for n
      using ok by (simp add: tables_ok_def)
    obtain err d' where run: "handleManagedClustersBundle (clusters_db conn) (ord_clusters ord) b d = Inr (err, d')"
        "one_batch conn (render (mc_layout StatusSchema ManagedClustersTable (GetLeafHubName b))) d d'"
      using managed_clusters_returns [OF well_formed_no_nil [OF b], of conn "ord_clusters ord" d] by blast
    have "if err = None then synced (mcb_LeafHubName m) (map the (mcb_Objects m)) (tb_clusters tb d)
        (tb_clusters tb d') else tb_clusters tb d' = tb_clusters tb d"
      using handler_syncs [where conn = conn and tbl = "tb_clusters tb" and rng = "ord_clusters ord" and d = d,
          OF law(1) objs one] run(1)
      unfolding ManagedClustersStatusBundle by auto
    with run one_batch_separate(1) [OF law(3) run(2)] show ?thesis
      by (simp add: ManagedClustersStatusBundle database_laws_def clusters_effect_def compliance_effect_def
          aggregated_effect_def)
  next
    case (ClustersPerPolicyBundle c)
    have objs: "cpb_Objects c = map Some (map the (cpb_Objects c))"
      "distinct (map cpp_PolicyID (map the (cpb_Objects c)))"
      "\<forall>p \<in> set (map the (cpb_Objects c)). distinct (cpp_Clusters p)"
      using b ClustersPerPolicyBundle map_Some_the [of "cpb_Objects c"] by simp_all
    obtain err d' where run: "handleClustersPerPolicyBundle (policies_db conn S (ord_deletes ord)) S
          (ord_policies ord) b StatusSchema ComplianceTable d = Inr (err, d')"
        "one_batch conn (render (pb_layout StatusSchema ComplianceTable (GetLeafHubName b))) d d'"
      using clusters_per_policy_returns [OF well_formed_no_nil [OF b], of conn S "ord_deletes ord" "ord_policies ord" d]
      by blast
    have "if err = None then pairs_synced (cpb_LeafHubName c) (map the (cpb_Objects c)) (tb_compliance tb d)
        (tb_compliance tb d') else tb_compliance tb d' = tb_compliance tb d"
      using clusters_per_policy_handler_syncs [OF S law(2) objs, of "ord_deletes ord" "ord_policies ord" d] run(1)
      unfolding ClustersPerPolicyBundle by auto
    with run one_batch_separate(2) [OF law(3) run(2)] show ?thesis
      by (simp add: ClustersPerPolicyBundle database_laws_def clusters_effect_def compliance_effect_def
          aggregated_effect_def)
  next
    case (ComplianceStatusBundle c)
    have objs: "csb_Objects c = map Some (map the (csb_Objects c))"
      "distinct (map pcs_PolicyID (map the (csb_Objects c)))"
      "\<forall>p \<in> set (map the (csb_Objects c)).
          set (pcs_NonCompliantClusters p) \<inter> set (pcs_UnknownComplianceClusters p) = {}"
      using b ComplianceStatusBundle map_Some_the [of "csb_Objects c"] by simp_all
    have one: "length (pair_rows (csb_LeafHubName c) q cl (tb_compliance tb d)) \<le> 1" for q cl
      using ok by (simp add: tables_ok_def)
    have enum: "r \<in> set (tb_compliance tb d) \<Longrightarrow> co_compliance r \<in> {Compliant, NonCompliant, Unknown}" for r
      using ok by (simp add: tables_ok_def)
    obtain err d' where run: "handleComplianceBundle (policies_db conn S (ord_deletes ord)) S
          (ord_statuses ord) b StatusSchema ComplianceTable d = Inr (err, d')"
        "one_batch conn (render (pb_layout StatusSchema ComplianceTable (GetLeafHubName b))) d d'"
      using compliance_returns [OF well_formed_no_nil [OF b], of conn S "ord_deletes ord" "ord_statuses ord" d]
      by blast
    have "if err = None then states_synced (csb_LeafHubName c) (map the (csb_Objects c)) (tb_compliance tb d)
        (tb_compliance tb d') else tb_compliance tb d' = tb_compliance tb d"
      using compliance_handler_syncs [where tbl = "tb_compliance tb" and d = d and rng = "ord_deletes ord"
          and rng' = "ord_statuses ord", OF S law(2) objs one enum] run(1)
      unfolding ComplianceStatusBundle by auto
    with run one_batch_separate(2) [OF law(3) run(2)] show ?thesis
      by (simp add: ComplianceStatusBundle database_laws_def clusters_effect_def compliance_effect_def
          aggregated_effect_def)
  next
    case (MinimalComplianceStatusBundle m)
    have objs: "msb_Objects m = map Some (map the (msb_Objects m))"
      "distinct (map mpc_PolicyID (map the (msb_Objects m)))"
      using b MinimalComplianceStatusBundle map_Some_the [of "msb_Objects m"] by simp_all
    have one: "\<forall>q. length (agg_rows (msb_LeafHubName m) q (tb_aggregated tb d)) \<le> 1"
      using ok by (simp add: tables_ok_def)
    have keeps: "keeps_aggregated conn (\<lambda>d. (tb_clusters tb d, tb_compliance tb d))"
      using laws by (simp add: database_laws_def tables_separate_def)
    obtain err d' where run: "handleMinimalComplianceBundle (aggregated_db conn S) S b d = Inr (err, d')"
        "tb_clusters tb d' = tb_clusters tb d" "tb_compliance tb d' = tb_compliance tb d"
      using minimal_compliance_returns [OF well_formed_no_nil [OF b] keeps, of S d] by auto
    have "aggregated_effect b err (tb_aggregated tb d) (tb_aggregated tb d')"
      using minimal_handler_syncs [where tbl = "tb_aggregated tb" and d = d, OF S agg(2) objs one] run(1) agg(1)
      unfolding MinimalComplianceStatusBundle aggregated_effect_def by auto
    with run show ?thesis
      by (simp add: MinimalComplianceStatusBundle clusters_effect_def compliance_effect_def)
  qed
qed

section \<open>What a run keeps\<close>

lemma cluster_rows_other:
  assumes "other_hubs lh t' = other_hubs lh t" "lh' \<noteq> lh"
  shows "cluster_rows lh' n t' = cluster_rows lh' n t"
proof -
  have "cluster_rows lh' n t = cluster_rows lh' n (other_hubs lh t)" for t
    using assms(2) by (auto simp: cluster_rows_def other_hubs_def intro!: filter_cong)
  with assms(1) show ?thesis by metis
qed

lemma pair_rows_other:
  assumes "other_rows lh t' = other_rows lh t" "lh' \<noteq> lh"
  shows "pair_rows lh' p cl t' = pair_rows lh' p cl t"
proof -
  have "pair_rows lh' p cl t = pair_rows lh' p cl (other_rows lh t)" for t
    using assms(2) by (auto simp: pair_rows_def other_rows_def intro!: filter_cong)
  with assms(1) show ?thesis by metis
qed

lemma agg_rows_other:
  assumes "other_agg_rows lh t' = other_agg_rows lh t" "lh' \<noteq> lh"
  shows "agg_rows lh' p t' = agg_rows lh' p t"
proof -
  have "agg_rows lh' p t = agg_rows lh' p (other_agg_rows lh t)" for t
    using assms(2) by (auto simp: agg_rows_def other_agg_rows_def intro!: filter_cong)
  with assms(1) show ?thesis by metis
qed

lemma clusters_effect_one:
  assumes "clusters_effect b err t t'" "\<forall>lh n. length (cluster_rows lh n t) \<le> 1"
  shows "length (cluster_rows lh n t') \<le> 1"
proof (cases "t' = t")
  case False
  with assms(1) obtain m :: managed_clusters_status_bundle where m: "synced (mcb_LeafHubName m) (map the (mcb_Objects m)) t t'"
    by (auto simp: clusters_effect_def split: status_bundle.splits if_splits)
  show ?thesis
  proof (cases "lh = mcb_LeafHubName m")
    case True
    show ?thesis
    proof (cases "n \<in> mc_name ` set (map the (mcb_Objects m))")
      case True
      then obtain c where "c \<in> set (map the (mcb_Objects m))" "n = mc_name c" by blast
      with m obtain r where "cluster_rows (mcb_LeafHubName m) n t' = [r]" unfolding synced_def by blast
      with \<open>lh = mcb_LeafHubName m\<close> show ?thesis by simp
    next
      case False
      with m \<open>lh = mcb_LeafHubName m\<close> show ?thesis by (simp add: synced_def)
    qed
  next
    case False
    with m assms(2) cluster_rows_other [of "mcb_LeafHubName m" t' t lh n] show ?thesis by (simp add: synced_def)
  qed
qed (use assms in simp)

lemma synced_pairs_rows:
  assumes "pairs_synced lh' ps t t' \<or> states_synced lh' qs t t'"
  shows "length (pair_rows lh p cl t) \<le> 1 \<Longrightarrow> length (pair_rows lh p cl t') \<le> 1"
    and "\<forall>r \<in> set (pair_rows lh p cl t). P (co_compliance r) \<Longrightarrow> P Compliant \<Longrightarrow> P NonCompliant \<Longrightarrow>
      P Unknown \<Longrightarrow> \<forall>r \<in> set (pair_rows lh p cl t'). P (co_compliance r)"
proof -
  have other: "pair_rows lh p cl t' = pair_rows lh p cl t" if "lh \<noteq> lh'"
    using assms that pair_rows_other [of lh' t' t lh p cl] by (auto simp: pairs_synced_def states_synced_def)
  show "length (pair_rows lh p cl t') \<le> 1" if "length (pair_rows lh p cl t) \<le> 1"
    using assms other that by (cases "lh = lh'") (auto simp: pairs_synced_def states_synced_def)
  show "\<forall>r \<in> set (pair_rows lh p cl t'). P (co_compliance r)"
    if "\<forall>r \<in> set (pair_rows lh p cl t). P (co_compliance r)" "P Compliant" "P NonCompliant" "P Unknown"
  proof (cases "lh = lh'")
    case True
    from assms have "pair_rows lh p cl t' \<in> {[], [row_of lh (p, cl, ErrorNone, Unknown)], pair_rows lh p cl t,
        map (\<lambda>r. r\<lparr>co_compliance := reported_state qs p cl\<rparr>) (pair_rows lh p cl t)}"
      using True by (auto simp: pairs_synced_def states_synced_def split: if_splits)
    with that show ?thesis by (auto simp: row_of_def reported_state_def)
  qed (use other that in simp)
qed

lemma all_pair_rows: "(\<forall>r \<in> set t. P r) \<longleftrightarrow> (\<forall>lh p cl. \<forall>r \<in> set (pair_rows lh p cl t). P r)"
  by (auto simp: pair_rows_def)

lemma compliance_effect_ok:
  assumes "compliance_effect b err t t'"
  shows "\<forall>lh p cl. length (pair_rows lh p cl t) \<le> 1 \<Longrightarrow> length (pair_rows lh p cl t') \<le> 1"
    and "\<forall>r \<in> set t. co_compliance r \<in> {Compliant, NonCompliant, Unknown} \<Longrightarrow>
      \<forall>r \<in> set t'. co_compliance r \<in> {Compliant, NonCompliant, Unknown}"
proof -
  consider "t' = t" | lh' ps qs where "pairs_synced lh' ps t t' \<or> states_synced lh' qs t t'"
    using assms by (auto simp: compliance_effect_def split: status_bundle.splits if_splits)
  note cases = this
  show "length (pair_rows lh p cl t') \<le> 1" if "\<forall>lh p cl. length (pair_rows lh p cl t) \<le> 1"
  proof (cases rule: cases)
    case 2
    then show ?thesis by (rule synced_pairs_rows(1)) (use that in blast)
  qed (use that in simp)
  show "\<forall>r \<in> set t'. co_compliance r \<in> {Compliant, NonCompliant, Unknown}"
    if ok: "\<forall>r \<in> set t. co_compliance r \<in> {Compliant, NonCompliant, Unknown}"
  proof (cases rule: cases)
    case 2
    have "\<forall>r \<in> set (pair_rows lh p cl t'). co_compliance r \<in> {Compliant, NonCompliant, Unknown}" for lh p cl
      by (rule synced_pairs_rows(2) [OF 2]) (use ok [unfolded all_pair_rows [of t]] in \<open>blast, simp_all\<close>)
    then show ?thesis unfolding all_pair_rows [of t'] by blast
  qed (use ok in simp)
qed

lemma agg_step_one:
  assumes "agg_step lh' new ks t t'" "\<forall>q. length (new q) \<le> 1" "length (agg_rows lh q t) \<le> 1"
  shows "length (agg_rows lh q t') \<le> 1"
  using assms agg_rows_other [of lh' t' t lh q] by (cases "lh = lh'") (auto simp: agg_step_def)

lemma reported_rows_one: "distinct (map mpc_PolicyID ps) \<Longrightarrow> length (reported_rows lh ps q) \<le> 1"
  using reported_rows_eq(1) [where ps = ps and lh = lh] reported_rows_eq(2) [where ps = ps and lh = lh and q = q]
  by (cases "q \<in> mpc_PolicyID ` set ps") auto

lemma effects_tables_ok:
  assumes "clusters_effect b err (tb_clusters tb d) (tb_clusters tb d')"
    and "compliance_effect b err (tb_compliance tb d) (tb_compliance tb d')"
    and agg: "aggregated_effect b err (tb_aggregated tb d) (tb_aggregated tb d')"
    and ok: "tables_ok tb d" and b: "well_formed_bundle b"
  shows "tables_ok tb d'"
proof -
  have "length (agg_rows lh q (tb_aggregated tb d')) \<le> 1" for lh q
  proof (cases b)
    case (MinimalComplianceStatusBundle m)
    with agg obtain ks where "agg_step (msb_LeafHubName m)
        (reported_rows (msb_LeafHubName m) (map the (msb_Objects m))) ks (tb_aggregated tb d) (tb_aggregated tb d')"
      by (auto simp: aggregated_effect_def)
    moreover have "distinct (map mpc_PolicyID (map the (msb_Objects m)))"
      using b MinimalComplianceStatusBundle by simp
    then have "\<forall>q. length (reported_rows (msb_LeafHubName m) (map the (msb_Objects m)) q) \<le> 1"
      using reported_rows_one by blast
    ultimately show ?thesis by (rule agg_step_one) (use ok in \<open>simp add: tables_ok_def\<close>)
  qed (use agg ok in \<open>simp_all add: aggregated_effect_def tables_ok_def\<close>)
  moreover have "length (cluster_rows lh n (tb_clusters tb d')) \<le> 1" for lh n
    by (rule clusters_effect_one [OF assms(1)]) (use ok in \<open>simp add: tables_ok_def\<close>)
  moreover have "length (pair_rows lh p cl (tb_compliance tb d')) \<le> 1" for lh p cl
    by (rule compliance_effect_ok(1) [OF assms(2)]) (use ok in \<open>simp add: tables_ok_def\<close>)
  moreover have "\<forall>r \<in> set (tb_compliance tb d'). co_compliance r \<in> {Compliant, NonCompliant, Unknown}"
    by (rule compliance_effect_ok(2) [OF assms(2)]) (use ok in \<open>simp add: tables_ok_def\<close>)
  ultimately show ?thesis by (simp add: tables_ok_def)
qed

end
