(* ===== verification/Transport_Properties.thy ===== *)
theory Transport_Properties
  imports Entry_Point Handler_Effects
begin

text \<open>
  Properties of the transport: the configuration it reads, what it acknowledges, that every bundle it
  delivers has its handler, and the two ways its goroutine panics.
\<close>

section \<open>Facts\<close>

lemma go_atoi_itoa: "n < 2 ^ 63 \<Longrightarrow> go_atoi (itoa n) = Inr (int n)"
proof -
  assume n: "n < 2 ^ 63"
  obtain c cs where c: "itoa n = c # cs" using itoa_nonempty by (cases "itoa n") auto
  then have "is_digit c" using itoa_digits [of c n] by simp
  then have "c \<noteq> CHR ''-''" "c \<noteq> CHR ''+''" by (auto simp: is_digit_def)
  moreover have "atoi_digits (c # cs) = Some n"
    using c itoa_digits [of _ n] digits_value_itoa [of n] by (auto simp: atoi_digits_def list_all_iff)
  moreover have "int n < 2 ^ 63" using n by (metis of_nat_less_iff of_nat_numeral of_nat_power)
  ultimately show ?thesis by (simp add: go_atoi_def c int_in_range_def)
qed

lemma receive_object_dot:
  "receive_object unmarshal regs level (Some m) (Some buffer) = Inr outcome \<Longrightarrow> CHR ''.'' \<in> set (omd_ObjectID m)"
  by (rule ccontr) (simp add: receive_object_dotless)

definition sync_env :: "string \<Rightarrow> string \<Rightarrow> nat \<Rightarrow> nat \<Rightarrow> string \<rightharpoonup> string" where
  "sync_env protocol host port interval =
     [envVarSyncServiceProtocol \<mapsto> protocol, envVarSyncServiceHost \<mapsto> host,
      envVarSyncServicePort \<mapsto> itoa port, envVarSyncServicePollingInterval \<mapsto> itoa interval]"

lemma sync_env_simps:
  "sync_env protocol host port interval envVarSyncServiceProtocol = Some protocol"
  "sync_env protocol host port interval envVarSyncServiceHost = Some host"
  "sync_env protocol host port interval envVarSyncServicePort = Some (itoa port)"
  "sync_env protocol host port interval envVarSyncServicePollingInterval = Some (itoa interval)"
  by (simp_all add: sync_env_def envVarSyncServiceProtocol_def envVarSyncServiceHost_def
      envVarSyncServicePort_def envVarSyncServicePollingInterval_def)

lemma received_bundleE:
  assumes "receive_object unmarshal regs level metadata fetched = Inr (BundleReceived b)"
  obtains key r buffer where "regs key = Some r" "tr_Predicate r level"
    "unmarshal buffer (tr_CreateBundleFunc r) = Inr b"
proof -
  obtain m buffer where m: "metadata = Some m" "fetched = Some buffer"
    using assms by (cases metadata; cases fetched) (auto simp: receive_object_def)
  have "CHR ''.'' \<in> set (omd_ObjectID m)" using assms unfolding m by (rule receive_object_dot)
  from receive_object_returns [OF this, of unmarshal regs level fetched] assms m that show ?thesis by auto
qed

text \<open>What the registrations of the setup deliver: each kind of bundle, at the level it belongs to.\<close>

lemma received_level:
  assumes "distinct (msg_keys dt)" "ss_msgIDToRegistrationMap t0 = Map.empty"
    and unm: "\<forall>buf b0 b. unmarshal buf b0 = Inr b \<longrightarrow> GetBundleType b = GetBundleType b0"
    and rcv: "receive_object unmarshal (ss_msgIDToRegistrationMap (setup_transport dt t0)) level metadata fetched =
      Inr (BundleReceived b)"
  shows "(GetBundleType b = ''ManagedClustersStatusBundle'') \<or>
    (GetBundleType b = ''ClustersPerPolicyBundle'' \<and> level = dt_Full dt) \<or>
    (GetBundleType b = ''ComplianceStatusBundle'' \<and> level = dt_Full dt) \<or>
    (GetBundleType b = ''MinimalComplianceStatusBundle'' \<and> level = dt_Minimal dt)"
proof -
  obtain k r buffer where r: "ss_msgIDToRegistrationMap (setup_transport dt t0) k = Some r" "tr_Predicate r level"
      "unmarshal buffer (tr_CreateBundleFunc r) = Inr b"
    by (rule received_bundleE [OF rcv])
  have ty: "GetBundleType b = GetBundleType (tr_CreateBundleFunc r)" using unm r(3) by blast
  have k: "k \<in> set (msg_keys dt)"
    using setup_transport_map(5) [OF assms(1), of k t0] r(1) assms(2) by force
  note maps = setup_transport_map(1-4) [OF assms(1), of t0]
  from k have "k = dt_ManagedClustersMsgKey dt \<or> k = dt_ClustersPerPolicyMsgKey dt \<or>
      k = dt_PolicyComplianceMsgKey dt \<or> k = dt_MinimalPolicyComplianceMsgKey dt"
    by (simp add: msg_keys_def)
  then show "(GetBundleType b = ''ManagedClustersStatusBundle'') \<or>
      (GetBundleType b = ''ClustersPerPolicyBundle'' \<and> level = dt_Full dt) \<or>
      (GetBundleType b = ''ComplianceStatusBundle'' \<and> level = dt_Full dt) \<or>
      (GetBundleType b = ''MinimalComplianceStatusBundle'' \<and> level = dt_Minimal dt)"
  proof (elim disjE)
    assume "k = dt_ManagedClustersMsgKey dt"
    with r(1) maps(1) have "tr_CreateBundleFunc r = NewManagedClustersStatusBundle" "tr_Predicate r = (\<lambda>_. True)"
      by auto
    with r(2) ty show ?thesis by (simp add: NewManagedClustersStatusBundle_def)
  next
    assume "k = dt_ClustersPerPolicyMsgKey dt"
    with r(1) maps(2) have "tr_CreateBundleFunc r = NewClustersPerPolicyBundle" "tr_Predicate r = (\<lambda>l. l = dt_Full dt)"
      by auto
    with r(2) ty show ?thesis by (simp add: NewClustersPerPolicyBundle_def)
  next
    assume "k = dt_PolicyComplianceMsgKey dt"
    with r(1) maps(3) have "tr_CreateBundleFunc r = NewComplianceStatusBundle" "tr_Predicate r = (\<lambda>l. l = dt_Full dt)"
      by auto
    with r(2) ty show ?thesis by (simp add: NewComplianceStatusBundle_def)
  next
    assume "k = dt_MinimalPolicyComplianceMsgKey dt"
    with r(1) maps(4) have "tr_CreateBundleFunc r = NewMinimalComplianceStatusBundle" "tr_Predicate r = (\<lambda>l. l = dt_Minimal dt)"
      by auto
    with r(2) ty show ?thesis by (simp add: NewMinimalComplianceStatusBundle_def)
  qed
qed

section \<open>Properties\<close>

text \<open>C33: The configuration is read back as it was written, up to the width of the port. For numbers within
  64 bits, the protocol, the host and the polling interval are exactly those of the environment; of the
  port only the remainder modulo 65536 is kept, so a port that is too large is accepted and becomes
  another one.\<close>

theorem environment_round_trip:
  assumes "port < 2 ^ 63" "interval < 2 ^ 63"
  shows "\<exists>p. readEnvVars (sync_env protocol host port interval) = Inr (protocol, host, p, int interval) \<and>
    unat p = port mod 65536"
proof -
  have "readEnvVars (sync_env protocol host port interval) =
      Inr (protocol, host, word_of_int (int port), int interval)"
    by (simp add: readEnvVars_def lookup_env_def parse_env_def sync_env_simps go_atoi_itoa [OF assms(1)] go_atoi_itoa [OF assms(2)])
  moreover have "unat (word_of_int (int port) :: 16 word) = port mod 65536"
    by (simp add: unat_of_nat)
  ultimately show ?thesis by blast
qed

lemma environment_round_trip_witness:
  "\<exists>p. readEnvVars (sync_env ''http'' ''sync'' 73626 5) = Inr (''http'', ''sync'', p, 5) \<and> unat p = 8090"
  using environment_round_trip [of 73626 5 "''http''" "''sync''"] by simp

text \<open>C22: The transport acknowledges exactly what it has inserted. A round of its loop either changes
  neither the list of acknowledged objects nor the conflation manager, or it has decoded an object whose
  message id is registered and whose predicate holds, has inserted that bundle, and acknowledges that
  object.\<close>

theorem acknowledged_iff_inserted:
  assumes "handle_bundles_step unmarshal insertBundle level choice (s, t) = Some (Inr (s', t'))"
  shows "(ss_acknowledged s' = ss_acknowledged s \<and> t' = t) \<or>
    (\<exists>m buffer r b. choice = TakeObject (Some m) (Some buffer) \<and>
       ss_msgIDToRegistrationMap s (go_split CHR ''.'' (omd_ObjectID m) ! 1) = Some r \<and>
       tr_Predicate r level \<and> unmarshal buffer (tr_CreateBundleFunc r) = Inr b \<and>
       insertBundle b m t = Inr t' \<and> ss_acknowledged s' = ss_acknowledged s @ [m])"
proof (cases choice)
  case TakeStop
  with assms show ?thesis by (auto simp: handle_bundles_step_def split: if_splits)
next
  case (TakeObject metadata fetched)
  with assms obtain outcome where o: "receive_object unmarshal (ss_msgIDToRegistrationMap s) level metadata fetched =
      Inr outcome"
    by (auto simp: handle_bundles_step_def bind_go_eq_Inr split: if_splits)
  then obtain m where m: "metadata = Some m" by (cases metadata) (auto simp: receive_object_def)
  show ?thesis
  proof (cases outcome)
    case (BundleReceived b)
    with o m obtain buffer where f: "fetched = Some buffer"
      by (cases fetched) (auto simp: receive_object_def)
    have "CHR ''.'' \<in> set (omd_ObjectID m)" using o unfolding m f by (rule receive_object_dot)
    from receive_object_returns [OF this, of unmarshal "ss_msgIDToRegistrationMap s" level fetched] o m BundleReceived
    have "\<exists>r buffer. fetched = Some buffer \<and>
        ss_msgIDToRegistrationMap s (go_split CHR ''.'' (omd_ObjectID m) ! 1) = Some r \<and>
        tr_Predicate r level \<and> unmarshal buffer (tr_CreateBundleFunc r) = Inr b" by auto
    moreover have "insertBundle b m t = Inr t' \<and> ss_acknowledged s' = ss_acknowledged s @ [m]"
      using assms TakeObject m o BundleReceived by (auto simp: handle_bundles_step_def bind_go_eq_Inr split: if_splits)
    ultimately show ?thesis using TakeObject m by blast
  qed (use assms TakeObject o in \<open>auto simp: handle_bundles_step_def split: if_splits\<close>)
qed

definition started_transport :: sync_service where
  "started_transport = ss_Start (setup_transport sample_types
     \<lparr>ss_host = ''sync'', ss_port = 8090, ss_pollingInterval = 5, ss_msgIDToRegistrationMap = Map.empty,
      ss_started = False, ss_stopped = False, ss_stopChanClosed = False, ss_metaChanClosed = False,
      ss_returned = False, ss_acknowledged = []\<rparr>)"

definition clusters_object :: object_meta_data where
  "clusters_object = \<lparr>omd_ObjectID = ''hub1.ManagedClusters''\<rparr>"

lemma clusters_object_step:
  "handle_bundles_step (\<lambda>_ b. Inr b) (\<lambda>b m (n :: nat). Inr (n + 1)) ''full'' (TakeObject (Some clusters_object) (Some ''x''))
     (started_transport, 0) = Some (Inr (started_transport\<lparr>ss_acknowledged := [clusters_object]\<rparr>, 1))"
proof -
  have "go_split CHR ''.'' ''hub1.ManagedClusters'' ! Suc 0 = ''ManagedClusters''" by code_simp
  then show ?thesis
    by (simp add: handle_bundles_step_def receive_object_def started_transport_def clusters_object_def
        setup_transport_def syncers_def
        Let_def ss_Register_def ss_Start_def sample_types_def go_split_index_cases)
qed

lemma acknowledged_iff_inserted_witness:
  "ss_acknowledged (started_transport\<lparr>ss_acknowledged := [clusters_object]\<rparr>) =
     ss_acknowledged started_transport @ [clusters_object]"
  using acknowledged_iff_inserted [OF clusters_object_step] by auto

text \<open>C23: Every bundle the transport delivers has exactly one registration in the conflation manager, and
  that has the bundle's own handler. It is delivered only at the aggregation level it belongs to: the
  full and the minimal compliance kinds exclude each other. (Decoding fills the bundle created for the
  message id and so keeps its type.)\<close>

theorem delivered_bundles_have_handlers:
  assumes "createManager dt mg env pool = Created (level0, t, s)" "distinct (msg_keys dt)"
    and "\<forall>buf b0 b. unmarshal buf b0 = Inr b \<longrightarrow> GetBundleType b = GetBundleType b0"
    and "receive_object unmarshal (ss_msgIDToRegistrationMap t) level metadata fetched = Inr (BundleReceived b)"
  shows "(\<exists>r. filter (\<lambda>r. reg_bundleType r = GetBundleType b) (cm_registrations (br_manager s)) = [r] \<and>
       reg_handlerFunction r = handler_of b) \<and>
    (GetBundleType b \<in> {''ClustersPerPolicyBundle'', ''ComplianceStatusBundle''} \<longrightarrow> level = dt_Full dt) \<and>
    (GetBundleType b = ''MinimalComplianceStatusBundle'' \<longrightarrow> level = dt_Minimal dt)"
proof -
  obtain t0 where t0: "NewSyncService env = Inr t0" "t = setup_transport dt t0"
      "s = \<lparr>br_dispatcher = NewDispatcher, br_manager = foldl Register NewConflationManager setup_registrations,
          br_readyQueue = NewConflationReadyQueue, br_pool = pool\<rparr>"
    by (rule createManager_Created [OF assms(1)])
  have empty: "ss_msgIDToRegistrationMap t0 = Map.empty"
    using t0(1) by (auto simp: NewSyncService_def split: sum.splits)
  have regs: "cm_registrations (br_manager s) = setup_registrations"
    by (simp add: t0(3) foldl_Register NewConflationManager_def)
  have one: "\<exists>r. filter (\<lambda>r. reg_bundleType r = GetBundleType b) setup_registrations = [r] \<and>
      reg_handlerFunction r = handler_of b"
    by (cases b) (simp_all add: setup_registrations_def)
  from received_level [OF assms(2) empty assms(3) assms(4) [unfolded t0(2)]]
  have "(GetBundleType b \<in> {''ClustersPerPolicyBundle'', ''ComplianceStatusBundle''} \<longrightarrow> level = dt_Full dt) \<and>
    (GetBundleType b = ''MinimalComplianceStatusBundle'' \<longrightarrow> level = dt_Minimal dt)"
    by (elim disjE) simp_all
  with one regs show ?thesis by simp
qed

lemma delivered_bundles_have_handlers_witness:
  "\<exists>t s. createManager sample_types good_calls sample_env sample_pool = Created (''full'', t, s) \<and>
     receive_object (\<lambda>_ b. Inr b) (ss_msgIDToRegistrationMap t) ''full'' (Some clusters_object) (Some ''x'') =
       Inr (BundleReceived NewManagedClustersStatusBundle) \<and>
     (\<exists>r. filter (\<lambda>r. reg_bundleType r = ''ManagedClustersStatusBundle'') (cm_registrations (br_manager s)) = [r] \<and>
        reg_handlerFunction r = ManagedClustersHandler)"
proof -
  obtain t s where ts: "createManager sample_types good_calls sample_env sample_pool = Created (''full'', t, s)"
    using sample_created by blast
  obtain t0 where t0: "t = setup_transport sample_types t0" by (rule createManager_Created [OF ts])
  have dist: "distinct (msg_keys sample_types)" by (simp add: msg_keys_def sample_types_def)
  have key: "dt_ManagedClustersMsgKey sample_types = ''ManagedClusters''" by (simp add: sample_types_def)
  have "go_split CHR ''.'' ''hub1.ManagedClusters'' ! Suc 0 = ''ManagedClusters''" by code_simp
  then have b: "receive_object (\<lambda>_ b. Inr b) (ss_msgIDToRegistrationMap t) ''full'' (Some clusters_object) (Some ''x'') =
      Inr (BundleReceived NewManagedClustersStatusBundle)"
    by (simp add: receive_object_def clusters_object_def go_split_index_cases t0
        setup_transport_map(1) [OF dist, unfolded key])
  have "\<forall>buf b0 b. Inr b0 = (Inr b :: go_error + status_bundle) \<longrightarrow> GetBundleType b = GetBundleType b0" by simp
  from delivered_bundles_have_handlers [OF ts dist this b] ts b show ?thesis
    by (auto simp: NewManagedClustersStatusBundle_def)
qed

text \<open>C35: The goroutine of the transport panics in two cases. An object whose id has no dot ends the
  process with an index out of range; and after \<open>Stop\<close>, which closes both channels, the select may take
  the closed channel of objects and read the id through a nil pointer.\<close>

theorem transport_panics:
  assumes "ss_started s" "\<not> ss_returned s" "\<not> ss_stopped s" "\<not> ss_metaChanClosed s"
  shows "(CHR ''.'' \<notin> set (omd_ObjectID m) \<longrightarrow>
      handle_bundles_step unmarshal insertBundle level (TakeObject (Some m) (Some buffer)) (s, t) =
        Some (Inl IndexOutOfRange)) \<and>
    handle_bundles_step unmarshal insertBundle level (TakeObject None fetched) (ss_Stop s, t) =
      Some (Inl NilDereference) \<and>
    handle_bundles_step unmarshal insertBundle level TakeStop (ss_Stop s, t) =
      Some (Inr ((ss_Stop s)\<lparr>ss_returned := True\<rparr>, t))"
  using assms
  by (simp add: handle_bundles_step_def receive_object_dotless ss_Stop_def)
     (simp add: receive_object_def)

lemma transport_panics_witness:
  "handle_bundles_step (\<lambda>_ b. Inr b) (\<lambda>b m (n :: nat). Inr (n + 1)) ''full''
     (TakeObject (Some \<lparr>omd_ObjectID = ''hub1''\<rparr>) (Some ''x'')) (started_transport, 0) = Some (Inl IndexOutOfRange)"
  using transport_panics [of started_transport "\<lparr>omd_ObjectID = ''hub1''\<rparr>" "\<lambda>_ b. Inr b" "\<lambda>b m n. Inr (n + 1)"
      "''full''" "''x''" "0 :: nat" None]
  by (simp add: started_transport_def setup_transport_def syncers_def Let_def ss_Register_def ss_Start_def)

end
