(* ===== verification/Handler_Runs.thy ===== *)
theory Handler_Runs
  imports Handlers
begin

text \<open>
  The handlers call by call. Between two calls of the database a handler keeps what it has read in local
  variables, and other goroutines can change the database; a handler run is therefore a tree that
  branches on the result of each call. A run that nobody interrupts is the handler function.
\<close>

section \<open>Runs\<close>

text \<open>
  A run has returned, has panicked, or is about to make a call: a function of the database that gives
  the rest of the run and the new database. The trees are inductive, so every run ends after finitely
  many calls.
\<close>

datatype 'd db_run =
    Returned "go_error option"
  | Panicked go_panic
  | Calling "'d \<Rightarrow> 'd db_run \<times> 'd"

primrec run_alone :: "'d db_run \<Rightarrow> 'd \<Rightarrow> (go_error option \<times> 'd) go" where
  "run_alone (Returned err) = (\<lambda>d. Inr (err, d))"
| "run_alone (Panicked p) = (\<lambda>d. Inl p)"
| "run_alone (Calling f) = (\<lambda>d. case map_prod run_alone (\<lambda>d. d) (f d) of (rest, d') \<Rightarrow> rest d')"

definition go_run :: "'d db_run go \<Rightarrow> 'd db_run" where
  "go_run r = (case r of Inl p \<Rightarrow> Panicked p | Inr run \<Rightarrow> run)"

text \<open>A call that only reads, and one that may change the database.\<close>

definition query_call :: "('d \<Rightarrow> 'a) \<Rightarrow> ('a \<Rightarrow> 'd db_run) \<Rightarrow> 'd db_run" where
  "query_call query rest = Calling (\<lambda>d. (rest (query d), d))"

definition statement_call :: "('d \<Rightarrow> 'a \<times> 'd) \<Rightarrow> ('a \<Rightarrow> 'd db_run) \<Rightarrow> 'd db_run" where
  "statement_call exec rest = Calling (\<lambda>d. case exec d of (result, d') \<Rightarrow> (rest result, d'))"

lemma run_alone_calls [simp]:
  "run_alone (query_call query rest) d = run_alone (rest (query d)) d"
  "run_alone (statement_call exec rest) d = (case exec d of (result, d') \<Rightarrow> run_alone (rest result) d')"
  by (simp_all add: query_call_def statement_call_def split: prod.split)

lemma run_alone_go_run:
  "run_alone (go_run (bind_go m f)) d = bind_go m (\<lambda>x. run_alone (go_run (f x)) d)"
  by (cases m) (simp_all add: go_run_def)

lemma go_run_simps [simp]: "go_run (Inr r) = r" "go_run (Inl p) = Panicked p"
  by (simp_all add: go_run_def)

section \<open>The handlers that send a batch\<close>

text \<open>The last call: the batch is sent, and an error of the database is wrapped.\<close>

definition send_run :: "('q \<Rightarrow> 'd \<Rightarrow> go_error option \<times> 'd) \<Rightarrow> 'q \<Rightarrow> 'd db_run" where
  "send_run send q = statement_call (send q)
     (\<lambda>result. Returned (map_option (\<lambda>err. ''failed to perform batch - '' @ err) result))"

definition managed_clusters_run ::
  "('d, 'b, 'q) managed_clusters_status_db \<Rightarrow> ((string \<times> string) list \<Rightarrow> (string \<times> string) list) \<Rightarrow>
   status_bundle \<Rightarrow> 'd db_run" where
  "managed_clusters_run db rng bundle =
     query_call (cdb_GetManagedClustersByLeafHub db StatusSchema ManagedClustersTable (GetLeafHubName bundle))
       (\<lambda>result. case result of
          Inl err \<Rightarrow> Returned (Some (''failed fetching leaf hub managed clusters from db - '' @ err))
        | Inr clustersFromDB \<Rightarrow>
            go_run (bind_go (managed_clusters_batch db rng bundle clustersFromDB)
              (\<lambda>q. Inr (send_run (cdb_SendBatch db) q))))"

definition clusters_per_policy_run ::
  "('d, 'set, 'b, 'q) policies_status_db \<Rightarrow> 'set go_sets \<Rightarrow>
   ((string \<times> 'set) list \<Rightarrow> (string \<times> 'set) list) \<Rightarrow> status_bundle \<Rightarrow> string \<Rightarrow> string \<Rightarrow>
   'd db_run" where
  "clusters_per_policy_run db S rng bundle dbSchema dbTableName =
     query_call (pdb_GetComplianceStatusByLeafHub db dbSchema dbTableName (GetLeafHubName bundle))
       (\<lambda>result. case result of
          Inl err \<Rightarrow> Returned (Some (compliance_fetch_error (GetLeafHubName bundle) err))
        | Inr complianceRowsFromDB \<Rightarrow>
            go_run (bind_go (bind_go (clusters_per_policy_rows db S rng bundle dbSchema dbTableName
                complianceRowsFromDB) (pdb_Build db)) (\<lambda>q. Inr (send_run (pdb_SendBatch db) q))))"

definition compliance_run ::
  "('d, 'set, 'b, 'q) policies_status_db \<Rightarrow> 'set go_sets \<Rightarrow>
   ((string \<times> 'set non_compliant_cluster_sets) list \<Rightarrow> (string \<times> 'set non_compliant_cluster_sets) list) \<Rightarrow>
   status_bundle \<Rightarrow> string \<Rightarrow> string \<Rightarrow> 'd db_run" where
  "compliance_run db S rng bundle dbSchema dbTableName =
     query_call (pdb_GetNonCompliantClustersByLeafHub db dbSchema dbTableName (GetLeafHubName bundle))
       (\<lambda>result. case result of
          Inl err \<Rightarrow> Returned (Some (compliance_fetch_error (GetLeafHubName bundle) err))
        | Inr nonCompliantRowsFromDB \<Rightarrow>
            go_run (bind_go (bind_go (compliance_status_rows db S rng bundle dbSchema dbTableName
                nonCompliantRowsFromDB) (pdb_Build db)) (\<lambda>q. Inr (send_run (pdb_SendBatch db) q))))"

section \<open>The minimal compliance handler\<close>

text \<open>Two calls for each policy of the bundle, the second after the answer of the first; then one for
  each policy to be deleted.\<close>

definition upsert_run ::
  "'d pg_conn \<Rightarrow> string \<Rightarrow> string \<Rightarrow> string \<Rightarrow> string \<Rightarrow> int \<Rightarrow> int \<Rightarrow> (go_error option \<Rightarrow> 'd db_run) \<Rightarrow>
   'd db_run" where
  "upsert_run conn schema tableName leafHubName policyID appliedClusters nonCompliantClusters rest =
     query_call (conn_QueryRow conn (aggregated_exists_sql schema tableName)
         [ArgString leafHubName, ArgString policyID])
       (\<lambda>result. case result of
          Inl err \<Rightarrow> rest (Some (''failed to read from database: '' @ err))
        | Inr exists \<Rightarrow>
            if exists
            then statement_call (conn_Exec conn (aggregated_update_sql schema tableName)
                [ArgInt appliedClusters, ArgInt nonCompliantClusters, ArgString leafHubName, ArgString policyID])
              (\<lambda>err. rest (map_option (\<lambda>e. ''failed to update compliance row in database: '' @ e) err))
            else statement_call (conn_Exec conn (aggregated_insert_sql schema tableName)
                [ArgString policyID, ArgString leafHubName, ArgInt appliedClusters, ArgInt nonCompliantClusters])
              (\<lambda>err. rest (map_option (\<lambda>e. ''failed to insertRowsArgs into database: '' @ e) err)))"

fun update_aggregated_run ::
  "'d pg_conn \<Rightarrow> 'set go_sets \<Rightarrow> string \<Rightarrow> bundle_object list \<Rightarrow> 'set \<Rightarrow> ('set \<Rightarrow> 'd db_run) \<Rightarrow>
   'd db_run" where
  "update_aggregated_run conn S leafHubName [] policyIDsFromDB rest = rest policyIDsFromDB"
| "update_aggregated_run conn S leafHubName (object # objects) policyIDsFromDB rest =
     (case object of
        ObjMinimalPolicyComplianceStatus pointer \<Rightarrow>
          go_run (bind_go (go_deref pointer) (\<lambda>status. Inr
            (upsert_run conn StatusSchema MinimalComplianceTable leafHubName (mpc_PolicyID status)
               (mpc_AppliedClusters status) (mpc_NonCompliantClusters status)
               (\<lambda>result. case result of
                  Some err \<Rightarrow> Returned (Some (''failed to update minimal compliance of policy '' @
                    quoted (mpc_PolicyID status) @ '', leaf hub '' @ quoted leafHubName @ '' in db - '' @ err))
                | None \<Rightarrow> update_aggregated_run conn S leafHubName objects
                    (set_Remove S policyIDsFromDB (mpc_PolicyID status)) rest))))
      | _ \<Rightarrow> update_aggregated_run conn S leafHubName objects policyIDsFromDB rest)"

fun delete_aggregated_run :: "'d pg_conn \<Rightarrow> string \<Rightarrow> string list \<Rightarrow> 'd db_run" where
  "delete_aggregated_run conn leafHubName [] = Returned None"
| "delete_aggregated_run conn leafHubName (policyID # policyIDs) =
     statement_call (DeleteAllComplianceRows conn StatusSchema MinimalComplianceTable leafHubName policyID)
       (\<lambda>result. case result of
          Some err \<Rightarrow> Returned (Some (''failed deleted compliance rows of policy '' @ quoted policyID @
            '', leaf hub '' @ quoted leafHubName @ '' from db - '' @ err))
        | None \<Rightarrow> delete_aggregated_run conn leafHubName policyIDs)"

definition minimal_compliance_run ::
  "'d pg_conn \<Rightarrow> 'set go_sets \<Rightarrow> status_bundle \<Rightarrow> 'd db_run" where
  "minimal_compliance_run conn S bundle =
     query_call (GetPolicyIDsByLeafHub conn S StatusSchema MinimalComplianceTable (GetLeafHubName bundle))
       (\<lambda>result. case result of
          Inl err \<Rightarrow> Returned (Some (''failed fetching leaf hub '' @ quoted (GetLeafHubName bundle) @
            '' policies from db - '' @ err))
        | Inr policyIDsFromDB \<Rightarrow>
            update_aggregated_run conn S (GetLeafHubName bundle) (GetObjects bundle) policyIDsFromDB
              (\<lambda>remaining. delete_aggregated_run conn (GetLeafHubName bundle) (set_ToSlice S remaining)))"

section \<open>The registered functions\<close>

fun handler_run ::
  "'d pg_conn \<Rightarrow> 'set go_sets \<Rightarrow> 'set map_orders \<Rightarrow> bundle_handler \<Rightarrow> status_bundle \<Rightarrow> 'd db_run" where
  "handler_run conn S ord ManagedClustersHandler b = managed_clusters_run (clusters_db conn) (ord_clusters ord) b"
| "handler_run conn S ord ClustersPerPolicyHandler b =
     clusters_per_policy_run (policies_db conn S (ord_deletes ord)) S (ord_policies ord) b
       StatusSchema ComplianceTable"
| "handler_run conn S ord ComplianceHandler b =
     compliance_run (policies_db conn S (ord_deletes ord)) S (ord_statuses ord) b StatusSchema ComplianceTable"
| "handler_run conn S ord MinimalComplianceHandler b = minimal_compliance_run conn S b"

section \<open>A run that nobody interrupts\<close>

lemma run_alone_send_run:
  "run_alone (send_run send q) d =
     (case send q d of
        (Some err, d') \<Rightarrow> Inr (Some (''failed to perform batch - '' @ err), d')
      | (None, d') \<Rightarrow> Inr (None, d'))"
  by (simp add: send_run_def split: prod.split option.split)

lemma run_alone_upsert:
  "run_alone (upsert_run conn schema tableName lh p a n rest) d =
     (case InsertOrUpdateAggregatedPolicyCompliance conn schema tableName lh p a n d of
        (err, d') \<Rightarrow> run_alone (rest err) d')"
  by (simp add: upsert_run_def InsertOrUpdateAggregatedPolicyCompliance_def
      split: sum.split prod.split option.split)

lemma run_alone_update_aggregated:
  "run_alone (update_aggregated_run conn S lh objs s rest) d =
     bind_go (update_aggregated (aggregated_db conn S) S lh objs s d) (\<lambda>(err, s', d').
       case err of Some e \<Rightarrow> Inr (Some e, d') | None \<Rightarrow> run_alone (rest s') d')"
proof (induction objs arbitrary: s d)
  case (Cons x objs)
  show ?case
  proof (cases x)
    case (ObjMinimalPolicyComplianceStatus p)
    obtain err d1 where run: "\<And>st. p = Some st \<Longrightarrow> InsertOrUpdateAggregatedPolicyCompliance conn StatusSchema
        MinimalComplianceTable lh (mpc_PolicyID st) (mpc_AppliedClusters st) (mpc_NonCompliantClusters st) d = (err, d1)"
      by (cases p) (auto intro: prod.exhaust)
    then show ?thesis
      by (cases p; cases err)
         (simp_all add: ObjMinimalPolicyComplianceStatus run_alone_go_run run_alone_upsert aggregated_db_def Cons)
  qed (simp_all add: Cons)
qed simp

lemma run_alone_delete_aggregated:
  "run_alone (delete_aggregated_run conn lh qs) d = Inr (delete_aggregated (aggregated_db conn S) lh qs d)"
  by (induction qs arbitrary: d) (simp_all add: aggregated_db_def split: prod.split option.split)

lemma run_alone_handler:
  "run_alone (handler_run conn S ord h b) d = handler_function conn S ord h b d"
proof (cases h)
  case MinimalComplianceHandler
  have get: "adb_GetPolicyIDsByLeafHub (aggregated_db conn S) = GetPolicyIDsByLeafHub conn S"
    by (simp add: aggregated_db_def)
  have loop: "run_alone (update_aggregated_run conn S lh objs s
        (\<lambda>s'. delete_aggregated_run conn lh (set_ToSlice S s'))) d =
      bind_go (update_aggregated (aggregated_db conn S) S lh objs s d) (\<lambda>(err, s', d').
        case err of Some e \<Rightarrow> Inr (Some e, d')
        | None \<Rightarrow> Inr (delete_aggregated (aggregated_db conn S) lh (set_ToSlice S s') d'))" for lh objs s
    unfolding run_alone_update_aggregated run_alone_delete_aggregated [where S = S] ..
  show ?thesis
    by (simp add: MinimalComplianceHandler minimal_compliance_run_def handleMinimalComplianceBundle_def
        loop get Let_def split: sum.split)
qed (simp_all add: managed_clusters_run_def handleManagedClustersBundle_def clusters_per_policy_run_def
    handleClustersPerPolicyBundle_def compliance_run_def handleComplianceBundle_def send_built_def
    run_alone_go_run run_alone_send_run Let_def split: sum.split)

section \<open>Runs that never panic\<close>

text \<open>Whatever the database answers to each call.\<close>

inductive run_safe :: "'d db_run \<Rightarrow> bool" where
  "run_safe (Returned err)"
| "(\<And>d. run_safe (fst (f d))) \<Longrightarrow> run_safe (Calling f)"

inductive_simps run_safe_simps [simp]:
  "run_safe (Returned err)"
  "run_safe (Panicked p)"
  "run_safe (Calling f)"

lemma run_safe_calls [simp]:
  "run_safe (query_call query rest) \<longleftrightarrow> (\<forall>d. run_safe (rest (query d)))"
  "(\<And>x. run_safe (rest x)) \<Longrightarrow> run_safe (statement_call exec rest)"
  "run_safe (send_run send q)"
  by (simp_all add: query_call_def statement_call_def send_run_def split: prod.split)

lemma run_safe_alone: "run_safe r \<Longrightarrow> \<exists>err d'. run_alone r d = Inr (err, d')"
proof (induction arbitrary: d rule: run_safe.induct)
  case (2 f)
  obtain r' d1 where f: "f d = (r', d1)" by fastforce
  with 2(2) [of d d1] show ?case by simp
qed simp

text \<open>A handler that returns when it runs alone does not panic when it computes its batch.\<close>

lemma batch_run_safe:
  fixes query :: "'d \<Rightarrow> go_error + 'a"
  defines "run \<equiv> \<lambda>fail batch send. query_call query (\<lambda>result. case result of
      Inl err \<Rightarrow> Returned (fail err)
    | Inr m \<Rightarrow> go_run (bind_go (batch m) (\<lambda>q. Inr (send_run send q))))"
  assumes alone: "\<And>d. \<exists>err d'. run_alone (run fail batch send) d = Inr (err, d')"
  shows "run_safe (run fail batch send)"
proof -
  have "run_safe (go_run (bind_go (batch m) (\<lambda>q. Inr (send_run send q))))" if "query d = Inr m" for d m
    using alone [of d] that by (cases "batch m") (simp_all add: run_def)
  then show ?thesis by (simp add: run_def split: sum.split)
qed

lemma upsert_run_safe:
  "(\<And>err. run_safe (rest err)) \<Longrightarrow> run_safe (upsert_run conn schema tableName lh p a n rest)"
  by (auto simp: upsert_run_def split: sum.split)

lemma update_aggregated_run_safe:
  assumes "\<forall>x \<in> set objs. \<not> nil_object x" "\<And>s. run_safe (rest s)"
  shows "run_safe (update_aggregated_run conn S lh objs s rest)"
  using assms(1)
proof (induction objs arbitrary: s)
  case (Cons x objs)
  then have ih: "run_safe (update_aggregated_run conn S lh objs s rest)" for s by simp
  show ?case
  proof (cases x)
    case (ObjMinimalPolicyComplianceStatus p)
    with Cons.prems obtain st where "p = Some st" by auto
    with ObjMinimalPolicyComplianceStatus ih show ?thesis
      by (auto intro!: upsert_run_safe split: option.split)
  qed (use ih in simp_all)
qed (simp add: assms(2))

lemma delete_aggregated_run_safe: "run_safe (delete_aggregated_run conn lh qs)"
  by (induction qs) (auto intro!: run_safe_calls(2) split: option.split)

lemma handler_run_safe:
  assumes b: "no_nil_objects b"
  shows "run_safe (handler_run conn S ord h b)"
proof -
  have alone: "\<exists>err d'. run_alone (handler_run conn S ord h b) d = Inr (err, d')" for d
    using handler_returns [OF b] by (simp add: run_alone_handler)
  show ?thesis
  proof (cases h)
    case ManagedClustersHandler
    with alone show ?thesis
      unfolding ManagedClustersHandler handler_run.simps managed_clusters_run_def by (intro batch_run_safe)
  next
    case ClustersPerPolicyHandler
    with alone show ?thesis
      unfolding ClustersPerPolicyHandler handler_run.simps clusters_per_policy_run_def by (intro batch_run_safe)
  next
    case ComplianceHandler
    with alone show ?thesis
      unfolding ComplianceHandler handler_run.simps compliance_run_def by (intro batch_run_safe)
  next
    case MinimalComplianceHandler
    with b show ?thesis
      by (auto simp: minimal_compliance_run_def no_nil_objects_def intro!: update_aggregated_run_safe
          delete_aggregated_run_safe split: sum.split)
  qed
qed

end
