(* ===== verification/Database_System.thy ===== *)
theory Database_System
  imports Handler_Effects Setup
begin

text \<open>
  The running bridge together with its database. A worker that has a job calls the job's handler and
  reports the result; in between, the other goroutines take their steps. The run of one handler is one
  step here; \<open>Interleaved_System\<close> takes it apart into its database calls.
\<close>

section \<open>Steps\<close>

text \<open>
  The state also has the history of the jobs that have finished, with their results, newest last. It
  is not in the code; no step reads it.
\<close>

record 'd system =
  sys_bridge :: bridge
  sys_db :: 'd
  sys_done :: "(status_bundle \<times> go_error option) list"

text \<open>
  \<open>err := job.handlerFunc(ctx, job.bundle, worker.dbConnPool)\<close> and the report of the result; the
  handler's first call reads the leaf hub name of the bundle.
\<close>

definition worker_handle ::
  "'d pg_conn \<Rightarrow> 'set go_sets \<Rightarrow> nat \<Rightarrow> 'set map_orders \<Rightarrow> 'd system \<Rightarrow> 'd system go option" where
  "worker_handle conn S w ord s =
     (if w < length (wp_workers (br_pool (sys_bridge s)))
      then (case wk_pc (wp_workers (br_pool (sys_bridge s)) ! w) of
              WorkerRunning job \<Rightarrow>
                Some (bind_go (go_deref (job_bundle job)) (\<lambda>b.
                  bind_go (handler_function conn S ord (job_handlerFunc job) b (sys_db s)) (\<lambda>(err, d').
                    case perform (EvFinish w err) (sys_bridge s) of
                      None \<Rightarrow> Inr s
                    | Some r \<Rightarrow> bind_go r (\<lambda>t. Inr \<lparr>sys_bridge = t, sys_db = d',
                        sys_done = sys_done s @ [(b, err)]\<rparr>))))
            | _ \<Rightarrow> None)
      else None)"

datatype 'set system_event =
    BridgeStep bridge_event
  | HandlerRun nat "'set map_orders"

fun bridge_step :: "bridge_event \<Rightarrow> bool" where
  "bridge_step (EvFinish _ _) = False"
| "bridge_step e = running_event e"

fun sys_perform ::
  "'d pg_conn \<Rightarrow> 'set go_sets \<Rightarrow> 'set system_event \<Rightarrow> 'd system \<Rightarrow> 'd system go option" where
  "sys_perform conn S (BridgeStep e) s =
     (if bridge_step e
      then map_option (\<lambda>r. bind_go r (\<lambda>t. Inr (s\<lparr>sys_bridge := t\<rparr>))) (perform e (sys_bridge s))
      else None)"
| "sys_perform conn S (HandlerRun w ord) s = worker_handle conn S w ord s"

text \<open>The bundles the transport may insert satisfy \<open>P\<close>.\<close>

fun inserts_only :: "(status_bundle \<Rightarrow> bool) \<Rightarrow> 'set system_event \<Rightarrow> bool" where
  "inserts_only P (BridgeStep (EvInsert b m)) = P b"
| "inserts_only P _ = True"

inductive sys_reachable ::
  "'d pg_conn \<Rightarrow> 'set go_sets \<Rightarrow> (status_bundle \<Rightarrow> bool) \<Rightarrow> 'd system \<Rightarrow> 'd system \<Rightarrow> bool"
  for conn S P s0 where
  sys_start: "sys_reachable conn S P s0 s0"
| sys_step: "sys_reachable conn S P s0 s \<Longrightarrow> inserts_only P e \<Longrightarrow> sys_perform conn S e s = Some (Inr t) \<Longrightarrow>
    sys_reachable conn S P s0 t"

definition initial_system :: "nat \<Rightarrow> 'd \<Rightarrow> 'd system" where
  "initial_system poolSize d =
     \<lparr>sys_bridge = initial_bridge setup_registrations poolSize, sys_db = d, sys_done = []\<rparr>"

section \<open>The bundles in the bridge\<close>

text \<open>Every bundle in a conflation unit or a job satisfies \<open>P\<close>.\<close>

definition bundles_ok :: "(status_bundle \<Rightarrow> bool) \<Rightarrow> bridge \<Rightarrow> bool" where
  "bundles_ok P s \<longleftrightarrow>
     (\<forall>n u i b. units s n = Some u \<longrightarrow> i < nslots u \<longrightarrow> ce_bundle (slot u i) = Some b \<longrightarrow> P b) \<and>
     (\<forall>p j b. job_at s p = Some j \<longrightarrow> job_bundle j = Some b \<longrightarrow> P b)"

text \<open>Where the job of a place comes from.\<close>

lemma job_at_same:
  assumes "wp_workers (br_pool t) = wp_workers (br_pool s)" "\<forall>w j. dp_pc (br_dispatcher t) \<noteq> DispRun w j"
    and "job_at t pl = Some j"
  shows "job_at s pl = Some j"
  using assms by (cases pl) (auto simp: job_at_def split: dispatcher_pc.splits if_splits)

lemma job_at_update:
  assumes "wp_workers (br_pool t) = (wp_workers (br_pool s))[w := wk]"
    and "worker_job wk = Some j \<Longrightarrow> worker_job (wp_workers (br_pool s) ! w) = Some j"
    and "job_at t (AtWorker v) = Some j"
  shows "job_at s (AtWorker v) = Some j"
  using assms by (cases "v = w") (auto simp: job_at_def split: if_splits)

lemma job_origin_dispatch:
  assumes inv: "bridge_inv s" and p: "perform EvDispatch s = Some (Inr t)" and j: "job_at t pl = Some j"
  shows "(\<exists>q. job_at s q = Some j) \<or>
    (\<exists>n u i. units s n = Some u \<and> i < nslots u \<and> ready u i \<and> job_bundle j = ce_bundle (slot u i))"
proof (cases "dp_pc (br_dispatcher s)")
  case (DispGetNext n w)
  show ?thesis
  proof (rule getnext_step [OF inv DispGetNext p])
    fix u assume t: "t = goto s DispSelect"
    show ?thesis
    proof (cases pl)
      case (AtWorker v)
      with j t have "job_at s (AtWorker v) = Some j" by (simp add: job_at_def goto_def split: if_splits)
      then show ?thesis by blast
    qed (use j t in \<open>simp add: job_at_def goto_def\<close>)
  next
    fix u i assume "units s n = Some u" "i < nslots u" "ready u i"
      "t = goto (s\<lparr>br_manager := (br_manager s)\<lparr>cm_conflationUnits := (units s)(n \<mapsto> taken u i)\<rparr>\<rparr>)
        (DispRun w (NewDBJob (ce_bundle (slot u i)) (ce_bundleMetadata (slot u i))
           (ce_handlerFunction (slot u i)) n))"
    with j show ?thesis
    proof (cases pl)
      case (AtWorker v)
      with j \<open>t = _\<close> have "job_at s (AtWorker v) = Some j"
        by (simp add: job_at_def goto_def split: if_splits)
      then show ?thesis by blast
    qed (force simp: job_at_def goto_def NewDBJob_def)
  qed
next
  case (DispRun w k)
  from p DispRun obtain pool where pool: "RunAsync w k (br_pool s) = Some (Inr pool)"
      "t = goto (s\<lparr>br_pool := pool\<rparr>) DispSelect"
    by (auto simp: dispatch_def bind_go_eq_Inr split: option.splits)
  then obtain v where v: "w = Some v" "pool = set_worker (br_pool s) v
      ((wp_workers (br_pool s) ! v)\<lparr>wk_jobsQueue := wk_jobsQueue (wp_workers (br_pool s) ! v) @ [k]\<rparr>)"
    by (auto simp: RunAsync_def Let_def split: option.splits if_splits)
  have disp: "job_at s AtDispatcher = Some k" using DispRun by (simp add: job_at_def)
  show ?thesis
  proof (cases pl)
    case AtDispatcher
    with j pool(2) show ?thesis by (simp add: job_at_def goto_def)
  next
    case (AtWorker x)
    show ?thesis
    proof (cases "x = v")
      case False
      with j pool(2) v AtWorker have "job_at s (AtWorker x) = Some j"
        by (auto simp: job_at_def goto_def set_worker_def split: if_splits)
      then show ?thesis by blast
    next
      case True
      with j pool(2) v AtWorker have "x < length (wp_workers (br_pool s))"
        by (auto simp: job_at_def goto_def split: if_splits)
      with j pool(2) v AtWorker True have "worker_job ((wp_workers (br_pool s) ! v)
          \<lparr>wk_jobsQueue := wk_jobsQueue (wp_workers (br_pool s) ! v) @ [k]\<rparr>) = Some j"
        by (simp add: job_at_def goto_def set_worker_nth)
      then have "worker_job (wp_workers (br_pool s) ! v) = Some j \<or> j = k"
        by (auto simp: worker_job_def split: worker_pc.splits list.splits)
      moreover have "job_at s (AtWorker v) = worker_job (wp_workers (br_pool s) ! v)"
        using \<open>x < _\<close> True by (simp add: job_at_def)
      ultimately show ?thesis using disp by metis
    qed
  qed
next
  case DispSelect
  with p have "wp_workers (br_pool t) = wp_workers (br_pool s)" "\<forall>w j. dp_pc (br_dispatcher t) \<noteq> DispRun w j"
    by (auto simp: dispatch_def goto_def split: if_splits)
  from job_at_same [OF this j] show ?thesis by blast
next
  case DispDequeue
  with p have "wp_workers (br_pool t) = wp_workers (br_pool s)" "\<forall>w j. dp_pc (br_dispatcher t) \<noteq> DispRun w j"
    by (auto simp: dispatch_def goto_def split: option.splits)
  from job_at_same [OF this j] show ?thesis by blast
next
  case (DispAcquire n)
  with p have "wp_workers (br_pool t) = wp_workers (br_pool s)" "\<forall>w j. dp_pc (br_dispatcher t) \<noteq> DispRun w j"
    by (auto simp: dispatch_def goto_def Acquire_def split: option.splits list.splits if_splits)
  from job_at_same [OF this j] show ?thesis by blast
qed (use p in \<open>simp add: dispatch_def\<close>)

lemma job_origin_worker:
  assumes inv: "bridge_inv s" and run: "running_event e" and p: "perform e s = Some (Inr t)"
    and e: "e \<noteq> EvDispatch" and j: "job_at t (AtWorker v) = Some j"
  shows "job_at s (AtWorker v) = Some j"
proof (cases e)
  case (EvOffer w)
  with p have t: "wp_workers (br_pool t) =
      (wp_workers (br_pool s))[w := (wp_workers (br_pool s) ! w)\<lparr>wk_pc := WorkerSelect\<rparr>]"
    "wk_pc (wp_workers (br_pool s) ! w) = WorkerOffering"
    by (auto simp: worker_offer_def set_worker_def split: if_splits)
  from t(1) _ j show ?thesis by (rule job_at_update) (use t(2) in \<open>simp add: worker_job_def\<close>)
next
  case (EvReceive w)
  with p obtain k ks where t: "wp_workers (br_pool t) =
      (wp_workers (br_pool s))[w := (wp_workers (br_pool s) ! w)\<lparr>wk_pc := WorkerRunning k, wk_jobsQueue := ks\<rparr>]"
    "wk_pc (wp_workers (br_pool s) ! w) = WorkerSelect" "wk_jobsQueue (wp_workers (br_pool s) ! w) = k # ks"
    by (auto simp: worker_receive_def set_worker_def bind_go_eq_Inr split: if_splits list.splits)
  from t(1) _ j show ?thesis by (rule job_at_update) (use t(2,3) in \<open>simp add: worker_job_def\<close>)
next
  case (EvWorkerStop w)
  with p have t: "wp_workers (br_pool t) = (wp_workers (br_pool s))[w :=
        (wp_workers (br_pool s) ! w)\<lparr>wk_pc := WorkerStopped, wk_jobsQueueClosed := True\<rparr>]"
    "wk_pc (wp_workers (br_pool s) ! w) = WorkerSelect"
    by (auto simp: worker_stop_def set_worker_def split: if_splits)
  from t(1) _ j show ?thesis by (rule job_at_update) (use t(2) in \<open>simp add: worker_job_def\<close>)
next
  case (EvFinish w err)
  show ?thesis
  proof (rule finish_step [OF inv, of w err t])
    show "perform (EvFinish w err) s = Some (Inr t)" using p EvFinish by simp
  next
    fix k u b r
    assume w: "w < length (wp_workers (br_pool s))" "wk_pc (wp_workers (br_pool s) ! w) = WorkerRunning k"
      and t: "t = s\<lparr>br_pool := set_worker (br_pool s) w ((wp_workers (br_pool s) ! w)\<lparr>wk_pc := WorkerOffering\<rparr>),
           br_manager := (br_manager s)\<lparr>cm_conflationUnits := (units s)(job_resultReporter k \<mapsto>
             fst (settle (job_resultReporter k) (reported u b err) (br_readyQueue s)))\<rparr>,
           br_readyQueue := snd (settle (job_resultReporter k) (reported u b err) (br_readyQueue s))\<rparr>"
    have empty: "wk_jobsQueue (wp_workers (br_pool s) ! w) = []"
      using inv w by (auto simp: bridge_inv_def pool_ok_def worker_ok_def Let_def)
    have "wp_workers (br_pool t) =
        (wp_workers (br_pool s))[w := (wp_workers (br_pool s) ! w)\<lparr>wk_pc := WorkerOffering\<rparr>]"
      by (simp add: t set_worker_def)
    from this _ j show ?thesis by (rule job_at_update) (use empty in \<open>simp add: worker_job_def\<close>)
  qed
qed (use p j e run in \<open>auto simp: job_at_def dispatcher_cancel_def bind_go_eq_Inr split: if_splits\<close>)

lemma job_origin:
  assumes inv: "bridge_inv s" and run: "running_event e" and p: "perform e s = Some (Inr t)"
    and j: "job_at t pl = Some j"
  shows "(\<exists>q. job_at s q = Some j) \<or>
    (\<exists>n u i. units s n = Some u \<and> i < nslots u \<and> ready u i \<and> job_bundle j = ce_bundle (slot u i))"
proof (cases "e = EvDispatch")
  case True
  show ?thesis by (rule job_origin_dispatch [OF inv _ j]) (use p True in simp)
next
  case False
  show ?thesis
  proof (cases pl)
    case AtDispatcher
    have "dp_pc (br_dispatcher t) = dp_pc (br_dispatcher s)"
      using p False run
      by (cases e) (auto simp: bind_go_eq_Inr dispatcher_cancel_def split: option.splits)
    with j AtDispatcher have "job_at s AtDispatcher = Some j" by (simp add: job_at_def)
    then show ?thesis by blast
  qed (use job_origin_worker [OF inv run p False] j in blast)
qed

lemma new_unit_empty:
  assumes "manager_inv cm" "cm_conflationUnits cm n = None" "i < nslots (unit_of cm n)"
  shows "ce_bundle (slot (unit_of cm n) i) = None"
proof -
  have "registrations_ok (cm_registrations cm)" using assms(1) by (simp add: manager_inv_def)
  then show ?thesis
  proof (rule newConflationUnit_slots)
    fix cu assume cu: "newConflationUnit (cm_registrations cm) = Inr cu" "nslots cu = length (cm_registrations cm)"
      "\<And>r. r \<in> set (cm_registrations cm) \<Longrightarrow>
         cu_priorityQueue cu ! reg_priority r = Some (newConflationElement r)"
      "\<And>i. i < length (cm_registrations cm) \<Longrightarrow> \<exists>r \<in> set (cm_registrations cm). reg_priority r = i"
    have eq: "unit_of cm n = cu" using assms(2) cu(1) by (simp add: unit_of_def)
    with assms(3) cu(2,4) obtain r where r: "r \<in> set (cm_registrations cm)" "reg_priority r = i" by auto
    with cu(3) [OF r(1)] show ?thesis by (simp add: eq slot_def newConflationElement_def)
  qed
qed

lemma bundles_ok_step:
  assumes inv: "bridge_inv s" and run: "running_event e" and p: "perform e s = Some (Inr t)"
    and ok: "bundles_ok P s" and ins: "\<And>b m. e = EvInsert b m \<Longrightarrow> P b"
  shows "bundles_ok P t"
proof -
  have slots: "P b" if "units s n = Some u" "i < nslots u" "ce_bundle (slot u i) = Some b" for n u i b
    using ok that by (auto simp: bundles_ok_def)
  have jobs: "P b" if "job_at s pl = Some j" "job_bundle j = Some b" for pl j b
    using ok that by (auto simp: bundles_ok_def)
  have "P b" if "job_at t pl = Some j" "job_bundle j = Some b" for pl j b
    using job_origin [OF inv run p that(1)] slots jobs that(2) by metis
  moreover have "P b" if t: "units t n = Some u" "i < nslots u" "ce_bundle (slot u i) = Some b" for n u i b
  proof (cases rule: running_step_cases [OF inv run p])
    case 1
    with t slots show ?thesis by simp
  next
    case (2 b' m)
    have mi: "manager_inv (br_manager s)" using inv by (simp add: bridge_inv_def)
    have old: "P x" if "i < nslots (unit_of (br_manager s) (GetLeafHubName b'))"
        "ce_bundle (slot (unit_of (br_manager s) (GetLeafHubName b')) i) = Some x" for i x
      using that slots new_unit_empty [OF mi, of "GetLeafHubName b'" i] unit_of_Some [of s "GetLeafHubName b'"]
      by (cases "units s (GetLeafHubName b')") auto
    have sh: "cu_shape (unit_of (br_manager s) (GetLeafHubName b'))"
      using getConflationUnit_eq(2) [OF mi] by (simp add: cu_inv_def cu_core_def)
    show ?thesis
    proof (cases "n = GetLeafHubName b'")
      case True
      with 2(2) t(1) have u: "u = fst (inserted_unit (br_manager s) b' m (br_readyQueue s))" by simp
      from t(2,3) old ins [OF 2(1)] show ?thesis
        by (auto simp: u inserted_unit_def Let_def slot_stored [OF sh] split: if_splits)
    qed (use 2 t slots in simp)
  next
    case (3 n' u' i')
    with t slots show ?thesis by (cases "n = n'") (auto simp: slot_taken split: if_splits)
  next
    case (4 w err j u' b' r)
    have sh: "cu_shape u'" using bridge_inv_cu [OF inv 4(3)] by simp
    from 4 t slots show ?thesis
      by (cases "n = job_resultReporter j") (auto simp: slot_reported [OF sh] finished_element_def Let_def split: if_splits)
  qed
  ultimately show ?thesis unfolding bundles_ok_def by blast
qed

section \<open>The invariant of the system\<close>

text \<open>The bridge's part of the state is a state of the running bridge, with good bundles only.\<close>

definition sys_bridge_ok :: "(status_bundle \<Rightarrow> bool) \<Rightarrow> 'd system \<Rightarrow> bool" where
  "sys_bridge_ok P s \<longleftrightarrow>
     bridge_inv (sys_bridge s) \<and> bundles_ok P (sys_bridge s) \<and>
     cm_registrations (br_manager (sys_bridge s)) = setup_registrations"

lemma initial_system_ok: "sys_bridge_ok P (initial_system n d)"
  using initial_bridge_inv [OF setup_registrations_ok, of n]
  by (auto simp: sys_bridge_ok_def initial_system_def bundles_ok_def initial_bridge_def foldl_Register
      NewConflationManager_def job_at_def NewDispatcher_def pool_Start_def start_workers_eq NewDBWorker_def
      worker_job_def split: place.splits if_splits)

lemma bridge_event_ok:
  assumes ok: "sys_bridge_ok P s" and run: "running_event e" and p: "perform e (sys_bridge s) = Some r"
    and ins: "\<And>b m. e = EvInsert b m \<Longrightarrow> P b"
  shows "\<exists>t. r = Inr t \<and> sys_bridge_ok P (s\<lparr>sys_bridge := t\<rparr>)"
proof -
  have inv: "bridge_inv (sys_bridge s)" using ok by (simp add: sys_bridge_ok_def)
  from running_step_inv [OF inv run p] obtain t where t: "r = Inr t" "bridge_inv t" by blast
  with p have p': "perform e (sys_bridge s) = Some (Inr t)" by simp
  from bundles_ok_step [OF inv run p' _ ins] step_registrations [OF inv run p'] t ok show ?thesis
    by (simp add: sys_bridge_ok_def)
qed

text \<open>A job's handler is the one for the type of its bundle.\<close>

lemma job_handler:
  assumes ok: "sys_bridge_ok P s" and j: "job_at (sys_bridge s) pl = Some j"
  shows "\<exists>b. job_bundle j = Some b \<and> P b \<and> job_handlerFunc j = handler_of b"
proof -
  have "jobs_ok (sys_bridge s)" using ok by (simp add: sys_bridge_ok_def bridge_inv_def)
  from jobs_okD [OF this j] ok obtain b where b: "job_bundle j = Some b"
      "\<forall>reg \<in> set setup_registrations. reg_bundleType reg = GetBundleType b \<longrightarrow>
         job_handlerFunc j = reg_handlerFunction reg"
    by (auto simp: good_job_def sys_bridge_ok_def)
  moreover have "P b" using ok j b(1) by (auto simp: sys_bridge_ok_def bundles_ok_def)
  moreover have "job_handlerFunc j = handler_of b"
    using b(2) by (cases b) (simp_all add: setup_registrations_def)
  ultimately show ?thesis by blast
qed

text \<open>The run of a handler: the job's bundle is handled and its result reported.\<close>

lemma worker_handle_cases:
  assumes ok: "sys_bridge_ok P s" and p: "worker_handle conn S w ord s = Some r"
    and P: "\<And>b. P b \<Longrightarrow> no_nil_objects b"
  obtains b err d' t where "P b" "handler_function conn S ord (handler_of b) b (sys_db s) = Inr (err, d')"
    "perform (EvFinish w err) (sys_bridge s) = Some (Inr t)"
    "r = Inr \<lparr>sys_bridge = t, sys_db = d', sys_done = sys_done s @ [(b, err)]\<rparr>"
proof -
  from p obtain j where w: "w < length (wp_workers (br_pool (sys_bridge s)))"
      "wk_pc (wp_workers (br_pool (sys_bridge s)) ! w) = WorkerRunning j"
    by (auto simp: worker_handle_def split: if_splits worker_pc.splits)
  then have "job_at (sys_bridge s) (AtWorker w) = Some j" by (simp add: job_at_def worker_job_def)
  from job_handler [OF ok this] obtain b where b: "job_bundle j = Some b" "P b"
      "job_handlerFunc j = handler_of b" by blast
  from handler_returns [OF P [OF b(2)], of conn S ord "handler_of b" "sys_db s"] obtain err d' where
    h: "handler_function conn S ord (handler_of b) b (sys_db s) = Inr (err, d')" by blast
  obtain r' where r': "perform (EvFinish w err) (sys_bridge s) = Some r'"
    using w by (simp add: worker_finish_def)
  obtain t where t: "r' = Inr t"
    using bridge_event_ok [OF ok _ r'] by auto
  show ?thesis
    by (rule that [OF b(2) h r' [unfolded t]]) (use p w b h r' t in \<open>simp add: worker_handle_def del: perform.simps\<close>)
qed

lemma sys_perform_ok:
  assumes ok: "sys_bridge_ok P s" and e: "inserts_only P e" and p: "sys_perform conn S e s = Some r"
    and P: "\<And>b. P b \<Longrightarrow> no_nil_objects b"
  shows "\<exists>t. r = Inr t \<and> sys_bridge_ok P t"
proof (cases e)
  case (BridgeStep ev)
  with p obtain r' where r': "bridge_step ev" "perform ev (sys_bridge s) = Some r'"
      "r = bind_go r' (\<lambda>t. Inr (s\<lparr>sys_bridge := t\<rparr>))" by (auto split: if_splits)
  moreover have "running_event ev" using r'(1) by (cases ev) simp_all
  moreover have "P b" if "ev = EvInsert b m" for b m using e BridgeStep that by simp
  ultimately show ?thesis using bridge_event_ok [OF ok _ r'(2)] by fastforce
next
  case (HandlerRun w ord)
  with p have "worker_handle conn S w ord s = Some r" by simp
  then show ?thesis
  proof (rule worker_handle_cases [OF ok _ P])
    fix b err d' t
    assume t: "perform (EvFinish w err) (sys_bridge s) = Some (Inr t)"
      "r = Inr \<lparr>sys_bridge = t, sys_db = d', sys_done = sys_done s @ [(b, err)]\<rparr>"
    from bridge_event_ok [OF ok _ t(1)] t(2) show ?thesis by (simp add: sys_bridge_ok_def)
  qed
qed

lemma sys_reachable_ok:
  assumes "sys_reachable conn S P (initial_system n d) s" and P: "\<And>b. P b \<Longrightarrow> no_nil_objects b"
  shows "sys_bridge_ok P s"
  using assms(1)
proof (induction rule: sys_reachable.induct)
  case sys_start
  show ?case by (rule initial_system_ok)
next
  case (sys_step s e t)
  then show ?case using sys_perform_ok [OF sys_step.IH sys_step.hyps(2,3) P] by simp
qed

section \<open>What the database says of a leaf hub\<close>

text \<open>
  The abstract view of a leaf hub: the version of each of its clusters, and the state of each pair of a
  policy and a cluster.
\<close>

record hub_view =
  hv_clusters :: "string \<rightharpoonup> string"
  hv_states :: "string \<times> string \<rightharpoonup> string"

definition clusters_view :: "string \<Rightarrow> cluster_row list \<Rightarrow> string \<rightharpoonup> string" where
  "clusters_view lh t n =
     (case cluster_rows lh n t of [] \<Rightarrow> None | r # _ \<Rightarrow> Some (mc_resourceVersion (cr_cluster r)))"

definition states_view :: "string \<Rightarrow> compliance_row list \<Rightarrow> string \<times> string \<rightharpoonup> string" where
  "states_view lh t = (\<lambda>(p, cl).
     case pair_rows lh p cl t of [] \<Rightarrow> None | r # _ \<Rightarrow> Some (co_compliance r))"

definition view :: "'d tables \<Rightarrow> 'd \<Rightarrow> string \<Rightarrow> hub_view" where
  "view tb d lh = \<lparr>hv_clusters = clusters_view lh (tb_clusters tb d),
     hv_states = states_view lh (tb_compliance tb d)\<rparr>"

text \<open>
  The specification: a bundle of clusters is the set of clusters; a bundle of clusters per policy gives
  the pairs, new ones in state unknown; a compliance bundle gives the states of the existing pairs.
\<close>

fun spec_bundle :: "status_bundle \<Rightarrow> hub_view \<Rightarrow> hub_view" where
  "spec_bundle (ManagedClustersStatusBundle b) v = v\<lparr>hv_clusters :=
     (\<lambda>n. map_of (map (\<lambda>c. (mc_name c, mc_resourceVersion c)) (map the (mcb_Objects b))) n)\<rparr>"
| "spec_bundle (ClustersPerPolicyBundle b) v = v\<lparr>hv_states :=
     (\<lambda>(p, cl). if \<not> listed (map the (cpb_Objects b)) p cl then None
       else case hv_states v (p, cl) of None \<Rightarrow> Some Unknown | Some st \<Rightarrow> Some st)\<rparr>"
| "spec_bundle (ComplianceStatusBundle b) v = v\<lparr>hv_states :=
     (\<lambda>(p, cl). map_option (\<lambda>_. reported_state (map the (csb_Objects b)) p cl) (hv_states v (p, cl)))\<rparr>"
| "spec_bundle (MinimalComplianceStatusBundle b) v = v"

text \<open>Only the jobs of the leaf hub that have succeeded count.\<close>

definition spec_history :: "string \<Rightarrow> (status_bundle \<times> go_error option) list \<Rightarrow> hub_view \<Rightarrow> hub_view" where
  "spec_history lh done v0 =
     foldl (\<lambda>v (b, err). if err = None \<and> GetLeafHubName b = lh then spec_bundle b v else v) v0 done"

lemma spec_history_snoc:
  "spec_history lh (done @ [(b, err)]) v0 =
     (if err = None \<and> GetLeafHubName b = lh then spec_bundle b (spec_history lh done v0)
      else spec_history lh done v0)"
  by (simp add: spec_history_def)

lemma spec_history_Nil [simp]: "spec_history lh [] v0 = v0"
  by (simp add: spec_history_def)

lemma clusters_view_step:
  assumes eff: "clusters_effect b err t t'" and b: "well_formed_bundle b"
  shows "clusters_view lh t' = (if err = None \<and> GetLeafHubName b = lh
    then hv_clusters (spec_bundle b (v\<lparr>hv_clusters := clusters_view lh t\<rparr>)) else clusters_view lh t)"
proof (cases b)
  case (ManagedClustersStatusBundle m)
  let ?cs = "map the (mcb_Objects m)"
  show ?thesis
  proof (cases "err = None \<and> mcb_LeafHubName m = lh")
    case True
    with eff ManagedClustersStatusBundle have sync: "synced lh ?cs t t'" by (simp add: clusters_effect_def)
    have dist: "distinct (map fst (map (\<lambda>c. (mc_name c, mc_resourceVersion c)) ?cs))"
      using b ManagedClustersStatusBundle by (simp add: comp_def)
    have "clusters_view lh t' n = map_of (map (\<lambda>c. (mc_name c, mc_resourceVersion c)) ?cs) n" for n
    proof (cases "n \<in> mc_name ` set ?cs")
      case True
      then obtain c where c: "c \<in> set ?cs" "n = mc_name c" by blast
      then have "(n, mc_resourceVersion c) \<in> set (map (\<lambda>c. (mc_name c, mc_resourceVersion c)) ?cs)" by auto
      from map_of_is_SomeI [OF dist this] sync c show ?thesis by (auto simp: clusters_view_def synced_def)
    next
      case False
      moreover from False have "map_of (map (\<lambda>c. (mc_name c, mc_resourceVersion c)) ?cs) n = None"
        by (auto simp: map_of_eq_None_iff)
      ultimately show ?thesis using sync by (simp add: clusters_view_def synced_def)
    qed
    with True ManagedClustersStatusBundle show ?thesis by (simp add: fun_eq_iff)
  next
    case False
    then have "cluster_rows lh n t' = cluster_rows lh n t" for n
      using eff ManagedClustersStatusBundle cluster_rows_other [of "mcb_LeafHubName m" t' t lh n]
      by (cases "err = None") (auto simp: clusters_effect_def synced_def)
    with False ManagedClustersStatusBundle show ?thesis by (auto simp: clusters_view_def fun_eq_iff)
  qed
qed (use eff in \<open>simp_all add: clusters_effect_def\<close>)

lemma states_view_same:
  "(\<And>p cl. pair_rows lh p cl t' = pair_rows lh p cl t) \<Longrightarrow> states_view lh t' = states_view lh t"
  by (simp add: states_view_def)

lemma states_view_step:
  assumes eff: "compliance_effect b err t t'"
  shows "states_view lh t' = (if err = None \<and> GetLeafHubName b = lh
    then hv_states (spec_bundle b (v\<lparr>hv_states := states_view lh t\<rparr>)) else states_view lh t)"
proof (cases b)
  case (ClustersPerPolicyBundle c)
  show ?thesis
  proof (cases "err = None \<and> cpb_LeafHubName c = lh")
    case True
    with eff ClustersPerPolicyBundle have "pairs_synced lh (map the (cpb_Objects c)) t t'"
      by (simp add: compliance_effect_def)
    with True ClustersPerPolicyBundle show ?thesis
      by (auto simp: states_view_def pairs_synced_def fun_eq_iff row_of_def split: list.split)
  next
    case False
    then have "pair_rows lh p cl t' = pair_rows lh p cl t" for p cl
      using eff ClustersPerPolicyBundle pair_rows_other [of "cpb_LeafHubName c" t' t lh p cl]
      by (cases "err = None") (auto simp: compliance_effect_def pairs_synced_def)
    from states_view_same [OF this] False ClustersPerPolicyBundle show ?thesis by auto
  qed
next
  case (ComplianceStatusBundle c)
  show ?thesis
  proof (cases "err = None \<and> csb_LeafHubName c = lh")
    case True
    with eff ComplianceStatusBundle have "states_synced lh (map the (csb_Objects c)) t t'"
      by (simp add: compliance_effect_def)
    with True ComplianceStatusBundle show ?thesis
      by (auto simp: states_view_def states_synced_def fun_eq_iff split: list.split)
  next
    case False
    then have "pair_rows lh p cl t' = pair_rows lh p cl t" for p cl
      using eff ComplianceStatusBundle pair_rows_other [of "csb_LeafHubName c" t' t lh p cl]
      by (cases "err = None") (auto simp: compliance_effect_def states_synced_def)
    from states_view_same [OF this] False ComplianceStatusBundle show ?thesis by auto
  qed
qed (use eff in \<open>simp_all add: compliance_effect_def\<close>)

lemma view_step:
  assumes "clusters_effect b err (tb_clusters tb d) (tb_clusters tb d')" "well_formed_bundle b"
    and "compliance_effect b err (tb_compliance tb d) (tb_compliance tb d')"
  shows "view tb d' lh =
    (if err = None \<and> GetLeafHubName b = lh then spec_bundle b (view tb d lh) else view tb d lh)"
proof -
  note c = clusters_view_step [OF assms(1,2), of lh "view tb d lh"]
  note p = states_view_step [OF assms(3), of lh "view tb d lh"]
  have v: "(view tb d lh)\<lparr>hv_clusters := clusters_view lh (tb_clusters tb d)\<rparr> = view tb d lh"
    "(view tb d lh)\<lparr>hv_states := states_view lh (tb_compliance tb d)\<rparr> = view tb d lh"
    by (simp_all add: view_def)
  have "hv_clusters (view tb d' lh) = hv_clusters (if err = None \<and> GetLeafHubName b = lh
      then spec_bundle b (view tb d lh) else view tb d lh)"
    using c v by (simp add: view_def)
  moreover have "hv_states (view tb d' lh) = hv_states (if err = None \<and> GetLeafHubName b = lh
      then spec_bundle b (view tb d lh) else view tb d lh)"
    using p v by (simp add: view_def)
  ultimately show ?thesis by (intro hub_view.equality) simp_all
qed

definition follows_history :: "'d tables \<Rightarrow> 'd \<Rightarrow> 'd system \<Rightarrow> bool" where
  "follows_history tb d0 s \<longleftrightarrow> tables_ok tb (sys_db s) \<and>
     (\<forall>lh. view tb (sys_db s) lh = spec_history lh (sys_done s) (view tb d0 lh))"

lemma follows_history_reachable:
  assumes S: "sets_laws S members" and laws: "database_laws conn tb" and d0: "tables_ok tb d0"
    and reach: "sys_reachable conn S well_formed_bundle (initial_system n d0) s"
  shows "follows_history tb d0 s"
  using reach
proof (induction rule: sys_reachable.induct)
  case sys_start
  show ?case using d0 by (simp add: follows_history_def initial_system_def)
next
  case (sys_step s e t)
  have ok: "sys_bridge_ok well_formed_bundle s"
    by (rule sys_reachable_ok [OF sys_step.hyps(1) well_formed_no_nil])
  show ?case
  proof (cases e)
    case (BridgeStep ev)
    with sys_step.hyps(3) have "sys_db t = sys_db s" "sys_done t = sys_done s"
      by (auto simp: bind_go_eq_Inr split: if_splits)
    with sys_step.IH show ?thesis by (simp add: follows_history_def)
  next
    case (HandlerRun w ord)
    with sys_step.hyps(3) have "worker_handle conn S w ord s = Some (Inr t)" by simp
    then show ?thesis
    proof (rule worker_handle_cases [OF ok _ well_formed_no_nil])
      fix b err d' t'
      assume b: "well_formed_bundle b"
        and h: "handler_function conn S ord (handler_of b) b (sys_db s) = Inr (err, d')"
        and t: "Inr t = Inr \<lparr>sys_bridge = t', sys_db = d', sys_done = sys_done s @ [(b, err)]\<rparr>"
      have "tables_ok tb (sys_db s)" using sys_step.IH by (simp add: follows_history_def)
      from handler_effect [OF S laws this b, of ord] h have eff:
        "clusters_effect b err (tb_clusters tb (sys_db s)) (tb_clusters tb d')"
        "compliance_effect b err (tb_compliance tb (sys_db s)) (tb_compliance tb d')"
        "aggregated_effect b err (tb_aggregated tb (sys_db s)) (tb_aggregated tb d')"
        by auto
      from effects_tables_ok [OF eff \<open>tables_ok tb (sys_db s)\<close> b] view_step [OF eff(1) b eff(2)]
        sys_step.IH t
      show ?thesis by (simp add: follows_history_def spec_history_snoc)
    qed
  qed
qed

end
