(* ===== verification/Run_Effects.thy ===== *)
theory Run_Effects
  imports Handler_Runs Database_System
begin

text \<open>
  What a handler run does when other goroutines change the database between its calls. The others may
  do anything to the rows of other leaf hubs; a run relies on them for the rows of its own leaf hub only,
  and guarantees that each of its calls leaves the rows of the other leaf hubs alone.
\<close>

section \<open>The rows of a leaf hub\<close>

definition hub_rows ::
  "'d tables \<Rightarrow> string \<Rightarrow> 'd \<Rightarrow> cluster_row list \<times> compliance_row list \<times> aggregated_row list" where
  "hub_rows tb lh d =
     (filter (\<lambda>r. cr_leafHub r = lh) (tb_clusters tb d), filter (\<lambda>r. co_leafHub r = lh) (tb_compliance tb d),
      filter (\<lambda>r. ag_leafHub r = lh) (tb_aggregated tb d))"

lemma hub_rowsD:
  assumes "hub_rows tb lh e = hub_rows tb lh d"
  shows "cluster_rows lh n (tb_clusters tb e) = cluster_rows lh n (tb_clusters tb d)"
    and "pair_rows lh p cl (tb_compliance tb e) = pair_rows lh p cl (tb_compliance tb d)"
    and "agg_rows lh p (tb_aggregated tb e) = agg_rows lh p (tb_aggregated tb d)"
    and "view tb e lh = view tb d lh"
proof -
  have c: "cluster_rows lh n t = filter (\<lambda>r. mc_name (cr_cluster r) = n) (filter (\<lambda>r. cr_leafHub r = lh) t)" for n t
    by (auto simp: cluster_rows_def filter_filter intro!: filter_cong)
  have p: "pair_rows lh p cl t = filter (\<lambda>r. co_policy r = p \<and> co_cluster r = cl)
      (filter (\<lambda>r. co_leafHub r = lh) t)" for p cl t
    by (auto simp: pair_rows_def filter_filter intro!: filter_cong)
  have a: "agg_rows lh p t = filter (\<lambda>r. ag_policy r = p) (filter (\<lambda>r. ag_leafHub r = lh) t)" for p t
    by (auto simp: agg_rows_def filter_filter intro!: filter_cong)
  show c': "cluster_rows lh n (tb_clusters tb e) = cluster_rows lh n (tb_clusters tb d)" for n
    using assms by (simp add: c hub_rows_def)
  show p': "pair_rows lh p cl (tb_compliance tb e) = pair_rows lh p cl (tb_compliance tb d)" for p cl
    using assms by (simp add: p hub_rows_def)
  show "agg_rows lh p (tb_aggregated tb e) = agg_rows lh p (tb_aggregated tb d)"
    using assms by (simp add: a hub_rows_def)
  show "view tb e lh = view tb d lh"
    by (simp add: view_def clusters_view_def [abs_def] states_view_def c' p')
qed

text \<open>The effects of a bundle are on its leaf hub only.\<close>

lemma effects_other_hubs:
  assumes "clusters_effect b err (tb_clusters tb d) (tb_clusters tb d')"
    and "compliance_effect b err (tb_compliance tb d) (tb_compliance tb d')"
    and "aggregated_effect b err (tb_aggregated tb d) (tb_aggregated tb d')"
    and "lh \<noteq> GetLeafHubName b"
  shows "hub_rows tb lh d' = hub_rows tb lh d"
proof -
  have c: "filter (\<lambda>r. cr_leafHub r = lh) t = filter (\<lambda>r. cr_leafHub r = lh) (other_hubs (GetLeafHubName b) t)" for t
    using assms(4) by (auto simp: other_hubs_def filter_filter intro!: filter_cong)
  have p: "filter (\<lambda>r. co_leafHub r = lh) t = filter (\<lambda>r. co_leafHub r = lh) (other_rows (GetLeafHubName b) t)" for t
    using assms(4) by (auto simp: other_rows_def filter_filter intro!: filter_cong)
  have a: "filter (\<lambda>r. ag_leafHub r = lh) t = filter (\<lambda>r. ag_leafHub r = lh) (other_agg_rows (GetLeafHubName b) t)" for t
    using assms(4) by (auto simp: other_agg_rows_def filter_filter intro!: filter_cong)
  have "other_hubs (GetLeafHubName b) (tb_clusters tb d') = other_hubs (GetLeafHubName b) (tb_clusters tb d)"
    using assms(1) by (cases b) (auto simp: clusters_effect_def synced_def split: if_splits)
  moreover have "other_rows (GetLeafHubName b) (tb_compliance tb d') = other_rows (GetLeafHubName b) (tb_compliance tb d)"
    using assms(2) by (cases b) (auto simp: compliance_effect_def pairs_synced_def states_synced_def split: if_splits)
  moreover have "other_agg_rows (GetLeafHubName b) (tb_aggregated tb d') =
      other_agg_rows (GetLeafHubName b) (tb_aggregated tb d)"
    using assms(3) by (cases b) (auto simp: aggregated_effect_def agg_step_def)
  ultimately show ?thesis
    unfolding hub_rows_def c [of "tb_clusters tb d'"] c [of "tb_clusters tb d"] p [of "tb_compliance tb d'"]
      p [of "tb_compliance tb d"] a [of "tb_aggregated tb d'"] a [of "tb_aggregated tb d"]
    by (simp only:)
qed

section \<open>Runs that others may interrupt\<close>

text \<open>
  \<open>run_ok tb lh Q r d\<close>: started in a database with the rows \<open>d\<close> has for the leaf hub, the run never
  panics, each of its calls leaves the other leaf hubs alone and the tables well formed, and it returns
  in a database that satisfies \<open>Q\<close>. Before each call and before the return the database may be any
  other one with the same rows for the leaf hub.
\<close>

inductive run_ok ::
  "'d tables \<Rightarrow> string \<Rightarrow> (go_error option \<Rightarrow> 'd \<Rightarrow> bool) \<Rightarrow> 'd db_run \<Rightarrow> 'd \<Rightarrow> bool"
  for tb lh Q where
  run_ok_return:
    "(\<And>e. hub_rows tb lh e = hub_rows tb lh d \<Longrightarrow> Q err e) \<Longrightarrow> run_ok tb lh Q (Returned err) d"
| run_ok_call:
    "(\<And>e. tables_ok tb e \<Longrightarrow> hub_rows tb lh e = hub_rows tb lh d \<Longrightarrow>
        tables_ok tb (snd (f e)) \<and>
        (\<forall>lh'. lh' \<noteq> lh \<longrightarrow> hub_rows tb lh' (snd (f e)) = hub_rows tb lh' e) \<and>
        run_ok tb lh Q (fst (f e)) (snd (f e))) \<Longrightarrow>
     run_ok tb lh Q (Calling f) d"

inductive_simps run_ok_simps:
  "run_ok tb lh Q (Returned err) d"
  "run_ok tb lh Q (Panicked p) d"
  "run_ok tb lh Q (Calling f) d"

lemma run_ok_stable:
  assumes "run_ok tb lh Q r d" "hub_rows tb lh e = hub_rows tb lh d"
  shows "run_ok tb lh Q r e"
  using assms by (cases r) (simp_all add: run_ok_simps)

lemma run_ok_query:
  assumes "\<And>e. tables_ok tb e \<Longrightarrow> hub_rows tb lh e = hub_rows tb lh d \<Longrightarrow> run_ok tb lh Q (rest (query e)) e"
  shows "run_ok tb lh Q (query_call query rest) d"
  unfolding query_call_def by (rule run_ok_call) (simp only: fst_conv snd_conv assms simp_thms)

lemma run_ok_statement:
  assumes "\<And>e x e'. tables_ok tb e \<Longrightarrow> hub_rows tb lh e = hub_rows tb lh d \<Longrightarrow> exec e = (x, e') \<Longrightarrow>
    tables_ok tb e' \<and> (\<forall>lh'. lh' \<noteq> lh \<longrightarrow> hub_rows tb lh' e' = hub_rows tb lh' e) \<and> run_ok tb lh Q (rest x) e'"
  shows "run_ok tb lh Q (statement_call exec rest) d"
  unfolding statement_call_def
proof (rule run_ok_call)
  fix e assume e: "tables_ok tb e" "hub_rows tb lh e = hub_rows tb lh d"
  obtain x e' where x: "exec e = (x, e')" by fastforce
  from assms [OF e x] x show "tables_ok tb (snd (case exec e of (result, d') \<Rightarrow> (rest result, d'))) \<and>
      (\<forall>lh'. lh' \<noteq> lh \<longrightarrow> hub_rows tb lh' (snd (case exec e of (result, d') \<Rightarrow> (rest result, d'))) = hub_rows tb lh' e) \<and>
      run_ok tb lh Q (fst (case exec e of (result, d') \<Rightarrow> (rest result, d')))
        (snd (case exec e of (result, d') \<Rightarrow> (rest result, d')))"
    by simp
qed

text \<open>
  What the run of a bundle is to establish. The leaf hub's view changes as specified. Its aggregated rows
  are those the bundle reports after a successful minimal compliance bundle; a failed one may have
  reached some of the policies, since its statements are not in one transaction.
\<close>

definition agg_view :: "'d tables \<Rightarrow> 'd \<Rightarrow> string \<Rightarrow> string \<Rightarrow> aggregated_row list" where
  "agg_view tb d lh = (\<lambda>q. agg_rows lh q (tb_aggregated tb d))"

lemma hub_rows_agg_view: "hub_rows tb lh e = hub_rows tb lh d \<Longrightarrow> agg_view tb e lh = agg_view tb d lh"
  unfolding agg_view_def by (rule ext) (rule hub_rowsD(3))

fun agg_outcome ::
  "status_bundle \<Rightarrow> go_error option \<Rightarrow> (string \<Rightarrow> aggregated_row list) \<Rightarrow> (string \<Rightarrow> aggregated_row list) \<Rightarrow> bool" where
  "agg_outcome (MinimalComplianceStatusBundle m) None a a' \<longleftrightarrow>
     a' = reported_rows (msb_LeafHubName m) (map the (msb_Objects m))"
| "agg_outcome (MinimalComplianceStatusBundle m) (Some err) a a' \<longleftrightarrow>
     (\<exists>ks. a' = (\<lambda>q. if q \<in> ks then reported_rows (msb_LeafHubName m) (map the (msb_Objects m)) q else a q))"
| "agg_outcome b err a a' \<longleftrightarrow> a' = a"

definition handled ::
  "'d tables \<Rightarrow> status_bundle \<Rightarrow> hub_view \<Rightarrow> (string \<Rightarrow> aggregated_row list) \<Rightarrow> go_error option \<Rightarrow> 'd \<Rightarrow> bool" where
  "handled tb b v a err d \<longleftrightarrow>
     view tb d (GetLeafHubName b) = (if err = None then spec_bundle b v else v) \<and>
     agg_outcome b err a (agg_view tb d (GetLeafHubName b))"

section \<open>The runs that send a batch\<close>

text \<open>The last call: in every database it finds, the batch has the effects of the bundle.\<close>

lemma run_ok_send:
  assumes b: "well_formed_bundle b" "\<forall>m. b \<noteq> MinimalComplianceStatusBundle m"
    and v: "view tb d (GetLeafHubName b) = v" and a: "agg_view tb d (GetLeafHubName b) = a"
    and eff: "\<And>e err e'. tables_ok tb e \<Longrightarrow> hub_rows tb (GetLeafHubName b) e = hub_rows tb (GetLeafHubName b) d \<Longrightarrow>
      SendBatch conn q e = (err, e') \<Longrightarrow>
      clusters_effect b err (tb_clusters tb e) (tb_clusters tb e') \<and>
      compliance_effect b err (tb_compliance tb e) (tb_compliance tb e') \<and>
      aggregated_effect b err (tb_aggregated tb e) (tb_aggregated tb e')"
  shows "run_ok tb (GetLeafHubName b) (handled tb b v a) (send_run (SendBatch conn) q) d"
  unfolding send_run_def
proof (rule run_ok_statement)
  fix e err e'
  assume e: "tables_ok tb e" "hub_rows tb (GetLeafHubName b) e = hub_rows tb (GetLeafHubName b) d"
    "SendBatch conn q e = (err, e')"
  note eff' = eff [OF e, THEN conjunct1] eff [OF e, THEN conjunct2, THEN conjunct1]
    eff [OF e, THEN conjunct2, THEN conjunct2]
  have "view tb e' (GetLeafHubName b) = (if err = None then spec_bundle b v else v)"
    using view_step [OF eff'(1) b(1) eff'(2), of "GetLeafHubName b"] hub_rowsD(4) [OF e(2)] v by simp
  moreover have "agg_outcome b err a (agg_view tb e' (GetLeafHubName b))"
    using b(2) eff'(3) hub_rows_agg_view [OF e(2)] a
    by (cases b) (simp_all add: aggregated_effect_def agg_view_def)
  ultimately have "run_ok tb (GetLeafHubName b) (handled tb b v a)
      (Returned (map_option (\<lambda>e. ''failed to perform batch - '' @ e) err)) e'"
    using b(2) by (cases b) (auto simp: run_ok_simps handled_def dest: hub_rowsD(4) hub_rows_agg_view)
  then show "tables_ok tb e' \<and>
      (\<forall>lh'. lh' \<noteq> GetLeafHubName b \<longrightarrow> hub_rows tb lh' e' = hub_rows tb lh' e) \<and>
      run_ok tb (GetLeafHubName b) (handled tb b v a)
        (Returned (map_option (\<lambda>e. ''failed to perform batch - '' @ e) err)) e'"
    using effects_tables_ok [OF eff' e(1) b(1)] effects_other_hubs [OF eff'] by blast
qed

lemma client_calls [simp]:
  "cdb_GetManagedClustersByLeafHub (clusters_db conn) = GetManagedClustersByLeafHub conn"
  "cdb_SendBatch (clusters_db conn) = SendBatch conn"
  "pdb_GetComplianceStatusByLeafHub (policies_db conn S rng) = GetComplianceStatusByLeafHub conn S"
  "pdb_GetNonCompliantClustersByLeafHub (policies_db conn S rng) = GetNonCompliantClustersByLeafHub conn S"
  "pdb_SendBatch (policies_db conn S rng) = SendBatch conn"
  by (simp_all add: clusters_db_def policies_db_def)

lemma batch_separate:
  assumes "tables_separate conn tb"
  shows "SendBatch conn (PgxBatch (map (render (mc_layout StatusSchema ManagedClustersTable lh)) cs)) d = (err, d') \<Longrightarrow>
      tb_compliance tb d' = tb_compliance tb d \<and> tb_aggregated tb d' = tb_aggregated tb d"
    and "SendBatch conn (PgxBatch (map (render (pb_layout StatusSchema ComplianceTable lh)) ps)) d = (err, d') \<Longrightarrow>
      tb_clusters tb d' = tb_clusters tb d \<and> tb_aggregated tb d' = tb_aggregated tb d"
  by (metis SendBatch_one_batch one_batch_separate(1) [OF assms] snd_conv)
     (metis SendBatch_one_batch one_batch_separate(2) [OF assms] snd_conv)

lemma run_ok_managed_clusters:
  assumes laws: "database_laws conn tb" and wf: "well_formed_bundle (ManagedClustersStatusBundle b)"
  shows "run_ok tb (mcb_LeafHubName b) (handled tb (ManagedClustersStatusBundle b) (view tb d (mcb_LeafHubName b)) (agg_view tb d (mcb_LeafHubName b)))
    (managed_clusters_run (clusters_db conn) rng (ManagedClustersStatusBundle b)) d"
  unfolding managed_clusters_run_def GetLeafHubName.simps client_calls
proof (rule run_ok_query)
  let ?lh = "mcb_LeafHubName b" and ?cs = "map the (mcb_Objects b)"
  fix e assume e: "hub_rows tb ?lh e = hub_rows tb ?lh d"
  have law: "clusters_table_laws conn (tb_clusters tb)" "tables_separate conn tb"
    using laws by (simp_all add: database_laws_def)
  have objs: "mcb_Objects b = map Some ?cs" "distinct (map mc_name ?cs)"
    using wf map_Some_the [of "mcb_Objects b"] by simp_all
  obtain m where m: "GetManagedClustersByLeafHub conn StatusSchema ManagedClustersTable ?lh e = Inr m"
      "distinct (map fst m)"
      "\<And>n. map_of m n = (if cluster_rows ?lh n (tb_clusters tb e) = [] then None
         else Some (mc_resourceVersion (cr_cluster (last (cluster_rows ?lh n (tb_clusters tb e))))))"
    using query_result [OF law(1), of ?lh e] by blast
  obtain ss where ss: "managed_clusters_batch (clusters_db conn) rng (ManagedClustersStatusBundle b) m =
      Inr (PgxBatch (map (render (mc_layout StatusSchema ManagedClustersTable ?lh)) ss))"
    "inserted_rows ss = new_clusters m ?cs" "updated_rows ss = changed_clusters m ?cs"
    "deleted_keys ss = map fst (go_range rng (gone_clusters m ?cs))"
    by (rule managed_clusters_batch_statements [OF objs])
  have "run_ok tb (GetLeafHubName (ManagedClustersStatusBundle b))
      (handled tb (ManagedClustersStatusBundle b) (view tb d ?lh) (agg_view tb d ?lh))
      (send_run (SendBatch conn) (PgxBatch (map (render (mc_layout StatusSchema ManagedClustersTable ?lh)) ss))) e"
  proof (rule run_ok_send [OF wf])
    show "\<forall>m. ManagedClustersStatusBundle b \<noteq> MinimalComplianceStatusBundle m" by simp
  next
    fix e1 err e2
    assume e1: "tables_ok tb e1" "hub_rows tb (GetLeafHubName (ManagedClustersStatusBundle b)) e1 =
        hub_rows tb (GetLeafHubName (ManagedClustersStatusBundle b)) e"
      and sb: "SendBatch conn (PgxBatch (map (render (mc_layout StatusSchema ManagedClustersTable ?lh)) ss)) e1 = (err, e2)"
    have rows: "cluster_rows ?lh n (tb_clusters tb e1) = cluster_rows ?lh n (tb_clusters tb e)" for n
      using hub_rowsD(1) [OF e1(2)] by simp
    have "synced ?lh ?cs (tb_clusters tb e1) (exec_cluster_stmts ?lh ss (tb_clusters tb e1))"
    proof (rule exec_diff_synced [OF objs(2) m(2) _ _ ss(2-4)])
      show "length (cluster_rows ?lh n (tb_clusters tb e1)) \<le> 1" for n using e1(1) by (simp add: tables_ok_def)
    qed (simp add: m(3) rows)
    with send_cluster_batch [OF law(1) sb] batch_separate(1) [OF law(2) sb]
    show "clusters_effect (ManagedClustersStatusBundle b) err (tb_clusters tb e1) (tb_clusters tb e2) \<and>
        compliance_effect (ManagedClustersStatusBundle b) err (tb_compliance tb e1) (tb_compliance tb e2) \<and>
        aggregated_effect (ManagedClustersStatusBundle b) err (tb_aggregated tb e1) (tb_aggregated tb e2)"
      by (simp add: clusters_effect_def compliance_effect_def aggregated_effect_def)
  qed (simp_all add: hub_rowsD(4) [OF e] hub_rows_agg_view [OF e])
  with m(1) ss(1) show "run_ok tb ?lh (handled tb (ManagedClustersStatusBundle b) (view tb d ?lh) (agg_view tb d ?lh))
      (case GetManagedClustersByLeafHub conn StatusSchema ManagedClustersTable ?lh e of
         Inl err \<Rightarrow> Returned (Some (''failed fetching leaf hub managed clusters from db - '' @ err))
       | Inr clustersFromDB \<Rightarrow>
           go_run (bind_go (managed_clusters_batch (clusters_db conn) rng (ManagedClustersStatusBundle b) clustersFromDB)
             (\<lambda>q. Inr (send_run (SendBatch conn) q)))) e"
    by simp
qed

lemma run_ok_clusters_per_policy:
  assumes S: "sets_laws S members" and laws: "database_laws conn tb"
    and wf: "well_formed_bundle (ClustersPerPolicyBundle b)"
  shows "run_ok tb (cpb_LeafHubName b) (handled tb (ClustersPerPolicyBundle b) (view tb d (cpb_LeafHubName b)) (agg_view tb d (cpb_LeafHubName b)))
    (clusters_per_policy_run (policies_db conn S rng) S rng' (ClustersPerPolicyBundle b) StatusSchema ComplianceTable) d"
  unfolding clusters_per_policy_run_def GetLeafHubName.simps client_calls
proof (rule run_ok_query)
  let ?lh = "cpb_LeafHubName b" and ?ps = "map the (cpb_Objects b)"
  let ?b = "ClustersPerPolicyBundle b"
  fix e assume e: "hub_rows tb ?lh e = hub_rows tb ?lh d"
  have law: "compliance_table_laws conn (tb_compliance tb)" "tables_separate conn tb"
    using laws by (simp_all add: database_laws_def)
  have objs: "cpb_Objects b = map Some ?ps" "distinct (map cpp_PolicyID ?ps)"
      "\<forall>p \<in> set ?ps. distinct (cpp_Clusters p)"
    using wf map_Some_the [of "cpb_Objects b"] by simp_all
  obtain m where m: "GetComplianceStatusByLeafHub conn S StatusSchema ComplianceTable ?lh e = Inr m"
      "\<And>p. db_clusters members m p = {cl. pair_rows ?lh p cl (tb_compliance tb e) \<noteq> []}"
    using compliance_query_result [OF S law(1), of ?lh e] by blast
  obtain ss del where ss: "bind_go (clusters_per_policy_rows (policies_db conn S rng) S rng' ?b
        StatusSchema ComplianceTable m) (pdb_Build (policies_db conn S rng)) =
      Inr (PgxBatch (map (render (pb_layout StatusSchema ComplianceTable ?lh)) ss))"
    "inserted_rows ss = concat (map (new_rows (db_clusters members m)) ?ps)"
    "updated_rows ss = []" "extra_updates (extras ss) = []"
    "deleted_keys ss = map fst (go_range rng' (gone_policies m (cpp_PolicyID ` set ?ps)))"
    "extra_deletes (extras ss) = del"
    and del: "\<forall>p \<in> set ?ps. set (del (cpp_PolicyID p)) = db_clusters members m (cpp_PolicyID p) - set (cpp_Clusters p)"
    "\<forall>k. k \<notin> cpp_PolicyID ` set ?ps \<longrightarrow> del k = []"
    by (rule clusters_per_policy_statements [OF S objs, of conn rng rng' m])
  have "run_ok tb (GetLeafHubName ?b) (handled tb ?b (view tb d ?lh) (agg_view tb d ?lh))
      (send_run (SendBatch conn) (PgxBatch (map (render (pb_layout StatusSchema ComplianceTable ?lh)) ss))) e"
  proof (rule run_ok_send [OF wf])
    show "\<forall>m. ?b \<noteq> MinimalComplianceStatusBundle m" by simp
  next
    fix e1 err e2
    assume e1: "hub_rows tb (GetLeafHubName ?b) e1 = hub_rows tb (GetLeafHubName ?b) e"
      and sb: "SendBatch conn (PgxBatch (map (render (pb_layout StatusSchema ComplianceTable ?lh)) ss)) e1 = (err, e2)"
    have "db_clusters members m p = {cl. pair_rows ?lh p cl (tb_compliance tb e1) \<noteq> []}" for p
      using m(2) hub_rowsD(2) [OF e1] by simp
    from exec_pairs_synced [OF objs(2,3) this ss(2-6) del]
    have "pairs_synced ?lh ?ps (tb_compliance tb e1) (exec_policy_stmts ?lh ss (tb_compliance tb e1))" .
    with send_policy_statements [OF law(1) sb] batch_separate(2) [OF law(2) sb]
    show "clusters_effect ?b err (tb_clusters tb e1) (tb_clusters tb e2) \<and>
        compliance_effect ?b err (tb_compliance tb e1) (tb_compliance tb e2) \<and>
        aggregated_effect ?b err (tb_aggregated tb e1) (tb_aggregated tb e2)"
      by (simp add: clusters_effect_def compliance_effect_def aggregated_effect_def)
  qed (simp_all add: hub_rowsD(4) [OF e] hub_rows_agg_view [OF e])
  with m(1) ss(1) show "run_ok tb ?lh (handled tb ?b (view tb d ?lh) (agg_view tb d ?lh))
      (case GetComplianceStatusByLeafHub conn S StatusSchema ComplianceTable ?lh e of
         Inl err \<Rightarrow> Returned (Some (compliance_fetch_error ?lh err))
       | Inr complianceRowsFromDB \<Rightarrow>
           go_run (bind_go (bind_go (clusters_per_policy_rows (policies_db conn S rng) S rng' ?b
               StatusSchema ComplianceTable complianceRowsFromDB) (pdb_Build (policies_db conn S rng)))
             (\<lambda>q. Inr (send_run (SendBatch conn) q)))) e"
    by (simp del: bind_go_assoc)
qed

lemma run_ok_compliance:
  assumes S: "sets_laws S members" and laws: "database_laws conn tb"
    and wf: "well_formed_bundle (ComplianceStatusBundle b)"
  shows "run_ok tb (csb_LeafHubName b) (handled tb (ComplianceStatusBundle b) (view tb d (csb_LeafHubName b)) (agg_view tb d (csb_LeafHubName b)))
    (compliance_run (policies_db conn S rng) S rng' (ComplianceStatusBundle b) StatusSchema ComplianceTable) d"
  unfolding compliance_run_def GetLeafHubName.simps client_calls
proof (rule run_ok_query)
  let ?lh = "csb_LeafHubName b" and ?ps = "map the (csb_Objects b)"
  let ?b = "ComplianceStatusBundle b"
  fix e assume e: "hub_rows tb ?lh e = hub_rows tb ?lh d"
  have law: "compliance_table_laws conn (tb_compliance tb)" "tables_separate conn tb"
    using laws by (simp_all add: database_laws_def)
  have objs: "csb_Objects b = map Some ?ps" "distinct (map pcs_PolicyID ?ps)"
      "\<forall>p \<in> set ?ps. set (pcs_NonCompliantClusters p) \<inter> set (pcs_UnknownComplianceClusters p) = {}"
    using wf map_Some_the [of "csb_Objects b"] by simp_all
  obtain m where m: "GetNonCompliantClustersByLeafHub conn S StatusSchema ComplianceTable ?lh e = Inr m"
      "\<And>p. db_non_compliant members m p =
         {cl. \<exists>r \<in> set (pair_rows ?lh p cl (tb_compliance tb e)). co_compliance r = NonCompliant}"
      "\<And>p. db_unknown members m p =
         {cl. \<exists>r \<in> set (pair_rows ?lh p cl (tb_compliance tb e)). co_compliance r = Unknown}"
      "\<And>p. p \<in> fst ` set m \<longleftrightarrow>
         (\<exists>cl. \<exists>r \<in> set (pair_rows ?lh p cl (tb_compliance tb e)). co_compliance r \<noteq> Compliant)"
    using non_compliant_query_result [OF S law(1), of ?lh e] by (elim exE conjE) (rule that, assumption, (erule spec)+)
  obtain ss ups where ss: "bind_go (compliance_status_rows (policies_db conn S rng) S rng' ?b
        StatusSchema ComplianceTable m) (pdb_Build (policies_db conn S rng)) =
      Inr (PgxBatch (map (render (pb_layout StatusSchema ComplianceTable ?lh)) ss))"
    "inserted_rows ss = []" "deleted_keys ss = []" "extra_deletes (extras ss) = (\<lambda>_. [])"
    "updated_rows ss = map (\<lambda>x. (fst x, Compliant)) (go_range rng' (gone_policies m (pcs_PolicyID ` set ?ps)))"
    "extra_updates (extras ss) = ups"
    and ups: "\<forall>q cl st. (q, cl, st) \<in> set ups \<longleftrightarrow> (\<exists>p \<in> set ?ps. q = pcs_PolicyID p \<and>
       status_update (db_non_compliant members m q) (db_unknown members m q) p cl st)"
    by (rule compliance_status_statements [OF S objs(1,2), of conn rng rng' m])
  have "run_ok tb (GetLeafHubName ?b) (handled tb ?b (view tb d ?lh) (agg_view tb d ?lh))
      (send_run (SendBatch conn) (PgxBatch (map (render (pb_layout StatusSchema ComplianceTable ?lh)) ss))) e"
  proof (rule run_ok_send [OF wf])
    show "\<forall>m. ?b \<noteq> MinimalComplianceStatusBundle m" by simp
  next
    fix e1 err e2
    assume e1: "tables_ok tb e1" "hub_rows tb (GetLeafHubName ?b) e1 = hub_rows tb (GetLeafHubName ?b) e"
      and sb: "SendBatch conn (PgxBatch (map (render (pb_layout StatusSchema ComplianceTable ?lh)) ss)) e1 = (err, e2)"
    have rows: "pair_rows ?lh p cl (tb_compliance tb e1) = pair_rows ?lh p cl (tb_compliance tb e)" for p cl
      using hub_rowsD(2) [OF e1(2)] by simp
    have "states_synced ?lh ?ps (tb_compliance tb e1) (exec_policy_stmts ?lh ss (tb_compliance tb e1))"
    proof (rule exec_states_synced [OF objs(2,3) _ _ _ _ _ ss(2-6) ups])
      show "length (pair_rows ?lh p cl (tb_compliance tb e1)) \<le> 1" for p cl using e1(1) by (simp add: tables_ok_def)
      show "co_compliance r \<in> {Compliant, NonCompliant, Unknown}" if "r \<in> set (tb_compliance tb e1)" for r
        using e1(1) that by (simp add: tables_ok_def)
    qed (simp_all only: m(2-4) rows)
    with send_policy_statements [OF law(1) sb] batch_separate(2) [OF law(2) sb]
    show "clusters_effect ?b err (tb_clusters tb e1) (tb_clusters tb e2) \<and>
        compliance_effect ?b err (tb_compliance tb e1) (tb_compliance tb e2) \<and>
        aggregated_effect ?b err (tb_aggregated tb e1) (tb_aggregated tb e2)"
      by (simp add: clusters_effect_def compliance_effect_def aggregated_effect_def)
  qed (simp_all add: hub_rowsD(4) [OF e] hub_rows_agg_view [OF e])
  with m(1) ss(1) show "run_ok tb ?lh (handled tb ?b (view tb d ?lh) (agg_view tb d ?lh))
      (case GetNonCompliantClustersByLeafHub conn S StatusSchema ComplianceTable ?lh e of
         Inl err \<Rightarrow> Returned (Some (compliance_fetch_error ?lh err))
       | Inr nonCompliantRowsFromDB \<Rightarrow>
           go_run (bind_go (bind_go (compliance_status_rows (policies_db conn S rng) S rng' ?b
               StatusSchema ComplianceTable nonCompliantRowsFromDB) (pdb_Build (policies_db conn S rng)))
             (\<lambda>q. Inr (send_run (SendBatch conn) q)))) e"
    by (simp del: bind_go_assoc)
qed

section \<open>The minimal compliance run\<close>

text \<open>Between two states: the policies in \<open>ks\<close> have new rows, nothing else changed for the leaf hub.\<close>

definition local_step ::
  "'d tables \<Rightarrow> string \<Rightarrow> (string \<Rightarrow> aggregated_row list) \<Rightarrow> string set \<Rightarrow> 'd \<Rightarrow> 'd \<Rightarrow> bool" where
  "local_step tb lh new ks d e \<longleftrightarrow> view tb e lh = view tb d lh \<and>
     (\<forall>q. agg_rows lh q (tb_aggregated tb e) = (if q \<in> ks then new q else agg_rows lh q (tb_aggregated tb d)))"

lemma run_ok_agg_statement:
  assumes eff: "\<And>e err e'. tables_ok tb e \<Longrightarrow> hub_rows tb lh e = hub_rows tb lh d \<Longrightarrow> exec e = (err, e') \<Longrightarrow>
      agg_step lh new (if err = None then ks else {}) (tb_aggregated tb e) (tb_aggregated tb e') \<and>
      tb_clusters tb e' = tb_clusters tb e \<and> tb_compliance tb e' = tb_compliance tb e"
    and new: "\<forall>q. length (new q) \<le> 1"
    and rest: "\<And>err e. local_step tb lh new (if err = None then ks else {}) d e \<Longrightarrow> run_ok tb lh Q (rest err) e"
  shows "run_ok tb lh Q (statement_call exec rest) d"
proof (rule run_ok_statement)
  fix e err e'
  assume e: "tables_ok tb e" "hub_rows tb lh e = hub_rows tb lh d" "exec e = (err, e')"
  have step: "agg_step lh new (if err = None then ks else {}) (tb_aggregated tb e) (tb_aggregated tb e')"
    and same: "tb_clusters tb e' = tb_clusters tb e" "tb_compliance tb e' = tb_compliance tb e"
    using eff [OF e] by simp_all
  have "length (agg_rows lh' q (tb_aggregated tb e')) \<le> 1" for lh' q
    by (rule agg_step_one [OF step new]) (use e(1) in \<open>simp add: tables_ok_def\<close>)
  then have ok: "tables_ok tb e'" using e(1) by (simp add: tables_ok_def same)
  have other: "hub_rows tb lh' e' = hub_rows tb lh' e" if "lh' \<noteq> lh" for lh'
  proof -
    have a: "filter (\<lambda>r. ag_leafHub r = lh') t = filter (\<lambda>r. ag_leafHub r = lh') (other_agg_rows lh t)" for t
      using that by (auto simp: other_agg_rows_def filter_filter intro!: filter_cong)
    have "other_agg_rows lh (tb_aggregated tb e') = other_agg_rows lh (tb_aggregated tb e)"
      using step by (simp add: agg_step_def)
    then have "filter (\<lambda>r. ag_leafHub r = lh') (tb_aggregated tb e') = filter (\<lambda>r. ag_leafHub r = lh') (tb_aggregated tb e)"
      using a [of "tb_aggregated tb e'"] a [of "tb_aggregated tb e"] by simp
    then show ?thesis by (simp add: hub_rows_def same)
  qed
  have "view tb e' lh = view tb d lh" using hub_rowsD(4) [OF e(2)] by (simp add: view_def same)
  then have "local_step tb lh new (if err = None then ks else {}) d e'"
    using step hub_rowsD(3) [OF e(2)] by (simp add: local_step_def agg_step_def)
  with ok other rest show "tables_ok tb e' \<and>
      (\<forall>lh'. lh' \<noteq> lh \<longrightarrow> hub_rows tb lh' e' = hub_rows tb lh' e) \<and> run_ok tb lh Q (rest err) e'" by blast
qed

lemma local_step_hub_rows:
  assumes "hub_rows tb lh e = hub_rows tb lh d"
  shows "local_step tb lh new {} d e" and "local_step tb lh new ks e f \<Longrightarrow> local_step tb lh new ks d f"
  using hub_rowsD(3,4) [OF assms] by (simp_all add: local_step_def)

text \<open>The statements of the minimal compliance handler on the three tables.\<close>

lemma aggregated_statements:
  assumes laws: "database_laws conn tb"
  shows "conn_Exec conn (aggregated_update_sql StatusSchema MinimalComplianceTable)
        [ArgInt a, ArgInt n, ArgString lh, ArgString p] d = (err, d') \<Longrightarrow>
      tb_aggregated tb d' = (if err = None then agg_update lh p a n (tb_aggregated tb d) else tb_aggregated tb d) \<and>
      tb_clusters tb d' = tb_clusters tb d \<and> tb_compliance tb d' = tb_compliance tb d"
    and "conn_Exec conn (aggregated_insert_sql StatusSchema MinimalComplianceTable)
        [ArgString p, ArgString lh, ArgInt a, ArgInt n] d = (err, d') \<Longrightarrow>
      tb_aggregated tb d' = (if err = None then agg_insert lh p a n (tb_aggregated tb d) else tb_aggregated tb d) \<and>
      tb_clusters tb d' = tb_clusters tb d \<and> tb_compliance tb d' = tb_compliance tb d"
    and "DeleteAllComplianceRows conn StatusSchema MinimalComplianceTable lh p d = (err, d') \<Longrightarrow>
      tb_clusters tb d' = tb_clusters tb d \<and> tb_compliance tb d' = tb_compliance tb d"
proof -
  have keeps: "keeps_aggregated conn (\<lambda>d. (tb_clusters tb d, tb_compliance tb d))"
    using laws by (simp add: database_laws_def tables_separate_def)
  have law: "aggregated_statement_laws conn (tb_aggregated tb)" by (rule database_lawsE [OF laws])
  note run = law [unfolded aggregated_statement_laws_def, THEN conjunct2]
  have k: "tb_clusters tb d' = tb_clusters tb d \<and> tb_compliance tb d' = tb_compliance tb d"
    if "sql \<in> {aggregated_update_sql StatusSchema MinimalComplianceTable,
        aggregated_insert_sql StatusSchema MinimalComplianceTable}" "conn_Exec conn sql args d = (err, d')" for sql args
  proof -
    have "(tb_clusters tb (snd (conn_Exec conn sql args d)), tb_compliance tb (snd (conn_Exec conn sql args d))) =
        (tb_clusters tb d, tb_compliance tb d)"
      using keeps that(1) unfolding keeps_aggregated_def by blast
    with that(2) show ?thesis by simp
  qed
  show "tb_aggregated tb d' = (if err = None then agg_update lh p a n (tb_aggregated tb d) else tb_aggregated tb d) \<and>
      tb_clusters tb d' = tb_clusters tb d \<and> tb_compliance tb d' = tb_compliance tb d"
    if "conn_Exec conn (aggregated_update_sql StatusSchema MinimalComplianceTable)
        [ArgInt a, ArgInt n, ArgString lh, ArgString p] d = (err, d')"
    using run [THEN conjunct1, rule_format, OF that] k [OF _ that] by simp
  show "tb_aggregated tb d' = (if err = None then agg_insert lh p a n (tb_aggregated tb d) else tb_aggregated tb d) \<and>
      tb_clusters tb d' = tb_clusters tb d \<and> tb_compliance tb d' = tb_compliance tb d"
    if "conn_Exec conn (aggregated_insert_sql StatusSchema MinimalComplianceTable)
        [ArgString p, ArgString lh, ArgInt a, ArgInt n] d = (err, d')"
    using run [THEN conjunct2, THEN conjunct1, rule_format, OF that] k [OF _ that] by simp
  show "DeleteAllComplianceRows conn StatusSchema MinimalComplianceTable lh p d = (err, d') \<Longrightarrow>
      tb_clusters tb d' = tb_clusters tb d \<and> tb_compliance tb d' = tb_compliance tb d"
    using keeps_aggregatedD(2) [OF keeps, of lh p d] by simp
qed

lemma run_ok_upsert:
  assumes laws: "database_laws conn tb" and new: "\<forall>q. length (new q) \<le> 1"
    and new_p: "new (mpc_PolicyID p) = [status_row lh p]"
    and rest: "\<And>err e. local_step tb lh new (if err = None then {mpc_PolicyID p} else {}) d e \<Longrightarrow>
      run_ok tb lh Q (rest err) e"
  shows "run_ok tb lh Q (upsert_run conn StatusSchema MinimalComplianceTable lh (mpc_PolicyID p)
    (mpc_AppliedClusters p) (mpc_NonCompliantClusters p) rest) d"
  unfolding upsert_run_def
proof (rule run_ok_query)
  fix e assume e: "hub_rows tb lh e = hub_rows tb lh d"
  let ?k = "mpc_PolicyID p"
  have rest': "run_ok tb lh Q (rest (map_option f err)) e'"
    if "local_step tb lh new (if err = None then {?k} else {}) e e'" for err e' f
    using rest [of "map_option f err" e'] local_step_hub_rows(2) [OF e that] by (simp split: if_splits)
  have law: "aggregated_statement_laws conn (tb_aggregated tb)" by (rule database_lawsE [OF laws])
  show "run_ok tb lh Q
      (case conn_QueryRow conn (aggregated_exists_sql StatusSchema MinimalComplianceTable)
           [ArgString lh, ArgString ?k] e of
         Inl err \<Rightarrow> rest (Some (''failed to read from database: '' @ err))
       | Inr exists \<Rightarrow>
           if exists
           then statement_call (conn_Exec conn (aggregated_update_sql StatusSchema MinimalComplianceTable)
               [ArgInt (mpc_AppliedClusters p), ArgInt (mpc_NonCompliantClusters p), ArgString lh, ArgString ?k])
             (\<lambda>err. rest (map_option (\<lambda>e. ''failed to update compliance row in database: '' @ e) err))
           else statement_call (conn_Exec conn (aggregated_insert_sql StatusSchema MinimalComplianceTable)
               [ArgString ?k, ArgString lh, ArgInt (mpc_AppliedClusters p), ArgInt (mpc_NonCompliantClusters p)])
             (\<lambda>err. rest (map_option (\<lambda>e. ''failed to insertRowsArgs into database: '' @ e) err))) e"
  proof (cases "conn_QueryRow conn (aggregated_exists_sql StatusSchema MinimalComplianceTable)
      [ArgString lh, ArgString ?k] e")
    case (Inl err)
    with rest [of "Some (''failed to read from database: '' @ err)" e] local_step_hub_rows(1) [OF e] show ?thesis
      by simp
  next
    case (Inr found)
    then have found: "found \<longleftrightarrow> agg_rows lh ?k (tb_aggregated tb e) \<noteq> []"
      using law by (simp add: aggregated_statement_laws_def)
    show ?thesis
    proof (cases found)
      case True
      have "run_ok tb lh Q (statement_call (conn_Exec conn (aggregated_update_sql StatusSchema MinimalComplianceTable)
            [ArgInt (mpc_AppliedClusters p), ArgInt (mpc_NonCompliantClusters p), ArgString lh, ArgString ?k])
          (\<lambda>err. rest (map_option (\<lambda>e. ''failed to update compliance row in database: '' @ e) err))) e"
      proof (rule run_ok_agg_statement [where new = new and ks = "{?k}", OF _ new rest'])
        fix e1 err e2
        assume e1: "tables_ok tb e1" "hub_rows tb lh e1 = hub_rows tb lh e"
          and ex: "conn_Exec conn (aggregated_update_sql StatusSchema MinimalComplianceTable)
            [ArgInt (mpc_AppliedClusters p), ArgInt (mpc_NonCompliantClusters p), ArgString lh, ArgString ?k] e1 = (err, e2)"
        have "length (agg_rows lh ?k (tb_aggregated tb e1)) \<le> 1" using e1(1) by (simp add: tables_ok_def)
        moreover have "agg_rows lh ?k (tb_aggregated tb e1) \<noteq> []"
          using found True hub_rowsD(3) [OF e1(2), of ?k] by simp
        ultimately show "agg_step lh new (if err = None then {?k} else {}) (tb_aggregated tb e1) (tb_aggregated tb e2) \<and>
            tb_clusters tb e2 = tb_clusters tb e1 \<and> tb_compliance tb e2 = tb_compliance tb e1"
          using aggregated_statements(1) [OF laws ex] new_p agg_rows_update_one [of lh p "tb_aggregated tb e1"]
          by (simp add: agg_step_def)
      qed
      then show ?thesis unfolding Inr using True by (simp only: sum.case if_True)
    next
      case False
      have "run_ok tb lh Q (statement_call (conn_Exec conn (aggregated_insert_sql StatusSchema MinimalComplianceTable)
            [ArgString ?k, ArgString lh, ArgInt (mpc_AppliedClusters p), ArgInt (mpc_NonCompliantClusters p)])
          (\<lambda>err. rest (map_option (\<lambda>e. ''failed to insertRowsArgs into database: '' @ e) err))) e"
      proof (rule run_ok_agg_statement [where new = new and ks = "{?k}", OF _ new rest'])
        fix e1 err e2
        assume e1: "hub_rows tb lh e1 = hub_rows tb lh e"
          and ex: "conn_Exec conn (aggregated_insert_sql StatusSchema MinimalComplianceTable)
            [ArgString ?k, ArgString lh, ArgInt (mpc_AppliedClusters p), ArgInt (mpc_NonCompliantClusters p)] e1 = (err, e2)"
        have "agg_rows lh ?k (tb_aggregated tb e1) = []"
          using found False hub_rowsD(3) [OF e1, of ?k] by simp
        then show "agg_step lh new (if err = None then {?k} else {}) (tb_aggregated tb e1) (tb_aggregated tb e2) \<and>
            tb_clusters tb e2 = tb_clusters tb e1 \<and> tb_compliance tb e2 = tb_compliance tb e1"
          using aggregated_statements(2) [OF laws ex] new_p by (simp add: agg_step_def status_row_def)
      qed
      then show ?thesis unfolding Inr using False by (simp only: sum.case if_False)
    qed
  qed
qed

lemma local_step_trans:
  "local_step tb lh new ks d e \<Longrightarrow> local_step tb lh new ks' e f \<Longrightarrow> local_step tb lh new (ks \<union> ks') d f"
  by (auto simp: local_step_def)

lemma run_ok_update_aggregated:
  assumes laws: "database_laws conn tb" and S: "sets_laws S members" and new: "\<forall>q. length (new q) \<le> 1"
    and fail: "\<And>err ks e. local_step tb lh new ks d e \<Longrightarrow> Q (Some err) e"
    and "\<forall>p \<in> set ps. new (mpc_PolicyID p) = [status_row lh p]"
    and "local_step tb lh new ks d e"
    and "\<And>s' e'. members s' = members s - mpc_PolicyID ` set ps \<Longrightarrow>
      local_step tb lh new (ks \<union> mpc_PolicyID ` set ps) d e' \<Longrightarrow> run_ok tb lh Q (rest s') e'"
  shows "run_ok tb lh Q (update_aggregated_run conn S lh (map ObjMinimal ps) s rest) e"
  using assms(5-7)
proof (induction ps arbitrary: s e ks)
  case Nil
  from Nil.prems(3) [of s e] Nil.prems(2) show ?case by simp
next
  case (Cons p ps)
  have "run_ok tb lh Q (upsert_run conn StatusSchema MinimalComplianceTable lh (mpc_PolicyID p)
      (mpc_AppliedClusters p) (mpc_NonCompliantClusters p)
      (\<lambda>result. case result of
         Some err \<Rightarrow> Returned (Some (''failed to update minimal compliance of policy '' @
           quoted (mpc_PolicyID p) @ '', leaf hub '' @ quoted lh @ '' in db - '' @ err))
       | None \<Rightarrow> update_aggregated_run conn S lh (map ObjMinimal ps)
           (set_Remove S s (mpc_PolicyID p)) rest)) e"
  proof (rule run_ok_upsert [OF laws new])
    show "new (mpc_PolicyID p) = [status_row lh p]" using Cons.prems(1) by simp
    fix err :: "go_error option" and e'
    assume step: "local_step tb lh new (if err = None then {mpc_PolicyID p} else {}) e e'"
    show "run_ok tb lh Q (case err of
         Some err \<Rightarrow> Returned (Some (''failed to update minimal compliance of policy '' @
           quoted (mpc_PolicyID p) @ '', leaf hub '' @ quoted lh @ '' in db - '' @ err))
       | None \<Rightarrow> update_aggregated_run conn S lh (map ObjMinimal ps)
           (set_Remove S s (mpc_PolicyID p)) rest) e'"
    proof (cases err)
      case None
      have "run_ok tb lh Q (update_aggregated_run conn S lh (map ObjMinimal ps)
          (set_Remove S s (mpc_PolicyID p)) rest) e'"
      proof (rule Cons.IH)
        show "local_step tb lh new (ks \<union> {mpc_PolicyID p}) d e'"
          using local_step_trans [OF Cons.prems(2) step] None by simp
        fix s' f
        assume s': "members s' = members (set_Remove S s (mpc_PolicyID p)) - mpc_PolicyID ` set ps"
          and f: "local_step tb lh new (ks \<union> {mpc_PolicyID p} \<union> mpc_PolicyID ` set ps) d f"
        have "members s' = members s - mpc_PolicyID ` set (p # ps)"
          using s' S by (auto simp: sets_laws_def)
        with f Cons.prems(3) show "run_ok tb lh Q (rest s') f" by simp
      qed (use Cons.prems(1) in simp)
      with None show ?thesis by simp
    next
      case (Some x)
      have "local_step tb lh new (ks \<union> {}) d e'" using local_step_trans [OF Cons.prems(2) step] Some by simp
      then have kept: "local_step tb lh new ks d f" if "hub_rows tb lh f = hub_rows tb lh e'" for f
        using hub_rowsD(3,4) [OF that] by (simp add: local_step_def)
      show ?thesis unfolding Some option.case by (rule run_ok_return) (rule fail, rule kept)
    qed
  qed
  then show ?case
    by (simp only: list.map update_aggregated_run.simps bundle_object.case go_deref_simps bind_go_Inr go_run_simps)
qed

lemma run_ok_delete_aggregated:
  assumes laws: "database_laws conn tb" and new: "\<forall>q. length (new q) \<le> 1"
    and fail: "\<And>err ks e. local_step tb lh new ks d e \<Longrightarrow> Q (Some err) e"
    and "\<forall>q \<in> set qs. new q = []" and "local_step tb lh new ks d e"
    and "\<And>e'. local_step tb lh new (ks \<union> set qs) d e' \<Longrightarrow> Q None e'"
  shows "run_ok tb lh Q (delete_aggregated_run conn lh qs) e"
  using assms(4-6)
proof (induction qs arbitrary: e ks)
  case Nil
  have "local_step tb lh new ks d f" if "hub_rows tb lh f = hub_rows tb lh e" for f
    using Nil.prems(2) hub_rowsD(3,4) [OF that] by (simp add: local_step_def)
  with Nil.prems(3) show ?case by (simp add: run_ok_simps)
next
  case (Cons q qs)
  have law: "aggregated_statement_laws conn (tb_aggregated tb)" by (rule database_lawsE [OF laws])
  show ?case
    unfolding delete_aggregated_run.simps
  proof (rule run_ok_agg_statement [where new = new and ks = "{q}", OF _ new])
    fix e1 err e2
    assume run: "DeleteAllComplianceRows conn StatusSchema MinimalComplianceTable lh q e1 = (err, e2)"
    have "agg_step lh new (if err = None then {q} else {}) (tb_aggregated tb e1) (tb_aggregated tb e2)"
      by (rule delete_step [OF law _ run]) (simp add: Cons.prems(1))
    with aggregated_statements(3) [OF laws run]
    show "agg_step lh new (if err = None then {q} else {}) (tb_aggregated tb e1) (tb_aggregated tb e2) \<and>
        tb_clusters tb e2 = tb_clusters tb e1 \<and> tb_compliance tb e2 = tb_compliance tb e1" by blast
  next
    fix err :: "go_error option" and e'
    assume step: "local_step tb lh new (if err = None then {q} else {}) e e'"
    show "run_ok tb lh Q (case err of
        Some err \<Rightarrow> Returned (Some (''failed deleted compliance rows of policy '' @ quoted q @
          '', leaf hub '' @ quoted lh @ '' from db - '' @ err))
      | None \<Rightarrow> delete_aggregated_run conn lh qs) e'"
    proof (cases err)
      case None
      have "run_ok tb lh Q (delete_aggregated_run conn lh qs) e'"
        by (rule Cons.IH [where ks = "ks \<union> {q}"])
           (use Cons.prems(1,3) local_step_trans [OF Cons.prems(2) step] None in \<open>simp_all add: Un_assoc\<close>)
      with None show ?thesis by simp
    next
      case (Some x)
      have "local_step tb lh new (ks \<union> {}) d e'" using local_step_trans [OF Cons.prems(2) step] Some by simp
      then have kept: "local_step tb lh new ks d f" if "hub_rows tb lh f = hub_rows tb lh e'" for f
        using hub_rowsD(3,4) [OF that] by (simp add: local_step_def)
      show ?thesis unfolding Some option.case by (rule run_ok_return) (rule fail, rule kept)
    qed
  qed
qed

lemma run_ok_minimal:
  assumes S: "sets_laws S members" and laws: "database_laws conn tb"
    and wf: "well_formed_bundle (MinimalComplianceStatusBundle b)"
  shows "run_ok tb (msb_LeafHubName b)
    (handled tb (MinimalComplianceStatusBundle b) (view tb d (msb_LeafHubName b)) (agg_view tb d (msb_LeafHubName b)))
    (minimal_compliance_run conn S (MinimalComplianceStatusBundle b)) d"
  unfolding minimal_compliance_run_def GetLeafHubName.simps
proof (rule run_ok_query)
  let ?lh = "msb_LeafHubName b" and ?ps = "map the (msb_Objects b)"
  let ?Q = "handled tb (MinimalComplianceStatusBundle b) (view tb d ?lh) (agg_view tb d ?lh)"
  let ?new = "reported_rows ?lh ?ps"
  fix e assume e: "hub_rows tb ?lh e = hub_rows tb ?lh d"
  obtain cols where law: "''policy_id'' \<in> cols" "aggregated_table_laws conn cols (tb_aggregated tb)"
    by (rule database_lawsE [OF laws])
  have objs: "msb_Objects b = map Some ?ps" "distinct (map mpc_PolicyID ?ps)"
    using wf map_Some_the [of "msb_Objects b"] by simp_all
  obtain s where s: "GetPolicyIDsByLeafHub conn S StatusSchema MinimalComplianceTable ?lh e = Inr s"
      "\<And>q. q \<in> members s \<longleftrightarrow> agg_rows ?lh q (tb_aggregated tb e) \<noteq> []"
    using policy_ids_query_result [OF S law(2)] law(1) by blast
  have new: "\<forall>q. length (?new q) \<le> 1" using reported_rows_one [OF objs(2)] by blast
  have v: "view tb f ?lh = view tb d ?lh" if "local_step tb ?lh ?new ks e f" for ks f
    using that hub_rowsD(4) [OF e] by (simp add: local_step_def)
  have a: "agg_view tb f ?lh = (\<lambda>q. if q \<in> ks then ?new q else agg_view tb d ?lh q)"
    if "local_step tb ?lh ?new ks e f" for ks f
    using that hub_rowsD(3) [OF e] by (auto simp: local_step_def agg_view_def)
  have fail: "?Q (Some err) f" if "local_step tb ?lh ?new ks e f" for err ks f
    using v [OF that] a [OF that] by (auto simp: handled_def)
  have objects: "GetObjects (MinimalComplianceStatusBundle b) = map ObjMinimal ?ps"
    unfolding GetObjects.simps by (subst objs(1)) (simp add: comp_def)
  have "run_ok tb ?lh ?Q (update_aggregated_run conn S ?lh (map ObjMinimal ?ps) s
      (\<lambda>remaining. delete_aggregated_run conn ?lh (set_ToSlice S remaining))) e"
  proof (rule run_ok_update_aggregated [where ks = "{}" and Q = ?Q, OF laws S new])
    show "?Q (Some err) f" if "local_step tb ?lh ?new ks e f" for err ks f by (rule fail [OF that])
    show "\<forall>p \<in> set ?ps. ?new (mpc_PolicyID p) = [status_row ?lh p]"
      using reported_rows_eq(1) [OF objs(2)] by blast
    show "local_step tb ?lh ?new {} e e" by (simp add: local_step_def)
    fix s' f
    assume s': "members s' = members s - mpc_PolicyID ` set ?ps"
      and f: "local_step tb ?lh ?new ({} \<union> mpc_PolicyID ` set ?ps) e f"
    have slice: "set (set_ToSlice S s') = members s - mpc_PolicyID ` set ?ps"
      using S s' by (simp add: sets_laws_def)
    show "run_ok tb ?lh ?Q (delete_aggregated_run conn ?lh (set_ToSlice S s')) f"
    proof (rule run_ok_delete_aggregated [where Q = ?Q, OF laws new _ _ f])
      show "?Q (Some err) f" if "local_step tb ?lh ?new ks e f" for err ks f by (rule fail [OF that])
      show "\<forall>q \<in> set (set_ToSlice S s'). ?new q = []"
        using slice reported_rows_eq(2) [OF objs(2)] by blast
      fix g
      assume g: "local_step tb ?lh ?new ({} \<union> mpc_PolicyID ` set ?ps \<union> set (set_ToSlice S s')) e g"
      have "agg_rows ?lh q (tb_aggregated tb g) = ?new q" for q
      proof (cases "q \<in> mpc_PolicyID ` set ?ps \<or> q \<in> members s")
        case True
        with g slice show ?thesis by (simp add: local_step_def)
      next
        case False
        with s(2) [of q] reported_rows_eq(2) [OF objs(2)] g slice show ?thesis by (simp add: local_step_def)
      qed
      then have "agg_view tb g ?lh = ?new" unfolding agg_view_def by (rule ext)
      with v [OF g] show "?Q None g" by (simp add: handled_def)
    qed
  qed
  then show "run_ok tb ?lh ?Q
      (case GetPolicyIDsByLeafHub conn S StatusSchema MinimalComplianceTable ?lh e of
         Inl err \<Rightarrow> Returned (Some (''failed fetching leaf hub '' @ quoted ?lh @ '' policies from db - '' @ err))
       | Inr policyIDsFromDB \<Rightarrow>
           update_aggregated_run conn S ?lh (GetObjects (MinimalComplianceStatusBundle b)) policyIDsFromDB
             (\<lambda>remaining. delete_aggregated_run conn ?lh (set_ToSlice S remaining))) e"
    unfolding s(1) objects by (simp only: sum.case)
qed

section \<open>Every handler\<close>

theorem handler_run_ok:
  assumes "sets_laws S members" "database_laws conn tb" "well_formed_bundle b"
  shows "run_ok tb (GetLeafHubName b) (handled tb b (view tb d (GetLeafHubName b)) (agg_view tb d (GetLeafHubName b)))
    (handler_run conn S ord (handler_of b) b) d"
proof (cases b)
  case (ManagedClustersStatusBundle m)
  with run_ok_managed_clusters [OF assms(2), of m d "ord_clusters ord"] assms(3) show ?thesis by simp
next
  case (ClustersPerPolicyBundle c)
  with run_ok_clusters_per_policy [OF assms(1,2), of c d "ord_deletes ord" "ord_policies ord"] assms(3)
  show ?thesis by simp
next
  case (ComplianceStatusBundle c)
  with run_ok_compliance [OF assms(1,2), of c d "ord_deletes ord" "ord_statuses ord"] assms(3)
  show ?thesis by simp
next
  case (MinimalComplianceStatusBundle m)
  with run_ok_minimal [OF assms(1,2), of m d] assms(3) show ?thesis by simp
qed

end
