(* ===== verification/Job_History.thy ===== *)
theory Job_History
  imports Database_System
begin

text \<open>
  The history of the finished jobs: the last processed generation a conflation unit keeps for a type is
  that of the last success in the history, so jobs of one leaf hub and type come in the order of their
  generations, and a compliance bundle only after its base.
\<close>

definition same_kind :: "string \<Rightarrow> string \<Rightarrow> status_bundle \<Rightarrow> bool" where
  "same_kind lh ty b \<longleftrightarrow> GetLeafHubName b = lh \<and> GetBundleType b = ty"

definition succeeded :: "string \<Rightarrow> string \<Rightarrow> (status_bundle \<times> go_error option) list \<Rightarrow> u64 set" where
  "succeeded lh ty done = {GetGeneration b | b. (b, None) \<in> set done \<and> same_kind lh ty b}"

lemma succeeded_snoc:
  "succeeded lh ty (done @ [(b, err)]) =
     (if err = None \<and> same_kind lh ty b then {GetGeneration b} else {}) \<union> succeeded lh ty done"
  by (auto simp: succeeded_def)

definition last_processed :: "conflation_unit \<Rightarrow> string \<Rightarrow> u64" where
  "last_processed u ty = ce_lastProcessedBundleGeneration (slot u (priority_of u ty))"

definition bundle_types :: "string set" where
  "bundle_types = {''ManagedClustersStatusBundle'', ''ClustersPerPolicyBundle'', ''ComplianceStatusBundle'',
     ''MinimalComplianceStatusBundle''}"

lemma GetBundleType_types: "GetBundleType b \<in> bundle_types"
  by (cases b) (simp_all add: bundle_types_def)

text \<open>The base generation a compliance bundle waits for has been processed.\<close>

definition base_processed :: "(status_bundle \<times> go_error option) list \<Rightarrow> status_bundle \<Rightarrow> bool" where
  "base_processed done b \<longleftrightarrow>
     (\<forall>g. GetDependencyGeneration b = Some g \<longrightarrow>
        g = 0 \<or> (\<exists>g' \<in> succeeded (GetLeafHubName b) ''ClustersPerPolicyBundle'' done. g \<le> g'))"

text \<open>The last processed generations of a leaf hub agree with a history, if it is known.\<close>

definition agrees :: "(status_bundle \<times> go_error option) list \<Rightarrow> string \<Rightarrow> conflation_unit option \<Rightarrow> bool" where
  "agrees done lh u \<longleftrightarrow>
     (case u of None \<Rightarrow> \<forall>ty. succeeded lh ty done = {}
      | Some u \<Rightarrow> \<forall>ty \<in> bundle_types. (\<forall>g \<in> succeeded lh ty done. g \<le> last_processed u ty) \<and>
          (last_processed u ty = 0 \<or> last_processed u ty \<in> succeeded lh ty done))"

definition history_inv :: "'d system \<Rightarrow> bool" where
  "history_inv s \<longleftrightarrow>
     (\<forall>lh. agrees (sys_done s) lh (units (sys_bridge s) lh)) \<and>
     (\<forall>pl j b. job_at (sys_bridge s) pl = Some j \<longrightarrow> job_bundle j = Some b \<longrightarrow> base_processed (sys_done s) b)"

lemma history_inv_agrees: "history_inv s \<Longrightarrow> agrees (sys_done s) lh (units (sys_bridge s) lh)"
  by (simp add: history_inv_def)

lemma history_inv_job:
  "history_inv s \<Longrightarrow> job_at (sys_bridge s) pl = Some j \<Longrightarrow> job_bundle j = Some b \<Longrightarrow>
    base_processed (sys_done s) b"
  by (simp add: history_inv_def)

lemma history_inv_unit:
  assumes "history_inv s" "units (sys_bridge s) lh = Some u"
  shows "agrees (sys_done s) lh (Some u)"
  using history_inv_agrees [OF assms(1), of lh] assms(2) by simp

lemma history_inv_no_unit:
  assumes "history_inv s" "units (sys_bridge s) lh = None"
  shows "succeeded lh ty (sys_done s) = {}"
  using history_inv_agrees [OF assms(1), of lh] assms(2) by (simp add: agrees_def)

text \<open>The order of the history.\<close>

definition in_generation_order :: "(status_bundle \<times> go_error option) list \<Rightarrow> bool" where
  "in_generation_order done \<longleftrightarrow>
     (\<forall>i j b c err. i < j \<longrightarrow> j < length done \<longrightarrow> done ! i = (b, None) \<longrightarrow> done ! j = (c, err) \<longrightarrow>
        same_kind (GetLeafHubName c) (GetBundleType c) b \<longrightarrow> GetGeneration b < GetGeneration c)"

definition bases_first :: "(status_bundle \<times> go_error option) list \<Rightarrow> bool" where
  "bases_first done \<longleftrightarrow>
     (\<forall>j c err. j < length done \<longrightarrow> done ! j = (c, err) \<longrightarrow> base_processed (take j done) c)"

lemma in_generation_order_snoc:
  assumes "in_generation_order done" "\<forall>g \<in> succeeded (GetLeafHubName c) (GetBundleType c) done. g < GetGeneration c"
  shows "in_generation_order (done @ [(c, err)])"
proof -
  have new: "GetGeneration b < GetGeneration c"
    if "i < length done" "done ! i = (b, None)" "same_kind (GetLeafHubName c) (GetBundleType c) b" for i b
  proof -
    have "(b, None) \<in> set done" using that(1,2) by (metis nth_mem)
    with that(3) have "GetGeneration b \<in> succeeded (GetLeafHubName c) (GetBundleType c) done"
      by (auto simp: succeeded_def)
    with assms(2) show ?thesis by blast
  qed
  show ?thesis
    unfolding in_generation_order_def
  proof (intro allI impI)
    fix i j b d e
    assume ij: "i < j" "j < length (done @ [(c, err)])" "(done @ [(c, err)]) ! i = (b, None)"
      "(done @ [(c, err)]) ! j = (d, e)" "same_kind (GetLeafHubName d) (GetBundleType d) b"
    show "GetGeneration b < GetGeneration d"
    proof (cases "j < length done")
      case True
      with ij assms(1) show ?thesis by (simp add: in_generation_order_def nth_append)
    next
      case False
      with ij have "j = length done" by simp
      with ij new show ?thesis by (simp add: nth_append)
    qed
  qed
qed

lemma bases_first_snoc:
  assumes "bases_first done" "base_processed done c"
  shows "bases_first (done @ [(c, err)])"
  using assms by (auto simp: bases_first_def nth_append less_Suc_eq)

lemma base_processed_snoc: "base_processed done b \<Longrightarrow> base_processed (done @ [x]) b"
  by (cases x) (auto simp: base_processed_def succeeded_snoc)

section \<open>The steps\<close>

lemma last_processed_settle [simp]: "last_processed (fst (settle me u rq)) ty = last_processed u ty"
  by (simp add: last_processed_def)

lemma last_processed_stored: "cu_shape u \<Longrightarrow> last_processed (stored u b m) ty = last_processed u ty"
  by (simp add: last_processed_def slot_stored)

lemma last_processed_taken: "i < nslots u \<Longrightarrow> last_processed (taken u i) ty = last_processed u ty"
  by (simp add: last_processed_def slot_taken)

lemma new_unit_last:
  assumes "manager_inv cm" "cm_conflationUnits cm n = None"
    and "cm_registrations cm = setup_registrations" "ty \<in> bundle_types"
  shows "last_processed (unit_of cm n) ty = 0"
proof -
  have "registrations_ok (cm_registrations cm)" using assms(1) by (simp add: manager_inv_def)
  then show ?thesis
  proof (rule newConflationUnit_slots)
    fix cu assume cu: "newConflationUnit (cm_registrations cm) = Inr cu"
      "\<And>r. r \<in> set (cm_registrations cm) \<Longrightarrow>
         cu_priorityQueue cu ! reg_priority r = Some (newConflationElement r)"
      "\<And>r. r \<in> set (cm_registrations cm) \<Longrightarrow> priority_of cu (reg_bundleType r) = reg_priority r"
    have eq: "unit_of cm n = cu" using assms(2) cu(1) by (simp add: unit_of_def)
    have "bundle_types = reg_bundleType ` set (cm_registrations cm)"
      unfolding assms(3) by (simp add: bundle_types_def setup_registrations_def)
    with assms(4) obtain r where r: "r \<in> set (cm_registrations cm)" "ty = reg_bundleType r" by blast
    from cu(2) [OF r(1)] cu(3) [OF r(1)] r(2) show ?thesis
      by (simp add: eq last_processed_def slot_def newConflationElement_def)
  qed
qed

text \<open>Different types have different slots, and only the compliance bundle has a dependency.\<close>

lemma setup_unit:
  assumes "sys_bridge_ok P s" "units (sys_bridge s) lh = Some u"
  shows "ty \<in> bundle_types \<Longrightarrow> ty' \<in> bundle_types \<Longrightarrow> priority_of u ty = priority_of u ty' \<Longrightarrow> ty = ty'"
    and "ce_dependency (slot u (priority_of u ''ComplianceStatusBundle'')) = Some ''ClustersPerPolicyBundle''"
proof -
  have m: "unit_matches setup_registrations lh u"
    using assms by (auto simp: sys_bridge_ok_def bridge_inv_def)
  then have p: "priority_of u ''ManagedClustersStatusBundle'' = 0" "priority_of u ''ClustersPerPolicyBundle'' = 1"
    "priority_of u ''ComplianceStatusBundle'' = 2" "priority_of u ''MinimalComplianceStatusBundle'' = 3"
    "ce_dependency (slot u 2) = Some ''ClustersPerPolicyBundle''"
    by (simp_all add: unit_matches_def setup_registrations_def)
  from p show "ty \<in> bundle_types \<Longrightarrow> ty' \<in> bundle_types \<Longrightarrow> priority_of u ty = priority_of u ty' \<Longrightarrow> ty = ty'"
    unfolding bundle_types_def by (elim insertE emptyE) simp_all
  from p show "ce_dependency (slot u (priority_of u ''ComplianceStatusBundle'')) = Some ''ClustersPerPolicyBundle''"
    by simp
qed

lemma agrees_cong:
  "(\<And>ty. last_processed u' ty = last_processed u ty) \<Longrightarrow> agrees done lh (Some u') = agrees done lh (Some u)"
  by (simp add: agrees_def)

lemma ready_base_processed:
  assumes ok: "sys_bridge_ok P s" and hist: "history_inv s"
    and u: "units (sys_bridge s) lh = Some u" "i < nslots u" "ready u i" "ce_bundle (slot u i) = Some b"
  shows "base_processed (sys_done s) b"
proof (cases b)
  case (ComplianceStatusBundle c)
  have inv: "bridge_inv (sys_bridge s)" using ok by (simp add: sys_bridge_ok_def)
  have core: "cu_core u" using inv u(1) by (auto simp: bridge_inv_def manager_inv_def cu_inv_def)
  from slot_okD [OF core u(2)] u(4) have "priority_of u (GetBundleType b) = i" by (simp add: slot_ok_def)
  with ComplianceStatusBundle setup_unit(2) [OF ok u(1)]
  have dep: "ce_dependency (slot u i) = Some ''ClustersPerPolicyBundle''" by simp
  have lh: "GetLeafHubName b = lh"
    using ok u by (auto simp: sys_bridge_ok_def bridge_inv_def unit_matches_def)
  from u(3,4) dep ComplianceStatusBundle
  have "csb_BaseBundleGeneration c \<le> last_processed u ''ClustersPerPolicyBundle''"
    by (auto simp: ready_def dependency_satisfied_def last_processed_def)
  moreover have "last_processed u ''ClustersPerPolicyBundle'' = 0 \<or>
      last_processed u ''ClustersPerPolicyBundle'' \<in> succeeded lh ''ClustersPerPolicyBundle'' (sys_done s)"
    using history_inv_unit [OF hist u(1)] by (simp add: agrees_def bundle_types_def)
  ultimately show ?thesis
    using lh ComplianceStatusBundle by (auto simp: base_processed_def)
qed (simp_all add: base_processed_def)

lemma job_base_processed:
  assumes ok: "sys_bridge_ok P s" and hist: "history_inv s" and run: "running_event e"
    and p: "perform e (sys_bridge s) = Some (Inr t)"
    and j: "job_at t pl = Some j" "job_bundle j = Some b"
  shows "base_processed (sys_done s) b"
proof -
  have inv: "bridge_inv (sys_bridge s)" using ok by (simp add: sys_bridge_ok_def)
  from job_origin [OF inv run p j(1)] show ?thesis
  proof
    assume "\<exists>q. job_at (sys_bridge s) q = Some j"
    then obtain q where "job_at (sys_bridge s) q = Some j" by (elim exE)
    from history_inv_job [OF hist this j(2)] show ?thesis .
  next
    assume "\<exists>n u i. units (sys_bridge s) n = Some u \<and> i < nslots u \<and> ready u i \<and>
      job_bundle j = ce_bundle (slot u i)"
    then obtain n u i where u: "units (sys_bridge s) n = Some u" "i < nslots u" "ready u i"
      "job_bundle j = ce_bundle (slot u i)" by (elim exE conjE)
    show ?thesis by (rule ready_base_processed [OF ok hist u(1-3)]) (use u(4) j(2) in simp)
  qed
qed

lemma agrees_insert:
  assumes ok: "sys_bridge_ok P s" and hist: "history_inv s" and that: "lh = GetLeafHubName b"
  shows "agrees (sys_done s) lh (Some (fst (inserted_unit (br_manager (sys_bridge s)) b m
    (br_readyQueue (sys_bridge s)))))"
proof -
  have inv: "bridge_inv (sys_bridge s)" using ok by (simp add: sys_bridge_ok_def)
  have mi: "manager_inv (br_manager (sys_bridge s))" using inv by (simp add: bridge_inv_def)
  let ?u = "unit_of (br_manager (sys_bridge s)) (GetLeafHubName b)"
  have sh: "cu_shape ?u" using getConflationUnit_eq(2) [OF mi] by (simp add: cu_inv_def cu_core_def)
  have "agrees (sys_done s) lh (Some ?u)"
  proof (cases "units (sys_bridge s) lh")
    case None
    have regs: "cm_registrations (br_manager (sys_bridge s)) = setup_registrations"
      using ok by (simp add: sys_bridge_ok_def)
    have none: "cm_conflationUnits (br_manager (sys_bridge s)) (GetLeafHubName b) = None"
      using None that by simp
    from new_unit_last [OF mi none regs] history_inv_no_unit [OF hist None] show ?thesis
      by (simp add: agrees_def)
  next
    case (Some u)
    from unit_of_Some [of "sys_bridge s" lh u] Some that have "?u = u" by simp
    with history_inv_unit [OF hist Some] show ?thesis by simp
  qed
  moreover have "last_processed (fst (inserted_unit (br_manager (sys_bridge s)) b m
      (br_readyQueue (sys_bridge s)))) ty = last_processed ?u ty" for ty
    by (simp add: inserted_unit_def Let_def last_processed_stored [OF sh])
  ultimately show ?thesis by (simp add: agrees_def)
qed

lemma history_inv_bridge_step:
  assumes ok: "sys_bridge_ok P s" and hist: "history_inv s" and e: "bridge_step e"
    and p: "perform e (sys_bridge s) = Some (Inr t)"
  shows "history_inv (s\<lparr>sys_bridge := t\<rparr>)"
proof -
  have inv: "bridge_inv (sys_bridge s)" using ok by (simp add: sys_bridge_ok_def)
  have run: "running_event e" using e by (cases e) simp_all
  have "agrees (sys_done s) lh (units t lh)" for lh
  proof (cases rule: running_step_cases [OF inv run p])
    case 1
    with history_inv_agrees [OF hist] show ?thesis by simp
  next
    case (2 b m)
    show ?thesis
    proof (cases "lh = GetLeafHubName b")
      case True
      with agrees_insert [OF ok hist True, of m] 2(2) show ?thesis by simp
    qed (use 2(2) history_inv_agrees [OF hist, of lh] in simp)
  next
    case (3 n u i)
    show ?thesis
    proof (cases "lh = n")
      case True
      with history_inv_unit [OF hist 3(3)] 3
      have "agrees (sys_done s) n (Some (taken u i))"
        by (simp add: agrees_def last_processed_taken)
      with True 3 show ?thesis by simp
    qed (use 3 history_inv_agrees [OF hist, of lh] in simp)
  next
    case (4 w err j u b r)
    with e show ?thesis by simp
  qed
  with job_base_processed [OF ok hist run p] show ?thesis by (simp add: history_inv_def)
qed

lemma agrees_finish:
  assumes agr: "agrees done lh (Some u)" and newer: "last_processed u (GetBundleType b) < GetGeneration b"
    and lh: "GetLeafHubName b = lh"
    and up: "\<forall>ty \<in> bundle_types. last_processed u' ty =
      (if ty = GetBundleType b \<and> err = None then GetGeneration b else last_processed u ty)"
  shows "agrees (done @ [(b, err)]) lh (Some u')"
proof -
  have "(\<forall>g \<in> succeeded lh ty (done @ [(b, err)]). g \<le> last_processed u' ty) \<and>
      (last_processed u' ty = 0 \<or> last_processed u' ty \<in> succeeded lh ty (done @ [(b, err)]))"
    if ty: "ty \<in> bundle_types" for ty
  proof (cases "ty = GetBundleType b \<and> err = None")
    case True
    then have s: "succeeded lh ty (done @ [(b, err)]) = {GetGeneration b} \<union> succeeded lh ty done"
      using lh by (simp add: succeeded_snoc same_kind_def)
    have l: "last_processed u' ty = GetGeneration b" using up ty True by simp
    have "g \<le> GetGeneration b" if "g \<in> succeeded lh ty done" for g
    proof -
      have "g \<le> last_processed u ty" using agr ty that by (simp add: agrees_def)
      then show ?thesis using newer True by simp
    qed
    with s l show ?thesis by simp
  next
    case False
    then have s: "succeeded lh ty (done @ [(b, err)]) = succeeded lh ty done"
      by (auto simp: succeeded_snoc same_kind_def)
    have l: "last_processed u' ty = last_processed u ty" using bspec [OF up ty] unfolding if_not_P [OF False] .
    from s l agr ty show ?thesis by (simp add: agrees_def)
  qed
  then show ?thesis by (simp add: agrees_def)
qed

lemma last_processed_reported:
  assumes ok: "sys_bridge_ok P s" and u: "units (sys_bridge s) lh = Some u" and ty: "ty \<in> bundle_types"
  shows "last_processed (reported u b err) ty =
    (if ty = GetBundleType b \<and> err = None then GetGeneration b else last_processed u ty)"
proof -
  have sh: "cu_shape u"
    using ok bridge_inv_cu [OF _ u] by (simp add: sys_bridge_ok_def)
  show ?thesis
    using setup_unit(1) [OF ok u ty GetBundleType_types [of b]]
    by (auto simp: last_processed_def slot_reported [OF sh] finished_element_def)
qed

lemma history_inv_finish:
  assumes ok: "sys_bridge_ok P s" and hist: "history_inv s"
    and p: "perform (EvFinish w err) (sys_bridge s) = Some (Inr t)"
    and j: "job_at (sys_bridge s) (AtWorker w) = Some j" "job_bundle j = Some b"
  shows "history_inv \<lparr>sys_bridge = t, sys_db = d', sys_done = sys_done s @ [(b, err)]\<rparr>"
    and "\<forall>g \<in> succeeded (GetLeafHubName b) (GetBundleType b) (sys_done s). g < GetGeneration b"
proof -
  have inv: "bridge_inv (sys_bridge s)" using ok by (simp add: sys_bridge_ok_def)
  let ?lh = "job_resultReporter j"
  obtain u r where u: "units (sys_bridge s) ?lh = Some u" "job_ok u b r"
    "units t = (units (sys_bridge s))(?lh \<mapsto> fst (settle ?lh (reported u b err) (br_readyQueue (sys_bridge s))))"
    by (rule finish_step [OF inv p]) (use j in auto)
  have "good_job (sys_bridge s) j" using inv j(1) by (auto simp: bridge_inv_def intro: jobs_okD)
  with j(2) have lh: "GetLeafHubName b = ?lh" by (auto simp: good_job_def)
  have newer: "last_processed u (GetBundleType b) < GetGeneration b"
    using u(2) by (simp add: job_ok_def Let_def last_processed_def)
  have agr: "agrees (sys_done s) ?lh (Some u)" by (rule history_inv_unit [OF hist u(1)])
  show "\<forall>g \<in> succeeded (GetLeafHubName b) (GetBundleType b) (sys_done s). g < GetGeneration b"
  proof
    fix g assume "g \<in> succeeded (GetLeafHubName b) (GetBundleType b) (sys_done s)"
    then have "g \<le> last_processed u (GetBundleType b)"
      using agr lh GetBundleType_types [of b] by (simp add: agrees_def)
    with newer show "g < GetGeneration b" by simp
  qed
  have "agrees (sys_done s @ [(b, err)]) n (units t n)" for n
  proof (cases "n = ?lh")
    case True
    have "agrees (sys_done s @ [(b, err)]) ?lh
        (Some (fst (settle ?lh (reported u b err) (br_readyQueue (sys_bridge s)))))"
      by (rule agrees_finish [OF agr newer lh]) (simp add: last_processed_reported [OF ok u(1)])
    with True u(3) show ?thesis by simp
  next
    case False
    with lh have same: "succeeded n ty (sys_done s @ [(b, err)]) = succeeded n ty (sys_done s)" for ty
      by (simp add: succeeded_snoc same_kind_def)
    have "agrees (sys_done s) n (units (sys_bridge s) n)" by (rule history_inv_agrees [OF hist])
    then have "agrees (sys_done s @ [(b, err)]) n (units (sys_bridge s) n)"
      by (simp only: agrees_def same)
    with False u(3) show ?thesis by simp
  qed
  moreover have "base_processed (sys_done s @ [(b, err)]) c"
    if "job_at t pl = Some k" "job_bundle k = Some c" for pl k c
    using job_base_processed [OF ok hist _ p that] by (intro base_processed_snoc) simp
  ultimately show "history_inv \<lparr>sys_bridge = t, sys_db = d', sys_done = sys_done s @ [(b, err)]\<rparr>"
    by (simp add: history_inv_def)
qed

section \<open>Reachable histories\<close>

lemma worker_handle_job:
  assumes ok: "sys_bridge_ok P s" and p: "worker_handle conn S w ord s = Some (Inr t)"
  obtains j b err where "job_at (sys_bridge s) (AtWorker w) = Some j" "job_bundle j = Some b"
    "perform (EvFinish w err) (sys_bridge s) = Some (Inr (sys_bridge t))"
    "t = \<lparr>sys_bridge = sys_bridge t, sys_db = sys_db t, sys_done = sys_done s @ [(b, err)]\<rparr>"
proof -
  from p obtain j where w: "w < length (wp_workers (br_pool (sys_bridge s)))"
      "wk_pc (wp_workers (br_pool (sys_bridge s)) ! w) = WorkerRunning j"
    by (auto simp: worker_handle_def split: if_splits worker_pc.splits)
  then have at: "job_at (sys_bridge s) (AtWorker w) = Some j" by (simp add: job_at_def worker_job_def)
  from job_handler [OF ok at] obtain b where b: "job_bundle j = Some b" by blast
  from p w b obtain err d' where h: "handler_function conn S ord (job_handlerFunc j) b (sys_db s) = Inr (err, d')"
    by (auto simp: worker_handle_def bind_go_eq_Inr)
  have "perform (EvFinish w err) (sys_bridge s) \<noteq> None" using w by (simp add: worker_finish_def)
  then obtain r where r: "perform (EvFinish w err) (sys_bridge s) = Some r" by blast
  with p w b h obtain t' where t: "r = Inr t'"
      "t = \<lparr>sys_bridge = t', sys_db = d', sys_done = sys_done s @ [(b, err)]\<rparr>"
    by (auto simp: worker_handle_def bind_go_eq_Inr simp del: perform.simps)
  show ?thesis by (rule that [OF at b, of err]) (use r t in simp_all)
qed

lemma history_reachable:
  assumes "sys_reachable conn S P (initial_system n d) s" and P: "\<And>b. P b \<Longrightarrow> no_nil_objects b"
  shows "history_inv s \<and> in_generation_order (sys_done s) \<and> bases_first (sys_done s)"
  using assms(1)
proof (induction rule: sys_reachable.induct)
  case sys_start
  have "job_at (initial_bridge setup_registrations n) pl = None" for pl
    by (cases pl) (simp_all add: job_at_def initial_bridge_def NewDispatcher_def pool_Start_def
        start_workers_eq NewDBWorker_def worker_job_def)
  then show ?case
    by (simp add: history_inv_def agrees_def initial_system_def in_generation_order_def bases_first_def succeeded_def
        initial_bridge_def foldl_Register NewConflationManager_def)
next
  case (sys_step s e t)
  have ok: "sys_bridge_ok P s" by (rule sys_reachable_ok [OF sys_step.hyps(1) P])
  show ?case
  proof (cases e)
    case (BridgeStep ev)
    with sys_step.hyps(3) obtain t' where t': "bridge_step ev" "perform ev (sys_bridge s) = Some (Inr t')"
        "t = s\<lparr>sys_bridge := t'\<rparr>"
      by (auto simp: bind_go_eq_Inr split: if_splits)
    with history_inv_bridge_step [OF ok _ t'(1,2)] sys_step.IH show ?thesis by simp
  next
    case (HandlerRun w ord)
    with sys_step.hyps(3) have "worker_handle conn S w ord s = Some (Inr t)" by simp
    then show ?thesis
    proof (rule worker_handle_job [OF ok])
      fix j b err
      assume j: "job_at (sys_bridge s) (AtWorker w) = Some j" "job_bundle j = Some b"
        and p: "perform (EvFinish w err) (sys_bridge s) = Some (Inr (sys_bridge t))"
        and t: "t = \<lparr>sys_bridge = sys_bridge t, sys_db = sys_db t, sys_done = sys_done s @ [(b, err)]\<rparr>"
      from sys_step.IH have hist: "history_inv s" by simp
      note fin = history_inv_finish [OF ok hist p j]
      have dn: "sys_done t = sys_done s @ [(b, err)]" by (subst t) simp
      have "history_inv t" by (subst t) (rule fin(1))
      moreover have "in_generation_order (sys_done t)"
        unfolding dn by (rule in_generation_order_snoc) (use sys_step.IH fin(2) in simp_all)
      moreover have "base_processed (sys_done s) b" by (rule history_inv_job [OF hist j])
      then have "bases_first (sys_done t)"
        unfolding dn by (intro bases_first_snoc) (use sys_step.IH in simp)
      ultimately show ?thesis by blast
    qed
  qed
qed

end
