(* ===== verification/Interleaved_System.thy ===== *)
theory Interleaved_System
  imports Run_Effects Job_History
begin

text \<open>
  The running bridge with handlers that are not atomic. Each worker that has a job makes the calls of its
  handler one at a time; between two of them the other workers make theirs, bundles arrive, and the
  dispatcher goes on.
\<close>

section \<open>Steps\<close>

text \<open>\<open>il_runs s w\<close> is what is left of the handler that worker \<open>w\<close> has entered, if it is in one.\<close>

record 'd interleaved =
  il_system :: "'d system"
  il_runs :: "nat \<rightharpoonup> 'd db_run"

text \<open>The bundle of the job a worker runs.\<close>

definition running_job :: "bridge \<Rightarrow> nat \<Rightarrow> db_job option" where
  "running_job s w =
     (if w < length (wp_workers (br_pool s))
      then (case wk_pc (wp_workers (br_pool s) ! w) of WorkerRunning j \<Rightarrow> Some j | _ \<Rightarrow> None)
      else None)"

text \<open>The handler is entered, makes a call, or has returned and its result is reported.\<close>

definition handler_enter ::
  "'d pg_conn \<Rightarrow> 'set go_sets \<Rightarrow> nat \<Rightarrow> 'set map_orders \<Rightarrow> 'd interleaved \<Rightarrow> 'd interleaved go option" where
  "handler_enter conn S w ord s =
     (case (il_runs s w, running_job (sys_bridge (il_system s)) w) of
        (None, Some job) \<Rightarrow> Some (bind_go (go_deref (job_bundle job)) (\<lambda>b.
          Inr (s\<lparr>il_runs := (il_runs s)(w \<mapsto> handler_run conn S ord (job_handlerFunc job) b)\<rparr>)))
      | _ \<Rightarrow> None)"

definition handler_call :: "nat \<Rightarrow> 'd interleaved \<Rightarrow> 'd interleaved go option" where
  "handler_call w s =
     (case il_runs s w of
        Some (Calling f) \<Rightarrow>
          Some (Inr (s\<lparr>il_system := (il_system s)\<lparr>sys_db := snd (f (sys_db (il_system s)))\<rparr>,
                       il_runs := (il_runs s)(w \<mapsto> fst (f (sys_db (il_system s))))\<rparr>))
      | Some (Panicked p) \<Rightarrow> Some (Inl p)
      | _ \<Rightarrow> None)"

definition handler_return :: "nat \<Rightarrow> 'd interleaved \<Rightarrow> 'd interleaved go option" where
  "handler_return w s =
     (case (il_runs s w, running_job (sys_bridge (il_system s)) w) of
        (Some (Returned err), Some job) \<Rightarrow>
          (case perform (EvFinish w err) (sys_bridge (il_system s)) of
             None \<Rightarrow> None
           | Some r \<Rightarrow> Some (bind_go r (\<lambda>t. bind_go (go_deref (job_bundle job)) (\<lambda>b.
               Inr \<lparr>il_system = (il_system s)\<lparr>sys_bridge := t,
                      sys_done := sys_done (il_system s) @ [(b, err)]\<rparr>,
                    il_runs = (il_runs s)(w := None)\<rparr>))))
      | _ \<Rightarrow> None)"

datatype 'set interleaved_event =
    OtherStep bridge_event
  | HandlerEnter nat "'set map_orders"
  | HandlerCall nat
  | HandlerReturn nat

fun il_perform ::
  "'d pg_conn \<Rightarrow> 'set go_sets \<Rightarrow> 'set interleaved_event \<Rightarrow> 'd interleaved \<Rightarrow> 'd interleaved go option" where
  "il_perform conn S (OtherStep e) s =
     (if bridge_step e
      then map_option (\<lambda>r. bind_go r (\<lambda>t. Inr (s\<lparr>il_system := (il_system s)\<lparr>sys_bridge := t\<rparr>\<rparr>)))
        (perform e (sys_bridge (il_system s)))
      else None)"
| "il_perform conn S (HandlerEnter w ord) s = handler_enter conn S w ord s"
| "il_perform conn S (HandlerCall w) s = handler_call w s"
| "il_perform conn S (HandlerReturn w) s = handler_return w s"

fun il_inserts_only :: "(status_bundle \<Rightarrow> bool) \<Rightarrow> 'set interleaved_event \<Rightarrow> bool" where
  "il_inserts_only P (OtherStep (EvInsert b m)) = P b"
| "il_inserts_only P _ = True"

inductive il_reachable ::
  "'d pg_conn \<Rightarrow> 'set go_sets \<Rightarrow> (status_bundle \<Rightarrow> bool) \<Rightarrow> 'd interleaved \<Rightarrow> 'd interleaved \<Rightarrow> bool"
  for conn S P s0 where
  il_start: "il_reachable conn S P s0 s0"
| il_step: "il_reachable conn S P s0 s \<Longrightarrow> il_inserts_only P e \<Longrightarrow> il_perform conn S e s = Some (Inr t) \<Longrightarrow>
    il_reachable conn S P s0 t"

definition initial_interleaved :: "nat \<Rightarrow> 'd \<Rightarrow> 'd interleaved" where
  "initial_interleaved poolSize d = \<lparr>il_system = initial_system poolSize d, il_runs = (\<lambda>_. None)\<rparr>"

section \<open>Running jobs\<close>

lemma running_jobE:
  assumes "running_job s w = Some j"
  obtains "w < length (wp_workers (br_pool s))" "wk_pc (wp_workers (br_pool s) ! w) = WorkerRunning j"
    "job_at s (AtWorker w) = Some j"
  using assms by (auto simp: running_job_def job_at_def worker_job_def split: if_splits worker_pc.splits)

lemma running_job_cong:
  assumes "wp_workers (br_pool t) = wp_workers (br_pool s)"
  shows "running_job t w = running_job s w"
  using assms by (simp add: running_job_def)

lemma dispatch_keeps_workers:
  assumes d: "dispatch s = Some (Inr t)" and pc: "\<And>w k. dp_pc (br_dispatcher s) \<noteq> DispRun w k"
  shows "wp_workers (br_pool t) = wp_workers (br_pool s)"
proof (cases "dp_pc (br_dispatcher s)")
  case (DispGetNext cu w)
  with d show ?thesis by (auto simp: dispatch_def bind_go_eq_Inr goto_def split: sum.split)
qed (use d pc in \<open>auto simp: dispatch_def goto_def Acquire_def split: option.splits list.splits if_splits\<close>)

text \<open>A worker that runs a job goes on running it until its handler returns.\<close>

lemma running_job_set_worker:
  assumes "running_job s w = Some j" "wk_pc wk = wk_pc (wp_workers (br_pool s) ! v) \<or> v \<noteq> w"
    and "wp_workers (br_pool t) = (wp_workers (br_pool s))[v := wk]"
  shows "running_job t w = Some j"
  using assms by (cases "v = w") (auto simp: running_job_def split: if_splits worker_pc.splits)

lemma running_job_kept:
  assumes j: "running_job s w = Some j" and e: "bridge_step e" and p: "perform e s = Some (Inr t)"
  shows "running_job t w = Some j"
proof -
  have pc: "wk_pc (wp_workers (br_pool s) ! w) = WorkerRunning j" by (rule running_jobE [OF j])
  note same = running_job_cong [THEN trans, OF _ j]
  show ?thesis
  proof (cases e)
    case (EvInsert b m)
    with p show ?thesis by (intro same) (auto simp: bind_go_eq_Inr)
  next
    case EvDispatch
    with p have d: "dispatch s = Some (Inr t)" by simp
    show ?thesis
    proof (cases "dp_pc (br_dispatcher s)")
      case (DispRun v k)
      with d obtain pool where pool: "RunAsync v k (br_pool s) = Some (Inr pool)"
          "t = goto (s\<lparr>br_pool := pool\<rparr>) DispSelect"
        by (auto simp: dispatch_def bind_go_eq_Inr split: option.splits)
      then obtain x where "v = Some x" "pool = set_worker (br_pool s) x
          ((wp_workers (br_pool s) ! x)\<lparr>wk_jobsQueue := wk_jobsQueue (wp_workers (br_pool s) ! x) @ [k]\<rparr>)"
        by (auto simp: RunAsync_def Let_def split: option.splits if_splits)
      with pool(2) j show ?thesis
        by (intro running_job_set_worker [OF j, where v = x]) (simp_all add: goto_def set_worker_def)
    qed (use dispatch_keeps_workers [OF d] in \<open>intro same, simp\<close>)+
  next
    case (EvOffer v)
    with p obtain pool where pool: "worker_offer v (br_pool s) = Some (Inr pool)" "t = s\<lparr>br_pool := pool\<rparr>"
      by (auto simp: bind_go_eq_Inr)
    then have "wk_pc (wp_workers (br_pool s) ! v) = WorkerOffering"
      "wp_workers pool = (wp_workers (br_pool s))[v := (wp_workers (br_pool s) ! v)\<lparr>wk_pc := WorkerSelect\<rparr>]"
      by (auto simp: worker_offer_def set_worker_def split: if_splits)
    with pc pool(2) show ?thesis by (intro running_job_set_worker [OF j, where v = v]) auto
  next
    case (EvReceive v)
    with p obtain pool where pool: "worker_receive v (br_pool s) = Some (Inr pool)" "t = s\<lparr>br_pool := pool\<rparr>"
      by (auto simp: bind_go_eq_Inr)
    then obtain wk where "wk_pc (wp_workers (br_pool s) ! v) = WorkerSelect"
      "wp_workers pool = (wp_workers (br_pool s))[v := wk]"
      by (auto simp: worker_receive_def set_worker_def bind_go_eq_Inr split: if_splits list.splits)
    with pc pool(2) show ?thesis by (intro running_job_set_worker [OF j, where v = v]) auto
  next
    case (EvWorkerStop v)
    with p obtain pool where pool: "worker_stop v (br_pool s) = Some (Inr pool)" "t = s\<lparr>br_pool := pool\<rparr>"
      by (auto simp: bind_go_eq_Inr)
    then obtain wk where "wk_pc (wp_workers (br_pool s) ! v) = WorkerSelect"
      "wp_workers pool = (wp_workers (br_pool s))[v := wk]"
      by (auto simp: worker_stop_def set_worker_def split: if_splits)
    with pc pool(2) show ?thesis by (intro running_job_set_worker [OF j, where v = v]) auto
  qed (use p e in \<open>auto intro!: same simp: dispatcher_cancel_def\<close>)
qed

lemma running_job_finish:
  assumes inv: "bridge_inv s" and p: "perform (EvFinish w err) s = Some (Inr t)" and v: "v \<noteq> w"
  shows "running_job t v = running_job s v"
  by (rule finish_step [OF inv p]) (use v in \<open>simp add: running_job_def set_worker_def\<close>)

text \<open>No two workers run jobs of one leaf hub.\<close>

lemma running_jobs_differ:
  assumes inv: "bridge_inv s" and j: "running_job s w = Some j" "job_bundle j = Some b"
    and k: "running_job s v = Some k" "job_bundle k = Some c" and lh: "GetLeafHubName b = GetLeafHubName c"
  shows "v = w"
proof -
  have jobs: "jobs_ok s" using inv by (simp add: bridge_inv_def)
  have at: "job_at s (AtWorker w) = Some j" "job_at s (AtWorker v) = Some k"
    using j(1) k(1) by (auto elim: running_jobE)
  have "GetLeafHubName b = job_resultReporter j" "GetLeafHubName c = job_resultReporter k"
    using jobs_okD [OF jobs at(1)] jobs_okD [OF jobs at(2)] j(2) k(2) by (auto simp: good_job_def)
  with lh jobs_ok_unique [OF jobs at(2,1)] show ?thesis by simp
qed

section \<open>Safety\<close>

text \<open>
  The bridge is in order, the history is, and each handler that has been entered belongs to the job of
  its worker and never panics.
\<close>

definition history_ok :: "'d system \<Rightarrow> bool" where
  "history_ok s \<longleftrightarrow> history_inv s \<and> in_generation_order (sys_done s) \<and> bases_first (sys_done s)"

definition il_safe :: "(status_bundle \<Rightarrow> bool) \<Rightarrow> 'd interleaved \<Rightarrow> bool" where
  "il_safe P s \<longleftrightarrow>
     sys_bridge_ok P (il_system s) \<and> history_ok (il_system s) \<and>
     (\<forall>w r. il_runs s w = Some r \<longrightarrow> run_safe r \<and> running_job (sys_bridge (il_system s)) w \<noteq> None)"

lemma il_safeD:
  assumes "il_safe P s"
  shows "sys_bridge_ok P (il_system s)" "bridge_inv (sys_bridge (il_system s))" "history_ok (il_system s)"
    "il_runs s w = Some r \<Longrightarrow> run_safe r"
    "il_runs s w = Some r \<Longrightarrow> \<exists>j. running_job (sys_bridge (il_system s)) w = Some j"
  using assms by (auto simp: il_safe_def sys_bridge_ok_def)

lemma running_handler:
  assumes "sys_bridge_ok P s" "running_job (sys_bridge s) w = Some j"
  obtains b where "job_bundle j = Some b" "P b" "job_handlerFunc j = handler_of b"
    "job_at (sys_bridge s) (AtWorker w) = Some j"
proof -
  have "job_at (sys_bridge s) (AtWorker w) = Some j" by (rule running_jobE [OF assms(2)])
  with job_handler [OF assms(1) this] that show ?thesis by blast
qed

text \<open>Each step on a safe state: what it does, and that the state stays safe.\<close>

lemma safe_other:
  assumes safe: "il_safe P s" and e: "bridge_step ev" "perform ev (sys_bridge (il_system s)) = Some r"
    and ins: "\<And>b m. ev = EvInsert b m \<Longrightarrow> P b"
  obtains t where "r = Inr t" "il_safe P (s\<lparr>il_system := (il_system s)\<lparr>sys_bridge := t\<rparr>\<rparr>)"
    "\<And>w j. running_job (sys_bridge (il_system s)) w = Some j \<Longrightarrow> running_job t w = Some j"
proof -
  note I = il_safeD [OF safe]
  have "running_event ev" using e(1) by (cases ev) simp_all
  from bridge_event_ok [OF I(1) this e(2)] ins obtain t where t: "r = Inr t"
      "sys_bridge_ok P ((il_system s)\<lparr>sys_bridge := t\<rparr>)" by blast
  have p: "perform ev (sys_bridge (il_system s)) = Some (Inr t)" using e(2) t(1) by simp
  have kept: "running_job t w = Some j" if "running_job (sys_bridge (il_system s)) w = Some j" for w j
    by (rule running_job_kept [OF that e(1) p])
  have "history_ok ((il_system s)\<lparr>sys_bridge := t\<rparr>)"
    using history_inv_bridge_step [OF I(1) _ e(1) p] I(3) by (simp add: history_ok_def)
  moreover have "running_job t w \<noteq> None" if "il_runs s w = Some q" for w q
    using I(5) [OF that] kept by fastforce
  ultimately have "il_safe P (s\<lparr>il_system := (il_system s)\<lparr>sys_bridge := t\<rparr>\<rparr>)"
    using t(2) I(4) by (simp add: il_safe_def)
  with t(1) kept that show ?thesis by blast
qed

lemma safe_enter:
  assumes safe: "il_safe P s" and P: "\<And>b. P b \<Longrightarrow> no_nil_objects b"
    and p: "handler_enter conn S w ord s = Some r"
  obtains j b where "il_runs s w = None" "running_job (sys_bridge (il_system s)) w = Some j"
    "job_bundle j = Some b" "P b"
    "r = Inr (s\<lparr>il_runs := (il_runs s)(w \<mapsto> handler_run conn S ord (handler_of b) b)\<rparr>)"
    "il_safe P (s\<lparr>il_runs := (il_runs s)(w \<mapsto> handler_run conn S ord (handler_of b) b)\<rparr>)"
proof -
  note I = il_safeD [OF safe]
  from p obtain j where w: "il_runs s w = None" "running_job (sys_bridge (il_system s)) w = Some j"
    by (auto simp: handler_enter_def split: option.splits)
  obtain b where b: "job_bundle j = Some b" "P b" "job_handlerFunc j = handler_of b"
    by (rule running_handler [OF I(1) w(2)])
  have "r = Inr (s\<lparr>il_runs := (il_runs s)(w \<mapsto> handler_run conn S ord (handler_of b) b)\<rparr>)"
    using p w b(1,3) by (simp add: handler_enter_def)
  moreover have "il_safe P (s\<lparr>il_runs := (il_runs s)(w \<mapsto> handler_run conn S ord (handler_of b) b)\<rparr>)"
    using safe w(2) handler_run_safe [OF P [OF b(2)]] by (simp add: il_safe_def)
  ultimately show ?thesis using that w b(1,2) by blast
qed

lemma safe_call:
  assumes safe: "il_safe P s" and p: "handler_call w s = Some r"
  obtains f where "il_runs s w = Some (Calling f)"
    "r = Inr (s\<lparr>il_system := (il_system s)\<lparr>sys_db := snd (f (sys_db (il_system s)))\<rparr>,
               il_runs := (il_runs s)(w \<mapsto> fst (f (sys_db (il_system s))))\<rparr>)"
    "il_safe P (s\<lparr>il_system := (il_system s)\<lparr>sys_db := snd (f (sys_db (il_system s)))\<rparr>,
               il_runs := (il_runs s)(w \<mapsto> fst (f (sys_db (il_system s))))\<rparr>)"
proof -
  from p obtain r0 where r0: "il_runs s w = Some r0" by (auto simp: handler_call_def split: option.splits)
  with p il_safeD(4) [OF safe r0] obtain f where f: "r0 = Calling f"
    by (cases r0) (auto simp: handler_call_def)
  show ?thesis
  proof (rule that [of f])
    show "il_safe P (s\<lparr>il_system := (il_system s)\<lparr>sys_db := snd (f (sys_db (il_system s)))\<rparr>,
               il_runs := (il_runs s)(w \<mapsto> fst (f (sys_db (il_system s))))\<rparr>)"
      using safe r0 f il_safeD(4) [OF safe r0]
      by (auto simp: il_safe_def sys_bridge_ok_def history_ok_def history_inv_def)
  qed (use p r0 f in \<open>simp_all add: handler_call_def\<close>)
qed

lemma history_ok_finish:
  assumes ok: "sys_bridge_ok P s" and hist: "history_ok s"
    and p: "perform (EvFinish w err) (sys_bridge s) = Some (Inr t)"
    and j: "job_at (sys_bridge s) (AtWorker w) = Some j" "job_bundle j = Some b"
  shows "history_ok \<lparr>sys_bridge = t, sys_db = d', sys_done = sys_done s @ [(b, err)]\<rparr>"
proof -
  have inv: "history_inv s" using hist by (simp add: history_ok_def)
  note fin = history_inv_finish [OF ok inv p j]
  have "in_generation_order (sys_done s @ [(b, err)])"
    by (rule in_generation_order_snoc) (use hist fin(2) in \<open>simp_all add: history_ok_def\<close>)
  moreover have "bases_first (sys_done s @ [(b, err)])"
    by (rule bases_first_snoc) (use hist history_inv_job [OF inv j] in \<open>simp_all add: history_ok_def\<close>)
  ultimately show ?thesis using fin(1) [of d'] by (simp add: history_ok_def)
qed

text \<open>The state after the return of a handler.\<close>

definition returned :: "'d interleaved \<Rightarrow> nat \<Rightarrow> bridge \<Rightarrow> status_bundle \<Rightarrow> go_error option \<Rightarrow> 'd interleaved" where
  "returned s w t b err =
     \<lparr>il_system = \<lparr>sys_bridge = t, sys_db = sys_db (il_system s), sys_done = sys_done (il_system s) @ [(b, err)]\<rparr>,
      il_runs = (il_runs s)(w := None)\<rparr>"

lemma safe_return:
  assumes safe: "il_safe P s" and r0: "il_runs s w = Some (Returned err)"
  obtains j b t where "running_job (sys_bridge (il_system s)) w = Some j" "job_bundle j = Some b"
    "perform (EvFinish w err) (sys_bridge (il_system s)) = Some (Inr t)"
    "handler_return w s = Some (Inr (returned s w t b err))" "il_safe P (returned s w t b err)"
proof -
  note I = il_safeD [OF safe]
  from I(5) [OF r0] obtain j where j: "running_job (sys_bridge (il_system s)) w = Some j" by blast
  obtain b where b: "job_bundle j = Some b" and at: "job_at (sys_bridge (il_system s)) (AtWorker w) = Some j"
    by (rule running_handler [OF I(1) j])
  have w: "w < length (wp_workers (br_pool (sys_bridge (il_system s))))"
    "wk_pc (wp_workers (br_pool (sys_bridge (il_system s))) ! w) = WorkerRunning j"
    by (rule running_jobE [OF j], assumption)+
  obtain r' where r': "perform (EvFinish w err) (sys_bridge (il_system s)) = Some r'"
    using w by (simp add: worker_finish_def)
  from bridge_event_ok [OF I(1) _ r'] obtain t where t: "r' = Inr t"
      "sys_bridge_ok P ((il_system s)\<lparr>sys_bridge := t\<rparr>)" by auto
  have fin: "perform (EvFinish w err) (sys_bridge (il_system s)) = Some (Inr t)" using r' t(1) by simp
  have "(il_system s)\<lparr>sys_bridge := t, sys_done := sys_done (il_system s) @ [(b, err)]\<rparr> =
      \<lparr>sys_bridge = t, sys_db = sys_db (il_system s), sys_done = sys_done (il_system s) @ [(b, err)]\<rparr>"
    by (cases "il_system s") simp
  with r0 j b fin have "handler_return w s = Some (Inr (returned s w t b err))"
    by (simp add: handler_return_def returned_def del: perform.simps)
  moreover have "il_safe P (returned s w t b err)"
  proof -
    have "run_safe q \<and> running_job t v \<noteq> None" if "((il_runs s)(w := None)) v = Some q" for v q
    proof -
      have v: "v \<noteq> w" "il_runs s v = Some q" using that by (auto split: if_splits)
      with I(4,5) [OF v(2)] running_job_finish [OF I(2) fin v(1)] show ?thesis by simp
    qed
    moreover have "sys_bridge_ok P \<lparr>sys_bridge = t, sys_db = sys_db (il_system s),
        sys_done = sys_done (il_system s) @ [(b, err)]\<rparr>"
      using t(2) by (simp add: sys_bridge_ok_def)
    ultimately show ?thesis
      using history_ok_finish [OF I(1,3) fin at b, of "sys_db (il_system s)"]
      unfolding il_safe_def returned_def interleaved.simps system.simps by blast
  qed
  ultimately show ?thesis using that j b fin by blast
qed

lemma handler_returnE:
  assumes "handler_return w s = Some r"
  obtains err where "il_runs s w = Some (Returned err)"
  using assms by (auto simp: handler_return_def split: option.splits db_run.splits)

lemma il_perform_safe:
  assumes safe: "il_safe P s" and P: "\<And>b. P b \<Longrightarrow> no_nil_objects b"
    and ins: "il_inserts_only P e" and p: "il_perform conn S e s = Some r"
  shows "\<exists>t. r = Inr t \<and> il_safe P t"
proof (cases e)
  case (OtherStep ev)
  with p obtain r' where r': "bridge_step ev" "perform ev (sys_bridge (il_system s)) = Some r'"
      "r = bind_go r' (\<lambda>t. Inr (s\<lparr>il_system := (il_system s)\<lparr>sys_bridge := t\<rparr>\<rparr>))"
    by (auto split: if_splits)
  show ?thesis by (rule safe_other [OF safe r'(1,2)]) (use r'(3) ins OtherStep in auto)
next
  case (HandlerEnter w ord)
  with p have "handler_enter conn S w ord s = Some r" by simp
  then show ?thesis by (rule safe_enter [OF safe, rotated]) (use P in auto)
next
  case (HandlerCall w)
  with p have "handler_call w s = Some r" by simp
  then show ?thesis by (rule safe_call [OF safe]) blast
next
  case (HandlerReturn w)
  with p have ret: "handler_return w s = Some r" by simp
  then obtain err where "il_runs s w = Some (Returned err)" by (rule handler_returnE)
  then show ?thesis by (rule safe_return [OF safe]) (use ret in simp)
qed

lemma initial_interleaved_safe: "il_safe P (initial_interleaved n d)"
proof -
  have "sys_reachable undefined undefined no_nil_objects (initial_system n d) (initial_system n d)"
    by (rule sys_start)
  from history_reachable [OF this] have "history_ok (initial_system n d)" by (simp add: history_ok_def)
  then show ?thesis by (simp add: il_safe_def initial_interleaved_def initial_system_ok)
qed

lemma il_reachable_safe:
  assumes "il_reachable conn S P (initial_interleaved n d) s" and P: "\<And>b. P b \<Longrightarrow> no_nil_objects b"
  shows "il_safe P s"
  using assms(1)
proof (induction rule: il_reachable.induct)
  case il_start
  show ?case by (rule initial_interleaved_safe)
next
  case (il_step s e t)
  from il_perform_safe [OF il_step.IH P il_step.hyps(2,3)] show ?case by simp
qed

section \<open>Handlers that nobody interrupts\<close>

lemma il_run_reachable:
  "il_reachable conn S P s0 s \<Longrightarrow> list_all (il_inserts_only P) es \<Longrightarrow>
     run_steps (il_perform conn S) es s = Some (Inr t) \<Longrightarrow> il_reachable conn S P s0 t"
  by (induction es arbitrary: s) (auto intro: il_step simp del: il_perform.simps split: option.splits sum.splits)

text \<open>A worker may make all the calls of its handler in a row.\<close>

lemma calls_in_a_row:
  assumes "il_runs s w = Some r" "run_alone r (sys_db (il_system s)) = Inr (err, d')"
  shows "\<exists>k. run_steps (il_perform conn S) (replicate k (HandlerCall w)) s = Some (Inr
    (s\<lparr>il_system := (il_system s)\<lparr>sys_db := d'\<rparr>, il_runs := (il_runs s)(w \<mapsto> Returned err)\<rparr>))"
  using assms
proof (induction r arbitrary: s)
  case (Returned err')
  then have "(il_runs s)(w \<mapsto> Returned err) = il_runs s" "d' = sys_db (il_system s)" by auto
  then have "run_steps (il_perform conn S) (replicate 0 (HandlerCall w)) s = Some (Inr
    (s\<lparr>il_system := (il_system s)\<lparr>sys_db := d'\<rparr>, il_runs := (il_runs s)(w \<mapsto> Returned err)\<rparr>))" by simp
  then show ?case by blast
next
  case (Panicked p)
  then show ?case by simp
next
  case (Calling f)
  obtain r1 d1 where f: "f (sys_db (il_system s)) = (r1, d1)" by fastforce
  let ?t = "s\<lparr>il_system := (il_system s)\<lparr>sys_db := d1\<rparr>, il_runs := (il_runs s)(w \<mapsto> r1)\<rparr>"
  have step: "il_perform conn S (HandlerCall w) s = Some (Inr ?t)"
    using Calling.prems(1) f by (simp add: handler_call_def)
  have "r1 \<in> Basic_BNFs.fsts (f (sys_db (il_system s)))" using f by (simp add: prod_set_defs)
  note ih = Calling.IH [OF rangeI this]
  have t: "il_runs ?t w = Some r1" "run_alone r1 (sys_db (il_system ?t)) = Inr (err, d')"
    using Calling.prems(2) f by simp_all
  obtain k where "run_steps (il_perform conn S) (replicate k (HandlerCall w)) ?t = Some (Inr
      (?t\<lparr>il_system := (il_system ?t)\<lparr>sys_db := d'\<rparr>, il_runs := (il_runs ?t)(w \<mapsto> Returned err)\<rparr>))"
    by (rule exE [OF ih [OF t]])
  moreover have "?t\<lparr>il_system := (il_system ?t)\<lparr>sys_db := d'\<rparr>, il_runs := (il_runs ?t)(w \<mapsto> Returned err)\<rparr> =
      s\<lparr>il_system := (il_system s)\<lparr>sys_db := d'\<rparr>, il_runs := (il_runs s)(w \<mapsto> Returned err)\<rparr>"
    by (intro interleaved.equality) simp_all
  ultimately have "run_steps (il_perform conn S) (replicate (Suc k) (HandlerCall w)) s = Some (Inr
      (s\<lparr>il_system := (il_system s)\<lparr>sys_db := d'\<rparr>, il_runs := (il_runs s)(w \<mapsto> Returned err)\<rparr>))"
    using step by (simp only: replicate_Suc run_steps.simps option.case sum.case)
  then show ?case by blast
qed

text \<open>From any safe state, the handler that a worker is in returns by the worker's own steps.\<close>

lemma handler_returns_alone:
  assumes safe: "il_safe P s" and r: "il_runs s w = Some r"
  obtains k d' err j b t where
    "run_steps (il_perform conn S) (replicate k (HandlerCall w) @ [HandlerReturn w]) s =
       Some (Inr (returned (s\<lparr>il_system := (il_system s)\<lparr>sys_db := d'\<rparr>\<rparr>) w t b err))"
    "run_alone r (sys_db (il_system s)) = Inr (err, d')"
    "running_job (sys_bridge (il_system s)) w = Some j" "job_bundle j = Some b"
    "perform (EvFinish w err) (sys_bridge (il_system s)) = Some (Inr t)"
proof -
  obtain err d' where alone: "run_alone r (sys_db (il_system s)) = Inr (err, d')"
    using run_safe_alone [OF il_safeD(4) [OF safe r]] by blast
  let ?s = "s\<lparr>il_system := (il_system s)\<lparr>sys_db := d'\<rparr>, il_runs := (il_runs s)(w \<mapsto> Returned err)\<rparr>"
  obtain k where k: "run_steps (il_perform conn S) (replicate k (HandlerCall w)) s = Some (Inr ?s)"
    using calls_in_a_row [OF r alone] by blast
  have "il_safe P ?s"
    using safe il_safeD(5) [OF safe r]
    by (auto simp: il_safe_def sys_bridge_ok_def history_ok_def history_inv_def)
  then show ?thesis
  proof (rule safe_return [where w = w and err = err])
    fix j b t
    assume ret: "running_job (sys_bridge (il_system ?s)) w = Some j" "job_bundle j = Some b"
      "perform (EvFinish w err) (sys_bridge (il_system ?s)) = Some (Inr t)"
      "handler_return w ?s = Some (Inr (returned ?s w t b err))"
    have "returned ?s w t b err = returned (s\<lparr>il_system := (il_system s)\<lparr>sys_db := d'\<rparr>\<rparr>) w t b err"
      by (simp add: returned_def)
    with ret k have "run_steps (il_perform conn S) (replicate k (HandlerCall w) @ [HandlerReturn w]) s =
        Some (Inr (returned (s\<lparr>il_system := (il_system s)\<lparr>sys_db := d'\<rparr>\<rparr>) w t b err))"
      by (simp add: run_steps_append [OF k] del: perform.simps)
    with ret(1-3) alone that show ?thesis by (simp del: perform.simps)
  qed simp
qed

text \<open>So a run of the bridge with atomic handlers is one with handlers that are not atomic.\<close>

definition with_no_runs :: "'d system \<Rightarrow> 'd interleaved" where
  "with_no_runs s = \<lparr>il_system = s, il_runs = (\<lambda>_. None)\<rparr>"

lemma atomic_is_interleaved:
  assumes "sys_reachable conn S P (initial_system n d) s" and P: "\<And>b. P b \<Longrightarrow> no_nil_objects b"
  shows "il_reachable conn S P (initial_interleaved n d) (with_no_runs s)"
  using assms(1)
proof (induction rule: sys_reachable.induct)
  case sys_start
  show ?case by (simp add: initial_interleaved_def with_no_runs_def il_start)
next
  case (sys_step s e t)
  show ?case
  proof (cases e)
    case (BridgeStep ev)
    show ?thesis
      by (rule il_step [OF sys_step.IH, where e = "OtherStep ev"])
         (use BridgeStep sys_step.hyps(2,3) in \<open>cases ev; auto simp: with_no_runs_def bind_go_eq_Inr split: if_splits\<close>)+
  next
    case (HandlerRun w ord)
    with sys_step.hyps(3) have p: "worker_handle conn S w ord s = Some (Inr t)" by simp
    have ok: "sys_bridge_ok P s" by (rule sys_reachable_ok [OF sys_step.hyps(1) P])
    from p obtain j where j: "running_job (sys_bridge s) w = Some j"
      by (auto simp: worker_handle_def running_job_def split: if_splits worker_pc.splits)
    obtain b where b: "job_bundle j = Some b" "job_handlerFunc j = handler_of b" by (rule running_handler [OF ok j])
    have w: "w < length (wp_workers (br_pool (sys_bridge s)))"
      "wk_pc (wp_workers (br_pool (sys_bridge s)) ! w) = WorkerRunning j" by (rule running_jobE [OF j], assumption)+
    from p w b obtain err d' where h: "handler_function conn S ord (handler_of b) b (sys_db s) = Inr (err, d')"
      by (auto simp: worker_handle_def bind_go_eq_Inr)
    let ?run = "handler_run conn S ord (handler_of b) b"
    let ?s1 = "(with_no_runs s)\<lparr>il_runs := (\<lambda>_. None)(w \<mapsto> ?run)\<rparr>"
    have s1: "il_reachable conn S P (initial_interleaved n d) ?s1"
      by (rule il_step [OF sys_step.IH, where e = "HandlerEnter w ord"])
         (use j b in \<open>simp_all add: handler_enter_def with_no_runs_def\<close>)
    then have "il_safe P ?s1" by (rule il_reachable_safe [OF _ P])
    then show ?thesis
    proof (rule handler_returns_alone [where w = w and conn = conn and S = S])
      show "il_runs ?s1 w = Some ?run" by simp
      fix k d'' err' j' b' t'
      assume run: "run_steps (il_perform conn S) (replicate k (HandlerCall w) @ [HandlerReturn w]) ?s1 =
          Some (Inr (returned (?s1\<lparr>il_system := (il_system ?s1)\<lparr>sys_db := d''\<rparr>\<rparr>) w t' b' err'))"
        and alone: "run_alone ?run (sys_db (il_system ?s1)) = Inr (err', d'')"
        and job: "running_job (sys_bridge (il_system ?s1)) w = Some j'" "job_bundle j' = Some b'"
        and fin: "perform (EvFinish w err') (sys_bridge (il_system ?s1)) = Some (Inr t')"
      have eq: "b' = b" "err' = err" "d'' = d'"
        using job j b(1) alone h by (simp_all add: with_no_runs_def run_alone_handler)
      have fin': "perform (EvFinish w err) (sys_bridge s) = Some (Inr t')"
        using fin by (simp add: with_no_runs_def eq del: perform.simps)
      have "t = \<lparr>sys_bridge = t', sys_db = d', sys_done = sys_done s @ [(b, err)]\<rparr>"
        using p w b h fin' by (simp add: worker_handle_def del: perform.simps)
      then have "returned (?s1\<lparr>il_system := (il_system ?s1)\<lparr>sys_db := d''\<rparr>\<rparr>) w t' b' err' = with_no_runs t"
        by (simp add: returned_def with_no_runs_def eq fun_eq_iff)
      moreover have "il_reachable conn S P (initial_interleaved n d)
          (returned (?s1\<lparr>il_system := (il_system ?s1)\<lparr>sys_db := d''\<rparr>\<rparr>) w t' b' err')"
        by (rule il_run_reachable [OF s1 _ run]) (simp add: list_all_iff)
      ultimately show ?thesis by simp
    qed
  qed
qed

text \<open>A worker that runs a job finishes it by its own steps, wherever its handler is; the others stay.\<close>

lemma worker_finishes:
  assumes reach: "il_reachable conn S P (initial_interleaved n d) s" and P: "\<And>b. P b \<Longrightarrow> no_nil_objects b"
    and j: "running_job (sys_bridge (il_system s)) w = Some j"
  obtains es t b err where "set es \<subseteq> {HandlerEnter w ord, HandlerCall w, HandlerReturn w}"
    "run_steps (il_perform conn S) es s = Some (Inr t)" "il_reachable conn S P (initial_interleaved n d) t"
    "job_bundle j = Some b" "sys_done (il_system t) = sys_done (il_system s) @ [(b, err)]"
    "il_runs t = (il_runs s)(w := None)"
    "wk_pc (wp_workers (br_pool (sys_bridge (il_system t))) ! w) = WorkerOffering"
    "\<And>v. v \<noteq> w \<Longrightarrow> running_job (sys_bridge (il_system t)) v = running_job (sys_bridge (il_system s)) v"
proof -
  let ?own = "{HandlerEnter w ord, HandlerCall w, HandlerReturn w}"
  have safe: "il_safe P s" by (rule il_reachable_safe [OF reach P])
  obtain b where b: "job_bundle j = Some b" "job_handlerFunc j = handler_of b"
    by (rule running_handler [OF il_safeD(1) [OF safe] j])
  let ?s = "if il_runs s w = None
    then s\<lparr>il_runs := (il_runs s)(w \<mapsto> handler_run conn S ord (handler_of b) b)\<rparr> else s"
  obtain es where es: "set es \<subseteq> ?own" "run_steps (il_perform conn S) es s = Some (Inr ?s)"
  proof (cases "il_runs s w")
    case None
    with j b have "run_steps (il_perform conn S) [HandlerEnter w ord] s = Some (Inr ?s)"
      by (simp add: handler_enter_def)
    with that [of "[HandlerEnter w ord]"] show ?thesis by simp
  next
    case (Some r)
    with that [of "[]"] show ?thesis by simp
  qed
  have own: "list_all (il_inserts_only P) xs" if "set xs \<subseteq> ?own" for xs
    using that by (auto simp: list_all_iff)
  have safe': "il_safe P ?s"
    by (rule il_reachable_safe [OF il_run_reachable [OF reach own [OF es(1)] es(2)] P])
  obtain r where r: "il_runs ?s w = Some r" by (cases "il_runs s w") auto
  have same: "sys_bridge (il_system ?s) = sys_bridge (il_system s)" "sys_done (il_system ?s) = sys_done (il_system s)"
    "(il_runs ?s)(w := None) = (il_runs s)(w := None)"
    by (simp_all add: fun_eq_iff)
  show ?thesis
  proof (rule handler_returns_alone [where conn = conn and S = S, OF safe' r])
    fix k d' err j' b' t
    let ?es = "es @ replicate k (HandlerCall w) @ [HandlerReturn w]"
    let ?t = "returned (?s\<lparr>il_system := (il_system ?s)\<lparr>sys_db := d'\<rparr>\<rparr>) w t b' err"
    assume run: "run_steps (il_perform conn S) (replicate k (HandlerCall w) @ [HandlerReturn w]) ?s = Some (Inr ?t)"
      and job: "running_job (sys_bridge (il_system ?s)) w = Some j'" "job_bundle j' = Some b'"
      and fin: "perform (EvFinish w err) (sys_bridge (il_system ?s)) = Some (Inr t)"
    have t: "sys_bridge (il_system ?t) = t" "sys_done (il_system ?t) = sys_done (il_system s) @ [(b', err)]"
      "il_runs ?t = (il_runs s)(w := None)"
      using same by (simp_all add: returned_def)
    have all: "set ?es \<subseteq> ?own" "run_steps (il_perform conn S) ?es s = Some (Inr ?t)"
      using es(1) run by (auto simp only: run_steps_append [OF es(2)] set_append set_replicate_conv_if
          list.set split: if_splits)
    have "job_bundle j = Some b'" using job j b(1) unfolding same by simp
    moreover have "wk_pc (wp_workers (br_pool t) ! w) = WorkerOffering"
      by (rule finish_step [OF il_safeD(2) [OF safe'] fin]) (simp add: set_worker_nth)
    moreover have "running_job t v = running_job (sys_bridge (il_system s)) v" if "v \<noteq> w" for v
      using running_job_finish [OF il_safeD(2) [OF safe'] fin that] unfolding same .
    ultimately show ?thesis
      using that [OF all il_run_reachable [OF reach own [OF all(1)] all(2)]] t by simp
  qed
qed

end
