(* ===== verification/Process_System.thy ===== *)
theory Process_System
  imports Transport_Properties Interleaved_System
begin

text \<open>
  The whole process while the runtime manager runs: the goroutine of the transport decodes objects and
  inserts them into the conflation manager, the config controller writes the aggregation level that the
  transport's predicates read, and the dispatcher and the workers take the steps of
  \<open>Interleaved_System\<close>. The process is started by \<open>createManager\<close> and \<open>Start\<close>.
\<close>

section \<open>Steps\<close>

record 'd process =
  prc_config :: string
  prc_transport :: sync_service
  prc_bridge :: "'d interleaved"

datatype 'set process_event =
    ConfigEvent string client_get
  | TransportRound select_choice
  | BridgeEvent "'set interleaved_event"

text \<open>\<open>s.conflationManager.Insert(receivedBundle, objectMetaData)\<close>, the conflation manager being the one
  the bridge shares.\<close>

definition transport_insert ::
  "status_bundle \<Rightarrow> object_meta_data \<Rightarrow> 'd interleaved \<Rightarrow> 'd interleaved go" where
  "transport_insert b metadata s =
     (let br = sys_bridge (il_system s)
      in bind_go (cm_Insert b metadata (br_manager br, br_readyQueue br)) (\<lambda>(cm, rq).
        Inr (s\<lparr>il_system := (il_system s)\<lparr>sys_bridge := br\<lparr>br_manager := cm, br_readyQueue := rq\<rparr>\<rparr>\<rparr>)))"

text \<open>Only the transport inserts.\<close>

fun is_insert :: "'set interleaved_event \<Rightarrow> bool" where
  "is_insert (OtherStep (EvInsert b m)) = True"
| "is_insert _ = False"

text \<open>
  An event of the configuration resource reaches \<open>Reconcile\<close> when the controller's filter lets its
  namespace pass. The unmarshaller of the bundles is an argument.
\<close>

fun process_perform ::
  "data_types \<Rightarrow> (string \<Rightarrow> status_bundle \<Rightarrow> go_error + status_bundle) \<Rightarrow> 'd pg_conn \<Rightarrow> 'set go_sets \<Rightarrow>
   'set process_event \<Rightarrow> 'd process \<Rightarrow> 'd process go option" where
  "process_perform dt unmarshal conn S (ConfigEvent namespace got) p =
     (case AddConfigController dt None of
        Inl err \<Rightarrow> None
      | Inr controller \<Rightarrow>
          if cc_eventFilter controller namespace
          then Some (Inr (p\<lparr>prc_config := fst (Reconcile got (prc_config p))\<rparr>)) else None)"
| "process_perform dt unmarshal conn S (TransportRound choice) p =
     map_option (\<lambda>r. bind_go r (\<lambda>(t, s). Inr (p\<lparr>prc_transport := t, prc_bridge := s\<rparr>)))
       (handle_bundles_step unmarshal transport_insert (prc_config p) choice (prc_transport p, prc_bridge p))"
| "process_perform dt unmarshal conn S (BridgeEvent e) p =
     (if is_insert e then None
      else map_option (\<lambda>r. bind_go r (\<lambda>s. Inr (p\<lparr>prc_bridge := s\<rparr>))) (il_perform conn S e (prc_bridge p)))"

inductive process_reachable ::
  "data_types \<Rightarrow> (string \<Rightarrow> status_bundle \<Rightarrow> go_error + status_bundle) \<Rightarrow> 'd pg_conn \<Rightarrow> 'set go_sets \<Rightarrow>
   ('set process_event \<Rightarrow> bool) \<Rightarrow> 'd process \<Rightarrow> 'd process \<Rightarrow> bool"
  for dt unmarshal conn S ok p0 where
  process_start: "process_reachable dt unmarshal conn S ok p0 p0"
| process_step: "process_reachable dt unmarshal conn S ok p0 p \<Longrightarrow> ok e \<Longrightarrow>
    process_perform dt unmarshal conn S e p = Some (Inr q) \<Longrightarrow> process_reachable dt unmarshal conn S ok p0 q"

text \<open>What \<open>doMain\<close> has built when it calls \<open>mgr.Start\<close>, on a database in state \<open>d\<close>.\<close>

definition started_process :: "string \<times> sync_service \<times> bridge \<Rightarrow> 'd \<Rightarrow> 'd process" where
  "started_process = (\<lambda>(level, t, s) d.
     \<lparr>prc_config = level, prc_transport = ss_Start t,
      prc_bridge = \<lparr>il_system = \<lparr>sys_bridge = s, sys_db = d, sys_done = []\<rparr>, il_runs = (\<lambda>_. None)\<rparr>\<rparr>)"

section \<open>What the environment promises\<close>

text \<open>Object ids have the form \<open>LH_ID.MSG_ID\<close>; decoding fills the bundle it is given and so keeps its
  type; what is decoded satisfies \<open>P\<close>.\<close>

fun dotted_ids :: "'set process_event \<Rightarrow> bool" where
  "dotted_ids (TransportRound (TakeObject (Some m) fetched)) \<longleftrightarrow> CHR ''.'' \<in> set (omd_ObjectID m)"
| "dotted_ids _ \<longleftrightarrow> True"

definition decodes ::
  "(status_bundle \<Rightarrow> bool) \<Rightarrow> (string \<Rightarrow> status_bundle \<Rightarrow> go_error + status_bundle) \<Rightarrow> bool" where
  "decodes P unmarshal \<longleftrightarrow>
     (\<forall>buffer b0 b. unmarshal buffer b0 = Inr b \<longrightarrow> GetBundleType b = GetBundleType b0 \<and> P b)"

section \<open>The process runs the bridge\<close>

lemma transport_insert_eq:
  "il_perform conn S (OtherStep (EvInsert b m)) s = Some (transport_insert b m s)"
  by (cases "cm_Insert b m (br_manager (sys_bridge (il_system s)), br_readyQueue (sys_bridge (il_system s)))")
     (auto simp: transport_insert_def Let_def)

text \<open>What a round of the transport does to the bridge, and to the transport itself.\<close>

lemma transport_roundE:
  assumes "handle_bundles_step unmarshal insertBundle level choice (t, s) = Some (Inr (t', s'))"
  obtains "s' = s" "ss_msgIDToRegistrationMap t' = ss_msgIDToRegistrationMap t"
      "ss_started t' = ss_started t" "ss_metaChanClosed t' = ss_metaChanClosed t"
  | m fetched b where "choice = TakeObject (Some m) fetched" "insertBundle b m s = Inr s'"
      "receive_object unmarshal (ss_msgIDToRegistrationMap t) level (Some m) fetched = Inr (BundleReceived b)"
      "ss_msgIDToRegistrationMap t' = ss_msgIDToRegistrationMap t" "ss_started t' = ss_started t"
      "ss_metaChanClosed t' = ss_metaChanClosed t"
proof (cases choice)
  case TakeStop
  with assms that(1) show ?thesis by (auto simp: handle_bundles_step_def split: if_splits)
next
  case (TakeObject metadata fetched)
  with assms obtain outcome where o: "receive_object unmarshal (ss_msgIDToRegistrationMap t) level metadata fetched =
      Inr outcome"
    by (auto simp: handle_bundles_step_def bind_go_eq_Inr split: if_splits)
  then obtain m where m: "metadata = Some m" by (cases metadata) (auto simp: receive_object_def)
  show ?thesis
  proof (cases outcome)
    case (BundleReceived b)
    with assms TakeObject m o have "insertBundle b m s = Inr s'" "t' = t\<lparr>ss_acknowledged := ss_acknowledged t @ [m]\<rparr>"
      by (auto simp: handle_bundles_step_def bind_go_eq_Inr split: if_splits)
    with that(2) TakeObject m o BundleReceived show ?thesis by simp
  qed (use assms TakeObject o that(1) in \<open>auto simp: handle_bundles_step_def split: if_splits\<close>)
qed

text \<open>The registrations the transport was started with; nobody stops it while the manager runs.\<close>

definition transport_inv :: "sync_service \<Rightarrow> 'd process \<Rightarrow> bool" where
  "transport_inv t0 p \<longleftrightarrow> ss_msgIDToRegistrationMap (prc_transport p) = ss_msgIDToRegistrationMap t0 \<and>
     \<not> ss_metaChanClosed (prc_transport p)"

lemma transport_inv_step:
  assumes "transport_inv t0 p" "process_perform dt unmarshal conn S e p = Some (Inr q)"
  shows "transport_inv t0 q"
proof (cases e)
  case (TransportRound choice)
  with assms(2) obtain t s where
    r: "handle_bundles_step unmarshal transport_insert (prc_config p) choice (prc_transport p, prc_bridge p) = Some (Inr (t, s))"
      "q = p\<lparr>prc_transport := t, prc_bridge := s\<rparr>"
    by (auto simp: bind_go_eq_Inr)
  from r(1) show ?thesis
    by (rule transport_roundE) (use assms(1) r(2) in \<open>simp_all add: transport_inv_def\<close>)
qed (use assms in \<open>auto simp: transport_inv_def AddConfigController_def bind_go_eq_Inr simp del: il_perform.simps split: if_splits\<close>)

text \<open>
  A step of the process is a step of the bridge whose insertions satisfy \<open>P\<close>, or leaves the bridge as it
  is. \<open>delivers\<close> says that what a round of the transport decodes satisfies \<open>P\<close>.
\<close>

lemma process_step_bridge:
  assumes step: "process_perform dt unmarshal conn S e p = Some (Inr q)"
    and delivers: "\<And>m fetched b. e = TransportRound (TakeObject (Some m) fetched) \<Longrightarrow>
      receive_object unmarshal (ss_msgIDToRegistrationMap (prc_transport p)) (prc_config p) (Some m) fetched =
        Inr (BundleReceived b) \<Longrightarrow> P b"
    and reach: "il_reachable conn S P s0 (prc_bridge p)"
  shows "il_reachable conn S P s0 (prc_bridge q)"
proof (cases e)
  case (ConfigEvent namespace got)
  with step reach show ?thesis by (auto simp: AddConfigController_def split: if_splits)
next
  case (TransportRound choice)
  with step obtain t s where
    r: "handle_bundles_step unmarshal transport_insert (prc_config p) choice (prc_transport p, prc_bridge p) = Some (Inr (t, s))"
      "q = p\<lparr>prc_transport := t, prc_bridge := s\<rparr>"
    by (auto simp: bind_go_eq_Inr)
  from r(1) show ?thesis
  proof (rule transport_roundE)
    assume "s = prc_bridge p"
    with reach r(2) show ?thesis by simp
  next
    fix m fetched b
    assume m: "choice = TakeObject (Some m) fetched" "transport_insert b m (prc_bridge p) = Inr s"
      "receive_object unmarshal (ss_msgIDToRegistrationMap (prc_transport p)) (prc_config p) (Some m) fetched =
        Inr (BundleReceived b)"
    have "P b" by (rule delivers [OF _ m(3)]) (simp add: TransportRound m(1))
    then have "il_reachable conn S P s0 s"
      by (intro il_step [OF reach, where e = "OtherStep (EvInsert b m)"])
         (simp_all add: transport_insert_eq m(2) del: il_perform.simps)
    with r(2) show ?thesis by simp
  qed
next
  case (BridgeEvent ev)
  with step obtain s where s: "il_perform conn S ev (prc_bridge p) = Some (Inr s)" "q = p\<lparr>prc_bridge := s\<rparr>"
    and ev: "\<not> is_insert ev"
    by (auto simp: bind_go_eq_Inr simp del: il_perform.simps split: if_splits)
  have "il_inserts_only P ev" by (rule is_insert.cases [of ev]) (use ev in auto)
  from il_step [OF reach this s(1)] s(2) show ?thesis by simp
qed

text \<open>The bridge of a started process is the initial one.\<close>

lemma started_process_bridge:
  assumes "startDBWorkerPool env connect = Inr pool" "createManager dt mg env pool = Created c"
  obtains n where "prc_bridge (started_process c d) = initial_interleaved n d"
    "prc_config (started_process c d) = dt_Full dt"
proof -
  obtain level t s where c: "c = (level, t, s)" by (cases c)
  from created_bridge [OF assms(1) assms(2) [unfolded c]] obtain n where "s = initial_bridge setup_registrations n" by blast
  moreover have "level = dt_Full dt" by (rule createManager_Created [OF assms(2) [unfolded c]])
  ultimately show ?thesis
    using that by (simp add: c started_process_def initial_interleaved_def initial_system_def)
qed

lemma started_process_transport:
  assumes "createManager dt mg env pool = Created c"
  shows "transport_inv (fst (snd c)) (started_process c d)"
proof -
  obtain level t s where c: "c = (level, t, s)" by (cases c)
  obtain t0 where t0: "NewSyncService env = Inr t0" "t = setup_transport dt t0"
    by (rule createManager_Created [OF assms [unfolded c]])
  then have "\<not> ss_metaChanClosed t"
    by (auto simp: NewSyncService_def setup_transport_def syncers_def Let_def ss_Register_def split: sum.splits)
  then show ?thesis by (simp add: c started_process_def transport_inv_def ss_Start_def)
qed

text \<open>Every run of the process is a run of the bridge.\<close>

lemma process_runs_bridge:
  assumes created: "startDBWorkerPool env connect = Inr pool" "createManager dt mg env pool = Created c"
    and reach: "process_reachable dt unmarshal conn S ok (started_process c d) p"
    and P: "decodes P unmarshal"
  shows "\<exists>n. il_reachable conn S P (initial_interleaved n d) (prc_bridge p)"
proof -
  obtain n where n: "prc_bridge (started_process c d) = initial_interleaved n d"
    by (rule started_process_bridge [OF created])
  from reach have "il_reachable conn S P (initial_interleaved n d) (prc_bridge p)"
  proof (induction rule: process_reachable.induct)
    case process_start
    show ?case by (simp add: n il_start)
  next
    case (process_step p e q)
    show ?case
    proof (rule process_step_bridge [OF process_step.hyps(3) _ process_step.IH])
      fix m fetched b
      assume "receive_object unmarshal (ss_msgIDToRegistrationMap (prc_transport p)) (prc_config p) (Some m) fetched =
          Inr (BundleReceived b)"
      then show "P b" by (rule received_bundleE) (use P in \<open>auto simp: decodes_def\<close>)
    qed
  qed
  then show ?thesis by blast
qed

section \<open>The state of the transport\<close>

lemma process_reachable_transport:
  assumes "process_reachable dt unmarshal conn S ok p0 p" "transport_inv t0 p0"
  shows "transport_inv t0 p"
  using assms by (induction rule: process_reachable.induct) (auto intro: transport_inv_step)

text \<open>Where a round of the transport can panic while the channels are open.\<close>

lemma transport_round_panicE:
  assumes "handle_bundles_step unmarshal insertBundle level choice (t, s) = Some (Inl x)" "\<not> ss_metaChanClosed t"
  obtains m fetched where "choice = TakeObject (Some m) fetched" "CHR ''.'' \<notin> set (omd_ObjectID m)"
  | m fetched b where "choice = TakeObject (Some m) fetched" "insertBundle b m s = Inl x"
      "receive_object unmarshal (ss_msgIDToRegistrationMap t) level (Some m) fetched = Inr (BundleReceived b)"
proof -
  obtain m fetched where choice: "choice = TakeObject (Some m) fetched"
    using assms by (cases choice) (auto simp: handle_bundles_step_def split: if_splits)
  show ?thesis
  proof (cases "CHR ''.'' \<in> set (omd_ObjectID m)")
    case True
    obtain outcome where o: "receive_object unmarshal (ss_msgIDToRegistrationMap t) level (Some m) fetched = Inr outcome"
      using receive_object_returns [OF True] by blast
    with assms choice that(2) [OF choice] show ?thesis
      by (cases outcome; cases "\<exists>b. outcome = BundleReceived b \<and> insertBundle b m s = Inl x")
         (auto simp: handle_bundles_step_def bind_go_def split: if_splits sum.splits)
  qed (use that(1) choice in blast)
qed

section \<open>Runs at the full level\<close>

lemma il_reachable_mono:
  assumes "il_reachable conn S P s0 s" "\<And>b. P b \<Longrightarrow> Q b"
  shows "il_reachable conn S Q s0 s"
  using assms(1)
proof (induction rule: il_reachable.induct)
  case (il_step s e t)
  have "il_inserts_only Q e" by (rule il_inserts_only.cases [of "(P, e)"]) (use il_step.hyps(2) assms(2) in auto)
  then show ?case by (rule il_reachable.il_step [OF il_step.IH _ il_step.hyps(3)])
qed (rule il_start)

lemma full_level_runs_bridge:
  assumes created: "startDBWorkerPool env connect = Inr pool" "createManager dt mg env pool = Created c"
    and dt: "distinct (msg_keys dt)" "dt_Full dt \<noteq> dt_Minimal dt"
    and P: "decodes Q unmarshal"
    and reach: "process_reachable dt unmarshal conn S
      (\<lambda>e. e \<noteq> ConfigEvent (dt_HohSystemNamespace dt) (GetFound (dt_Minimal dt))) (started_process c d) p"
  shows "\<exists>n. il_reachable conn S (\<lambda>b. Q b \<and> GetBundleType b \<noteq> ''MinimalComplianceStatusBundle'')
    (initial_interleaved n d) (prc_bridge p)"
proof -
  let ?P = "\<lambda>b. Q b \<and> GetBundleType b \<noteq> ''MinimalComplianceStatusBundle''"
  obtain n where n: "prc_bridge (started_process c d) = initial_interleaved n d"
      "prc_config (started_process c d) = dt_Full dt"
    by (rule started_process_bridge [OF created])
  obtain level t s where c: "c = (level, t, s)" by (cases c)
  obtain t0 where t0: "NewSyncService env = Inr t0" "t = setup_transport dt t0"
    by (rule createManager_Created [OF created(2) [unfolded c]])
  have empty: "ss_msgIDToRegistrationMap t0 = Map.empty"
    using t0(1) by (auto simp: NewSyncService_def split: sum.splits)
  have types: "\<forall>buf b0 b. unmarshal buf b0 = Inr b \<longrightarrow> GetBundleType b = GetBundleType b0"
    using P by (simp add: decodes_def)
  note inv0 = started_process_transport [OF created(2), of d, unfolded c]
  from reach have "il_reachable conn S ?P (initial_interleaved n d) (prc_bridge p) \<and>
      prc_config p \<noteq> dt_Minimal dt \<and> transport_inv t p"
  proof (induction rule: process_reachable.induct)
    case process_start
    show ?case using n dt(2) inv0 by (simp add: il_start c)
  next
    case (process_step p e q)
    have "il_reachable conn S ?P (initial_interleaved n d) (prc_bridge q)"
    proof (rule process_step_bridge [OF process_step.hyps(3) _ process_step.IH [THEN conjunct1]])
      fix m fetched b
      assume rcv: "receive_object unmarshal (ss_msgIDToRegistrationMap (prc_transport p)) (prc_config p) (Some m) fetched =
          Inr (BundleReceived b)"
      have regs: "ss_msgIDToRegistrationMap (prc_transport p) = ss_msgIDToRegistrationMap (setup_transport dt t0)"
        using process_step.IH t0(2) by (simp add: transport_inv_def)
      have "Q b" by (rule received_bundleE [OF rcv]) (use P in \<open>auto simp: decodes_def\<close>)
      moreover have "GetBundleType b \<noteq> ''MinimalComplianceStatusBundle''"
        using received_level [OF dt(1) empty types rcv [unfolded regs]] process_step.IH by auto
      ultimately show "?P b" ..
    qed
    moreover have "prc_config q \<noteq> dt_Minimal dt"
    proof (cases e)
      case (ConfigEvent namespace got)
      with process_step show ?thesis
        by (cases got) (auto simp: AddConfigController_def hohNamespacePredicate_def Reconcile_def split: if_splits)
    qed (use process_step in \<open>auto simp: bind_go_eq_Inr simp del: il_perform.simps split: if_splits\<close>)
    moreover have "transport_inv t q" by (rule transport_inv_step [OF _ process_step.hyps(3)]) (use process_step.IH in blast)
    ultimately show ?case by blast
  qed
  then show ?thesis by blast
qed

end
