(* ===== verification/Interleaved_History.thy ===== *)
theory Interleaved_History
  imports Interleaved_System
begin

text \<open>
  What the interleaved handlers do to the database: the view of a leaf hub that no handler is working on
  is the one its history specifies, and a handler that is at work leads there.
\<close>

section \<open>The invariant of the data\<close>

text \<open>No worker is inside a handler for a bundle of the leaf hub.\<close>

definition hub_idle :: "'d interleaved \<Rightarrow> string \<Rightarrow> bool" where
  "hub_idle s lh \<longleftrightarrow>
     (\<forall>w j b. il_runs s w \<noteq> None \<longrightarrow> running_job (sys_bridge (il_system s)) w = Some j \<longrightarrow>
        job_bundle j = Some b \<longrightarrow> GetLeafHubName b \<noteq> lh)"

text \<open>
  The aggregated rows that the history of a leaf hub allows. A relation and not a function, because the
  history does not say how far a failed job has come.
\<close>

inductive agg_history ::
  "string \<Rightarrow> (string \<Rightarrow> aggregated_row list) \<Rightarrow> (status_bundle \<times> go_error option) list \<Rightarrow>
   (string \<Rightarrow> aggregated_row list) \<Rightarrow> bool"
  for lh a0 where
  agg_history_Nil: "agg_history lh a0 [] a0"
| agg_history_own: "agg_history lh a0 done a \<Longrightarrow> GetLeafHubName b = lh \<Longrightarrow> agg_outcome b err a a' \<Longrightarrow>
    agg_history lh a0 (done @ [(b, err)]) a'"
| agg_history_other: "agg_history lh a0 done a \<Longrightarrow> GetLeafHubName b \<noteq> lh \<Longrightarrow>
    agg_history lh a0 (done @ [(b, err)]) a"

inductive_simps agg_history_simps:
  "agg_history lh a0 [] a"
  "agg_history lh a0 (done @ [x]) a"

lemma agg_history_other_iff:
  "GetLeafHubName b \<noteq> lh \<Longrightarrow> agg_history lh a0 (done @ [(b, err)]) a \<longleftrightarrow> agg_history lh a0 done a"
  by (auto simp: agg_history_simps)

text \<open>
  What is left of a handler still leads to the specified view: the one after its bundle, from the one
  the history gives.
\<close>

definition run_inv :: "'d tables \<Rightarrow> 'd \<Rightarrow> 'd system \<Rightarrow> nat \<Rightarrow> 'd db_run \<Rightarrow> bool" where
  "run_inv tb d0 s w r \<longleftrightarrow>
     (\<exists>j b a. running_job (sys_bridge s) w = Some j \<and> job_bundle j = Some b \<and>
        agg_history (GetLeafHubName b) (agg_view tb d0 (GetLeafHubName b)) (sys_done s) a \<and>
        run_ok tb (GetLeafHubName b)
          (handled tb b (spec_history (GetLeafHubName b) (sys_done s) (view tb d0 (GetLeafHubName b))) a) r (sys_db s))"

definition data_inv :: "'d tables \<Rightarrow> 'd \<Rightarrow> 'd interleaved \<Rightarrow> bool" where
  "data_inv tb d0 s \<longleftrightarrow>
     tables_ok tb (sys_db (il_system s)) \<and>
     (\<forall>w r. il_runs s w = Some r \<longrightarrow> run_inv tb d0 (il_system s) w r) \<and>
     (\<forall>lh. hub_idle s lh \<longrightarrow>
        view tb (sys_db (il_system s)) lh = spec_history lh (sys_done (il_system s)) (view tb d0 lh) \<and>
        agg_history lh (agg_view tb d0 lh) (sys_done (il_system s)) (agg_view tb (sys_db (il_system s)) lh))"

lemma data_invD:
  assumes "data_inv tb d0 s"
  shows "tables_ok tb (sys_db (il_system s))"
    "il_runs s w = Some r \<Longrightarrow> run_inv tb d0 (il_system s) w r"
    "hub_idle s lh \<Longrightarrow>
       view tb (sys_db (il_system s)) lh = spec_history lh (sys_done (il_system s)) (view tb d0 lh)"
    "hub_idle s lh \<Longrightarrow>
       agg_history lh (agg_view tb d0 lh) (sys_done (il_system s)) (agg_view tb (sys_db (il_system s)) lh)"
  using assms by (simp_all add: data_inv_def)

lemma hub_busy:
  assumes "il_runs s w \<noteq> None" "running_job (sys_bridge (il_system s)) w = Some j" "job_bundle j = Some b"
    and "hub_idle s lh"
  shows "GetLeafHubName b \<noteq> lh"
  using assms unfolding hub_idle_def by blast

lemma hub_idle_mono:
  assumes "hub_idle t lh" "sys_bridge (il_system t) = sys_bridge (il_system s)"
    and "\<And>w. il_runs s w \<noteq> None \<Longrightarrow> il_runs t w \<noteq> None"
  shows "hub_idle s lh"
  using assms unfolding hub_idle_def by metis

text \<open>The run of another leaf hub does not notice a change that leaves its leaf hub alone.\<close>

lemma run_inv_stable:
  assumes "run_inv tb d0 s v r" "running_job (sys_bridge s) v = Some k" "job_bundle k = Some c"
    and "running_job (sys_bridge t) v = Some k" "hub_rows tb (GetLeafHubName c) (sys_db t) = hub_rows tb (GetLeafHubName c) (sys_db s)"
    and "spec_history (GetLeafHubName c) (sys_done t) (view tb d0 (GetLeafHubName c)) =
      spec_history (GetLeafHubName c) (sys_done s) (view tb d0 (GetLeafHubName c))"
    and "\<And>a. agg_history (GetLeafHubName c) (agg_view tb d0 (GetLeafHubName c)) (sys_done s) a \<Longrightarrow>
      agg_history (GetLeafHubName c) (agg_view tb d0 (GetLeafHubName c)) (sys_done t) a"
  shows "run_inv tb d0 t v r"
  using assms(1-4,7) run_ok_stable [OF _ assms(5)] unfolding run_inv_def by (auto simp: assms(6))

section \<open>The steps\<close>

lemma data_other:
  assumes inv: "data_inv tb d0 s" and safe: "il_safe P s"
    and kept: "\<And>w j. running_job (sys_bridge (il_system s)) w = Some j \<Longrightarrow> running_job t w = Some j"
  shows "data_inv tb d0 (s\<lparr>il_system := (il_system s)\<lparr>sys_bridge := t\<rparr>\<rparr>)"
proof -
  let ?t = "s\<lparr>il_system := (il_system s)\<lparr>sys_bridge := t\<rparr>\<rparr>"
  have "run_inv tb d0 (il_system ?t) w r" if "il_runs ?t w = Some r" for w r
    using data_invD(2) [OF inv, of w r] that kept unfolding run_inv_def by fastforce
  moreover have "hub_idle s lh" if "hub_idle ?t lh" for lh
    using that kept unfolding hub_idle_def by auto
  ultimately show ?thesis using data_invD(1,3,4) [OF inv] by (simp add: data_inv_def)
qed

lemma data_enter:
  assumes S: "sets_laws S members" and laws: "database_laws conn tb"
    and inv: "data_inv tb d0 s" and safe: "il_safe P s"
    and w: "il_runs s w = None" "running_job (sys_bridge (il_system s)) w = Some j"
    and b: "job_bundle j = Some b" "well_formed_bundle b"
  shows "data_inv tb d0 (s\<lparr>il_runs := (il_runs s)(w \<mapsto> handler_run conn S ord (handler_of b) b)\<rparr>)"
proof -
  let ?lh = "GetLeafHubName b" and ?d = "sys_db (il_system s)"
  let ?t = "s\<lparr>il_runs := (il_runs s)(w \<mapsto> handler_run conn S ord (handler_of b) b)\<rparr>"
  have "hub_idle s ?lh"
    unfolding hub_idle_def
  proof (intro allI impI)
    fix v k c assume v: "il_runs s v \<noteq> None" "running_job (sys_bridge (il_system s)) v = Some k" "job_bundle k = Some c"
    show "GetLeafHubName c \<noteq> ?lh"
    proof
      assume "GetLeafHubName c = ?lh"
      with running_jobs_differ [OF il_safeD(2) [OF safe] w(2) b(1) v(2,3)] v(1) w(1) show False by simp
    qed
  qed
  note v = data_invD(3,4) [OF inv this]
  have runs: "run_inv tb d0 (il_system ?t) v r'" if "il_runs ?t v = Some r'" for v r'
  proof (cases "v = w")
    case True
    with that handler_run_ok [OF S laws b(2), of ?d ord] w(2) b(1) v show ?thesis
      by (auto simp: run_inv_def)
  qed (use that data_invD(2) [OF inv] in simp)
  have "hub_idle s lh" if "hub_idle ?t lh" for lh
    by (rule hub_idle_mono [OF that]) simp_all
  with runs data_invD(1,3,4) [OF inv] show ?thesis by (simp add: data_inv_def)
qed

lemma data_call:
  assumes inv: "data_inv tb d0 s" and safe: "il_safe P s" and r0: "il_runs s w = Some (Calling f)"
  shows "data_inv tb d0 (s\<lparr>il_system := (il_system s)\<lparr>sys_db := snd (f (sys_db (il_system s)))\<rparr>,
    il_runs := (il_runs s)(w \<mapsto> fst (f (sys_db (il_system s))))\<rparr>)"
proof -
  note I = data_invD [OF inv]
  let ?d = "sys_db (il_system s)"
  from I(2) [OF r0] obtain j b a where j: "running_job (sys_bridge (il_system s)) w = Some j"
      "job_bundle j = Some b"
    and a: "agg_history (GetLeafHubName b) (agg_view tb d0 (GetLeafHubName b)) (sys_done (il_system s)) a"
    and ok: "run_ok tb (GetLeafHubName b) (handled tb b (spec_history (GetLeafHubName b)
        (sys_done (il_system s)) (view tb d0 (GetLeafHubName b))) a) (Calling f) ?d"
    unfolding run_inv_def by blast
  obtain r1 d' where step: "f ?d = (r1, d')" by fastforce
  let ?t = "s\<lparr>il_system := (il_system s)\<lparr>sys_db := d'\<rparr>, il_runs := (il_runs s)(w \<mapsto> r1)\<rparr>"
  have after: "tables_ok tb d'" "\<And>lh. lh \<noteq> GetLeafHubName b \<Longrightarrow> hub_rows tb lh d' = hub_rows tb lh ?d"
    "run_ok tb (GetLeafHubName b) (handled tb b (spec_history (GetLeafHubName b)
        (sys_done (il_system s)) (view tb d0 (GetLeafHubName b))) a) r1 d'"
    using ok [unfolded run_ok_simps, rule_format, OF I(1) refl] step by simp_all
  have runs: "run_inv tb d0 (il_system ?t) v r'" if v: "il_runs ?t v = Some r'" for v r'
  proof (cases "v = w")
    case True
    with v after(3) j a show ?thesis by (auto simp: run_inv_def)
  next
    case False
    with v have old: "run_inv tb d0 (il_system s) v r'" using I(2) by simp
    then obtain k c where k: "running_job (sys_bridge (il_system s)) v = Some k" "job_bundle k = Some c"
      unfolding run_inv_def by blast
    have "GetLeafHubName c \<noteq> GetLeafHubName b"
      using running_jobs_differ [OF il_safeD(2) [OF safe] j k] False by auto
    then show ?thesis by (intro run_inv_stable [OF old k]) (simp_all add: k after(2))
  qed
  have "view tb d' lh = spec_history lh (sys_done (il_system s)) (view tb d0 lh) \<and>
      agg_history lh (agg_view tb d0 lh) (sys_done (il_system s)) (agg_view tb d' lh)" if idle: "hub_idle ?t lh" for lh
  proof -
    have "GetLeafHubName b \<noteq> lh"
      by (rule hub_busy [where s = ?t and w = w, OF _ _ j(2) idle]) (simp_all add: j(1))
    moreover have "hub_idle s lh" by (rule hub_idle_mono [OF idle]) simp_all
    ultimately show ?thesis using hub_rowsD(4) [OF after(2)] hub_rows_agg_view [OF after(2)] I(3,4) by simp
  qed
  with runs after(1) step show ?thesis by (simp add: data_inv_def)
qed

lemma data_return:
  assumes inv: "data_inv tb d0 s" and safe: "il_safe P s" and r0: "il_runs s w = Some (Returned err)"
    and j: "running_job (sys_bridge (il_system s)) w = Some j" and b: "job_bundle j = Some b"
    and fin: "perform (EvFinish w err) (sys_bridge (il_system s)) = Some (Inr t)"
  shows "data_inv tb d0 (returned s w t b err)"
proof -
  note I = data_invD [OF inv] and br = il_safeD(2) [OF safe]
  let ?d = "sys_db (il_system s)" and ?done = "sys_done (il_system s)" and ?t = "returned s w t b err"
  have sys: "il_system ?t = \<lparr>sys_bridge = t, sys_db = ?d, sys_done = ?done @ [(b, err)]\<rparr>"
    "il_runs ?t = (il_runs s)(w := None)" by (simp_all add: returned_def)
  from I(2) [OF r0] j b obtain a where a: "agg_history (GetLeafHubName b) (agg_view tb d0 (GetLeafHubName b)) ?done a"
      and ok: "handled tb b (spec_history (GetLeafHubName b) ?done (view tb d0 (GetLeafHubName b))) a err ?d"
    by (auto simp: run_inv_def run_ok_simps)
  have other: "running_job t v = running_job (sys_bridge (il_system s)) v" if "v \<noteq> w" for v
    by (rule running_job_finish [OF br fin that])
  have runs: "run_inv tb d0 (il_system ?t) v q" if v: "il_runs ?t v = Some q" for v q
  proof -
    have "v \<noteq> w" using v by (auto simp: sys)
    with v have old: "run_inv tb d0 (il_system s) v q" using I(2) by (simp add: sys)
    then obtain k c where k: "running_job (sys_bridge (il_system s)) v = Some k" "job_bundle k = Some c"
      unfolding run_inv_def by blast
    have "GetLeafHubName b \<noteq> GetLeafHubName c"
      using running_jobs_differ [OF br j b k] \<open>v \<noteq> w\<close> by auto
    then show ?thesis
      by (intro run_inv_stable [OF old k]) (simp_all add: k other [OF \<open>v \<noteq> w\<close>] spec_history_snoc agg_history_other_iff sys)
  qed
  have "view tb ?d lh = spec_history lh (?done @ [(b, err)]) (view tb d0 lh) \<and>
      agg_history lh (agg_view tb d0 lh) (?done @ [(b, err)]) (agg_view tb ?d lh)" if idle: "hub_idle ?t lh" for lh
  proof (cases "GetLeafHubName b = lh")
    case True
    with ok a show ?thesis by (auto simp: handled_def spec_history_snoc intro: agg_history_own)
  next
    case False
    have "hub_idle s lh"
      unfolding hub_idle_def
    proof (intro allI impI)
      fix v k c assume v: "il_runs s v \<noteq> None" "running_job (sys_bridge (il_system s)) v = Some k" "job_bundle k = Some c"
      show "GetLeafHubName c \<noteq> lh"
      proof (cases "v = w")
        case True
        with v j b False show ?thesis by simp
      next
        case False
        show ?thesis
          by (rule hub_busy [where s = ?t and w = v, OF _ _ v(3) idle]) (use v False other in \<open>simp_all add: sys\<close>)
      qed
    qed
    with I(3,4) False show ?thesis by (simp add: spec_history_snoc agg_history_other_iff)
  qed
  with runs I(1) show ?thesis by (simp add: data_inv_def sys)
qed

lemma data_step:
  assumes S: "sets_laws S members" and laws: "database_laws conn tb"
    and inv: "data_inv tb d0 s" and safe: "il_safe well_formed_bundle s"
    and ins: "il_inserts_only well_formed_bundle e" and p: "il_perform conn S e s = Some (Inr t)"
  shows "data_inv tb d0 t"
proof (cases e)
  case (OtherStep ev)
  with p obtain r' where r': "bridge_step ev" "perform ev (sys_bridge (il_system s)) = Some r'"
      "bind_go r' (\<lambda>t. Inr (s\<lparr>il_system := (il_system s)\<lparr>sys_bridge := t\<rparr>\<rparr>)) = Inr t"
    by (auto split: if_splits)
  show ?thesis
    by (rule safe_other [OF safe r'(1,2)]) (use r'(3) ins OtherStep data_other [OF inv safe] in auto)
next
  case (HandlerEnter w ord)
  with p have "handler_enter conn S w ord s = Some (Inr t)" by simp
  then show ?thesis
    by (rule safe_enter [OF safe, rotated])
       (use data_enter [OF S laws inv safe] well_formed_no_nil in auto)
next
  case (HandlerCall w)
  with p have "handler_call w s = Some (Inr t)" by simp
  then show ?thesis by (rule safe_call [OF safe]) (use data_call [OF inv safe] in auto)
next
  case (HandlerReturn w)
  with p have ret: "handler_return w s = Some (Inr t)" by simp
  then obtain err where r0: "il_runs s w = Some (Returned err)" by (rule handler_returnE)
  then show ?thesis by (rule safe_return [OF safe]) (use ret data_return [OF inv safe r0] in auto)
qed

lemma il_reachable_inv:
  assumes S: "sets_laws S members" and laws: "database_laws conn tb" and d0: "tables_ok tb d0"
    and reach: "il_reachable conn S well_formed_bundle (initial_interleaved n d0) s"
  shows "data_inv tb d0 s"
  using reach
proof (induction rule: il_reachable.induct)
  case il_start
  show ?case using d0 by (simp add: data_inv_def initial_interleaved_def initial_system_def agg_history_Nil)
next
  case (il_step s e t)
  show ?case
    by (rule data_step [OF S laws il_step.IH il_reachable_safe [OF il_step.hyps(1) well_formed_no_nil] il_step.hyps(2,3)])
qed

end
