(* ===== verification/Run_Invariants.thy ===== *)
theory Run_Invariants
  imports Interleaved_System
begin

text \<open>
  Invariants of the interleaved bridge that hold call by call: what every call of a handler does to the
  database, whatever it is, and what its result can be. Nothing is relied on but the statements that the
  handlers send.
\<close>

section \<open>Every call of a run\<close>

text \<open>
  \<open>run_all C R r\<close>: in whatever database a call of the run is made, it relates it to the next one by \<open>C\<close>;
  and whatever the run returns satisfies \<open>R\<close>.
\<close>

inductive run_all :: "('d \<Rightarrow> 'd \<Rightarrow> bool) \<Rightarrow> (go_error option \<Rightarrow> bool) \<Rightarrow> 'd db_run \<Rightarrow> bool"
  for C R where
  run_all_return: "R err \<Longrightarrow> run_all C R (Returned err)"
| run_all_panic: "run_all C R (Panicked p)"
| run_all_call: "(\<And>d. C d (snd (f d)) \<and> run_all C R (fst (f d))) \<Longrightarrow> run_all C R (Calling f)"

inductive_simps run_all_simps [simp]:
  "run_all C R (Returned err)"
  "run_all C R (Panicked p)"
  "run_all C R (Calling f)"

lemma run_all_query:
  "(\<And>d. C d d) \<Longrightarrow> (\<And>d. run_all C R (rest (query d))) \<Longrightarrow> run_all C R (query_call query rest)"
  by (simp add: query_call_def)

lemma run_all_statement:
  "(\<And>d. C d (snd (exec d))) \<Longrightarrow> (\<And>d. run_all C R (rest (fst (exec d)))) \<Longrightarrow> run_all C R (statement_call exec rest)"
  by (simp add: statement_call_def case_prod_beta)

lemma run_all_send:
  "(\<And>d. C d (snd (send q d))) \<Longrightarrow> (\<And>err. R err) \<Longrightarrow> run_all C R (send_run send q)"
  by (simp add: send_run_def run_all_statement)

section \<open>The handlers\<close>

text \<open>The three handlers with a batch keep the table of aggregated compliance.\<close>

lemma batch_keeps_aggregated:
  assumes "tables_separate conn tb"
  shows "tb_aggregated tb (snd (SendBatch conn (PgxBatch (map (render (mc_layout StatusSchema ManagedClustersTable lh)) cs)) d)) =
      tb_aggregated tb d"
    and "tb_aggregated tb (snd (SendBatch conn (PgxBatch (map (render (pb_layout StatusSchema ComplianceTable lh)) ps)) d)) =
      tb_aggregated tb d"
  using batch_separate [OF assms] by (metis prod.collapse)+

lemma batch_run_all:
  assumes refl: "\<And>d. C d d" and ret: "\<And>err. R err"
    and send: "\<And>m. \<exists>q. batch m = Inr q \<and> (\<forall>d. C d (snd (send q d)))"
  shows "run_all C R (query_call query (\<lambda>result. case result of
      Inl err \<Rightarrow> Returned (fail err)
    | Inr m \<Rightarrow> go_run (bind_go (batch m) (\<lambda>q. Inr (send_run send q)))))"
proof (rule run_all_query [where C = C, OF refl])
  fix d
  show "run_all C R (case query d of
      Inl err \<Rightarrow> Returned (fail err)
    | Inr m \<Rightarrow> go_run (bind_go (batch m) (\<lambda>q. Inr (send_run send q))))"
  proof (cases "query d")
    case (Inr m)
    from send [of m] obtain q where "batch m = Inr q" "\<And>d. C d (snd (send q d))" by blast
    with Inr show ?thesis by (simp add: run_all_send [where C = C and R = R] ret)
  qed (simp add: ret)
qed

lemma batch_handlers_keep_aggregated:
  assumes sep: "tables_separate conn tb" and b: "no_nil_objects b" and ret: "\<And>err. R err"
    and type: "\<forall>m. b \<noteq> MinimalComplianceStatusBundle m"
    and keep: "\<And>d d'. tb_aggregated tb d' = tb_aggregated tb d \<Longrightarrow> C d d'"
  shows "run_all C R (handler_run conn S ord (handler_of b) b)"
proof (cases b)
  case (ManagedClustersStatusBundle m)
  show ?thesis
    unfolding ManagedClustersStatusBundle handler_of.simps handler_run.simps managed_clusters_run_def client_calls
  proof (rule batch_run_all [where R = R, OF keep [OF refl] ret])
    fix m'
    show "\<exists>q. managed_clusters_batch (clusters_db conn) (ord_clusters ord) (ManagedClustersStatusBundle m) m' = Inr q \<and>
        (\<forall>d. C d (snd (SendBatch conn q d)))"
      by (rule managed_clusters_batch_rendered [OF b [unfolded ManagedClustersStatusBundle]])
         (auto intro!: keep batch_keeps_aggregated(1) [OF sep])
  qed
next
  case (ClustersPerPolicyBundle c)
  show ?thesis
    unfolding ClustersPerPolicyBundle handler_of.simps handler_run.simps clusters_per_policy_run_def client_calls
  proof (rule batch_run_all [where R = R, OF keep [OF refl] ret])
    fix m'
    show "\<exists>q. bind_go (clusters_per_policy_rows (policies_db conn S (ord_deletes ord)) S (ord_policies ord)
          (ClustersPerPolicyBundle c) StatusSchema ComplianceTable m') (pdb_Build (policies_db conn S (ord_deletes ord))) = Inr q \<and>
        (\<forall>d. C d (snd (SendBatch conn q d)))"
      by (rule clusters_per_policy_batch_rendered [OF b [unfolded ClustersPerPolicyBundle]])
         (use keep batch_keeps_aggregated(2) [OF sep] in blast)
  qed
next
  case (ComplianceStatusBundle c)
  show ?thesis
    unfolding ComplianceStatusBundle handler_of.simps handler_run.simps compliance_run_def client_calls
  proof (rule batch_run_all [where R = R, OF keep [OF refl] ret])
    fix m'
    show "\<exists>q. bind_go (compliance_status_rows (policies_db conn S (ord_deletes ord)) S (ord_statuses ord)
          (ComplianceStatusBundle c) StatusSchema ComplianceTable m') (pdb_Build (policies_db conn S (ord_deletes ord))) = Inr q \<and>
        (\<forall>d. C d (snd (SendBatch conn q d)))"
      by (rule compliance_batch_rendered [OF b [unfolded ComplianceStatusBundle]])
         (use keep batch_keeps_aggregated(2) [OF sep] in blast)
  qed
qed (use type in blast)

text \<open>
  Without a column \<open>id\<close> the minimal compliance handler can only delete rows, and returns an error for a
  bundle that lists a policy.
\<close>

lemma delete_run_all:
  assumes laws: "aggregated_statement_laws conn tbl" and ret: "\<And>err. R err"
    and shrink: "\<And>d d'. set (tbl d') \<subseteq> set (tbl d) \<Longrightarrow> C d d'"
  shows "run_all C R (delete_aggregated_run conn lh qs)"
proof (induction qs)
  case (Cons q qs)
  have "C d (snd (DeleteAllComplianceRows conn StatusSchema MinimalComplianceTable lh q d))" for d
  proof (rule shrink)
    obtain e1 d1 where e: "conn_Exec conn (delete_policy_sql StatusSchema MinimalComplianceTable)
        [ArgString lh, ArgString q] d = (e1, d1)" by fastforce
    with laws have "tbl d1 = (if e1 = None then agg_delete lh q (tbl d) else tbl d)"
      unfolding aggregated_statement_laws_def by blast
    with e show "set (tbl (snd (DeleteAllComplianceRows conn StatusSchema MinimalComplianceTable lh q d))) \<subseteq> set (tbl d)"
      by (auto simp: DeleteAllComplianceRows_def agg_delete_def split: option.splits if_splits)
  qed
  then show ?case
    unfolding delete_aggregated_run.simps
  proof (rule run_all_statement)
    fix d
    show "run_all C R (case fst (DeleteAllComplianceRows conn StatusSchema MinimalComplianceTable lh q d) of
        Some err \<Rightarrow> Returned (Some (''failed deleted compliance rows of policy '' @ quoted q @
          '', leaf hub '' @ quoted lh @ '' from db - '' @ err))
      | None \<Rightarrow> delete_aggregated_run conn lh qs)"
    proof (cases "fst (DeleteAllComplianceRows conn StatusSchema MinimalComplianceTable lh q d)")
      case None
      with Cons show ?thesis by simp
    qed (simp add: ret)
  qed
qed (simp add: ret)

lemma minimal_run_without_id:
  assumes laws: "aggregated_table_laws conn cols tbl" "''id'' \<notin> cols"
    and b: "no_nil_objects (MinimalComplianceStatusBundle m)"
    and shrink: "\<And>d d'. set (tbl d') \<subseteq> set (tbl d) \<Longrightarrow> C d d'"
  shows "run_all C (\<lambda>err. msb_Objects m \<noteq> [] \<longrightarrow> err \<noteq> None)
    (minimal_compliance_run conn S (MinimalComplianceStatusBundle m))"
proof -
  let ?R = "\<lambda>err. msb_Objects m \<noteq> [] \<longrightarrow> err \<noteq> None"
  have read: "C d d" for d by (rule shrink) simp
  have "run_all C ?R (update_aggregated_run conn S lh (GetObjects (MinimalComplianceStatusBundle m)) s
      (\<lambda>s'. delete_aggregated_run conn lh (set_ToSlice S s')))" for lh s
  proof (cases "msb_Objects m")
    case Nil
    have "run_all C ?R (delete_aggregated_run conn lh qs)" for qs
      by (rule delete_run_all [OF aggregated_laws_statements [OF laws(1)] _ shrink]) (simp_all add: Nil)
    with Nil show ?thesis by simp
  next
    case (Cons x objs)
    then obtain p where p: "x = Some p" using b by (auto simp: no_nil_objects_def)
    have "\<exists>err. conn_QueryRow conn (aggregated_exists_sql StatusSchema MinimalComplianceTable)
        [ArgString lh, ArgString (mpc_PolicyID p)] d = Inl err" for d
      using exists_needs_column [OF laws] by metis
    then obtain err where "\<And>d. conn_QueryRow conn (aggregated_exists_sql StatusSchema MinimalComplianceTable)
        [ArgString lh, ArgString (mpc_PolicyID p)] d = Inl (err d)" by metis
    then show ?thesis
      by (auto simp: Cons p upsert_run_def intro!: run_all_query read)
  qed
  then show ?thesis
    unfolding minimal_compliance_run_def by (auto intro!: run_all_query read split: sum.split)
qed

section \<open>The invariant\<close>

text \<open>
  If the handlers of all inserted bundles make only calls that \<open>C\<close> allows and \<open>I\<close> survives them, then \<open>I\<close>
  holds at all times, and the history has only results that \<open>R\<close> allows.
\<close>

definition runs_inv ::
  "('d \<Rightarrow> 'd \<Rightarrow> bool) \<Rightarrow> (status_bundle \<Rightarrow> go_error option \<Rightarrow> bool) \<Rightarrow> 'd interleaved \<Rightarrow> bool" where
  "runs_inv C R s \<longleftrightarrow>
     (\<forall>w r. il_runs s w = Some r \<longrightarrow> (\<exists>j b. running_job (sys_bridge (il_system s)) w = Some j \<and>
        job_bundle j = Some b \<and> run_all C (R b) r)) \<and>
     (\<forall>(b, err) \<in> set (sys_done (il_system s)). R b err)"

lemma runs_inv_kept:
  assumes "runs_inv C R s" "sys_done (il_system t) = sys_done (il_system s)"
    and "\<And>w j. running_job (sys_bridge (il_system s)) w = Some j \<Longrightarrow> running_job (sys_bridge (il_system t)) w = Some j"
    and "\<And>w r. il_runs t w = Some r \<Longrightarrow> il_runs s w = Some r \<or>
      (\<exists>j b. running_job (sys_bridge (il_system t)) w = Some j \<and> job_bundle j = Some b \<and> run_all C (R b) r)"
  shows "runs_inv C R t"
  using assms unfolding runs_inv_def by (metis (no_types, lifting))

theorem il_reachable_runs:
  assumes reach: "il_reachable conn S P (initial_interleaved n d0) s" and P: "\<And>b. P b \<Longrightarrow> no_nil_objects b"
    and handlers: "\<And>b ord. P b \<Longrightarrow> run_all C (R b) (handler_run conn S ord (handler_of b) b)"
    and start: "I d0" and keep: "\<And>d d'. I d \<Longrightarrow> C d d' \<Longrightarrow> I d'"
  shows "I (sys_db (il_system s)) \<and> runs_inv C R s"
  using reach
proof (induction rule: il_reachable.induct)
  case il_start
  show ?case using start by (simp add: initial_interleaved_def initial_system_def runs_inv_def)
next
  case (il_step s e t)
  have safe: "il_safe P s" by (rule il_reachable_safe [OF il_step.hyps(1) P])
  note db = il_step.IH [THEN conjunct1] and inv = il_step.IH [THEN conjunct2]
  show ?case
  proof (cases e)
    case (OtherStep ev)
    with il_step.hyps(3) obtain r' where r': "bridge_step ev" "perform ev (sys_bridge (il_system s)) = Some r'"
        "bind_go r' (\<lambda>t. Inr (s\<lparr>il_system := (il_system s)\<lparr>sys_bridge := t\<rparr>\<rparr>)) = Inr t"
      by (auto split: if_splits)
    show ?thesis
    proof (rule safe_other [OF safe r'(1,2)])
      show "P b" if "ev = EvInsert b m" for b m using il_step.hyps(2) OtherStep that by simp
      fix u assume u: "r' = Inr u"
        and kept: "\<And>w j. running_job (sys_bridge (il_system s)) w = Some j \<Longrightarrow> running_job u w = Some j"
      have t: "t = s\<lparr>il_system := (il_system s)\<lparr>sys_bridge := u\<rparr>\<rparr>" using r'(3) u by simp
      have "runs_inv C R t" by (rule runs_inv_kept [OF inv]) (simp_all add: t kept)
      with db show ?thesis by (simp add: t)
    qed
  next
    case (HandlerEnter w ord)
    with il_step.hyps(3) have "handler_enter conn S w ord s = Some (Inr t)" by simp
    then show ?thesis
    proof (rule safe_enter [OF safe, rotated])
      fix j b assume j: "running_job (sys_bridge (il_system s)) w = Some j" "job_bundle j = Some b" "P b"
        and "Inr t = Inr (s\<lparr>il_runs := (il_runs s)(w \<mapsto> handler_run conn S ord (handler_of b) b)\<rparr>)"
      then have t: "t = s\<lparr>il_runs := (il_runs s)(w \<mapsto> handler_run conn S ord (handler_of b) b)\<rparr>" by simp
      have "runs_inv C R t"
        by (rule runs_inv_kept [OF inv]) (use j handlers [OF j(3)] in \<open>auto simp: t split: if_splits\<close>)
      with db show ?thesis by (simp add: t)
    qed (rule P)
  next
    case (HandlerCall w)
    with il_step.hyps(3) have "handler_call w s = Some (Inr t)" by simp
    then show ?thesis
    proof (rule safe_call [OF safe])
      fix f assume f: "il_runs s w = Some (Calling f)" and "Inr t = Inr (s\<lparr>il_system := (il_system s)
          \<lparr>sys_db := snd (f (sys_db (il_system s)))\<rparr>, il_runs := (il_runs s)(w \<mapsto> fst (f (sys_db (il_system s))))\<rparr>)"
      then have t: "t = s\<lparr>il_system := (il_system s)\<lparr>sys_db := snd (f (sys_db (il_system s)))\<rparr>,
          il_runs := (il_runs s)(w \<mapsto> fst (f (sys_db (il_system s))))\<rparr>" by simp
      from inv f obtain j b where j: "running_job (sys_bridge (il_system s)) w = Some j" "job_bundle j = Some b"
          and call: "run_all C (R b) (Calling f)" unfolding runs_inv_def by blast
      have "runs_inv C R t"
        by (rule runs_inv_kept [OF inv]) (use j call in \<open>auto simp: t split: if_splits\<close>)
      moreover have "I (sys_db (il_system t))" by (rule keep [OF db]) (use call in \<open>simp add: t\<close>)
      ultimately show ?thesis by blast
    qed
  next
    case (HandlerReturn w)
    with il_step.hyps(3) have ret: "handler_return w s = Some (Inr t)" by simp
    then obtain err where r0: "il_runs s w = Some (Returned err)" by (rule handler_returnE)
    then show ?thesis
    proof (rule safe_return [OF safe])
      fix j b u
      assume j: "running_job (sys_bridge (il_system s)) w = Some j" "job_bundle j = Some b"
        and fin: "perform (EvFinish w err) (sys_bridge (il_system s)) = Some (Inr u)"
        and "handler_return w s = Some (Inr (returned s w u b err))"
      then have t: "t = returned s w u b err" using ret by simp
      have "R b err" using inv r0 j unfolding runs_inv_def by fastforce
      moreover have "running_job u v = running_job (sys_bridge (il_system s)) v" if "v \<noteq> w" for v
        by (rule running_job_finish [OF il_safeD(2) [OF safe] fin that])
      ultimately have "runs_inv C R t"
        using inv unfolding runs_inv_def t returned_def by (auto split: if_splits)
      with db show ?thesis by (simp add: t returned_def)
    qed
  qed
qed

end
