(* ===== verification/Clusters_Properties.thy ===== *)
theory Clusters_Properties
  imports Clusters_Table
begin

text \<open>
  Properties of the managed clusters path: the batches its builder makes and the table after a bundle
  has been handled. The witnesses run on a small database that interprets the statements of a batch by
  their arguments.
\<close>

section \<open>A small database\<close>

fun insert_args :: "db_arg list \<Rightarrow> cluster_row list" where
  "insert_args (ArgString lh # ArgCluster c # ArgString e # args) =
     \<lparr>cr_leafHub = lh, cr_cluster = c, cr_error = e\<rparr> # insert_args args"
| "insert_args _ = []"

fun update_args :: "db_arg list \<Rightarrow> (string \<times> managed_cluster) list" where
  "update_args (ArgString lh # ArgCluster c # ArgString n # args) = (n, c) # update_args args"
| "update_args _ = []"

fun string_args :: "db_arg list \<Rightarrow> string list" where
  "string_args (ArgString s # args) = s # string_args args"
| "string_args _ = []"

fun exec_queued :: "queued \<Rightarrow> cluster_row list \<Rightarrow> cluster_row list" where
  "exec_queued (sql, args) t =
     (if take 1 sql = ''I'' then t @ insert_args args
      else case args of
        ArgString lh # rest \<Rightarrow>
          if take 1 sql = ''U'' then exec_cluster_stmt lh (SUpdate (update_args args)) t
          else exec_cluster_stmt lh (SDelete (string_args rest)) t
      | _ \<Rightarrow> t)"

definition small_conn :: "cluster_row list pg_conn" where
  "small_conn =
     \<lparr>conn_Query = (\<lambda>sql args t. (\<lparr>rows_scans = map (\<lambda>r. Inr [mc_name (cr_cluster r),
          mc_resourceVersion (cr_cluster r)]) (filter (\<lambda>r. [ArgString (cr_leafHub r)] = args) t),
        rows_err = None\<rparr>, None)),
      conn_QueryRow = (\<lambda>_ _ _. Inr False), conn_Exec = (\<lambda>_ _ t. (None, t)),
      conn_SendBatch = (\<lambda>q t. (\<lambda>_. None, foldl (\<lambda>t x. exec_queued x t) t q))\<rparr>"

lemma insert_args_rows:
  "insert_args (concat (map (\<lambda>(c, e). [ArgString lh, ArgCluster c, ArgString e]) rows)) =
     map (\<lambda>(c, e). \<lparr>cr_leafHub = lh, cr_cluster = c, cr_error = e\<rparr>) rows"
  by (induction rows) auto

lemma update_args_rows:
  "update_args (concat (map (\<lambda>(n, c). [ArgString lh, ArgCluster c, ArgString n]) rows)) = rows"
  by (induction rows) auto

lemma string_args_strings: "string_args (map ArgString ss) = ss"
  by (induction ss) simp_all

lemma exec_cluster_update_nil: "exec_cluster_stmt lh (SUpdate []) t = t"
  by (simp add: exec_cluster_stmt.simps map_idI)

lemma exec_queued_render:
  "exec_queued (render (mc_layout StatusSchema ManagedClustersTable lh) s) t = exec_cluster_stmt lh s t"
proof (cases s)
  case (SInsert rows)
  then show ?thesis
    by (simp add: mc_layout_def insert_sql_def insert_args_rows exec_cluster_stmt.simps)
next
  case (SUpdate rows)
  show ?thesis
  proof (cases rows)
    case Nil
    then show ?thesis using SUpdate by (simp add: mc_layout_def exec_cluster_update_nil)
  next
    case (Cons r rs)
    obtain n c where "r = (n, c)" by (cases r)
    then show ?thesis
      using SUpdate Cons by (simp add: mc_layout_def mc_update_sql_def update_args_rows)
  qed
next
  case (SDelete keys)
  then show ?thesis by (simp add: mc_layout_def delete_sql_def string_args_strings)
qed (simp add: mc_layout_def exec_cluster_stmt.simps)

lemma small_conn_laws: "clusters_table_laws small_conn (\<lambda>t. t)"
proof -
  have "foldl (\<lambda>t x. exec_queued x t) t (map (render (mc_layout StatusSchema ManagedClustersTable lh)) ss) =
      exec_cluster_stmts lh ss t" for lh ss t
    by (induction ss arbitrary: t) (simp_all add: exec_queued_render del: exec_queued.simps)
  then show ?thesis by (auto simp: clusters_table_laws_def small_conn_def)
qed

definition sample_cluster :: "string \<Rightarrow> string \<Rightarrow> managed_cluster" where
  "sample_cluster n v = \<lparr>mc_name = n, mc_resourceVersion = v, mc_body = ''''\<rparr>"

definition sample_table :: "cluster_row list" where
  "sample_table =
     [\<lparr>cr_leafHub = ''hub1'', cr_cluster = sample_cluster ''a'' ''1'', cr_error = ''none''\<rparr>,
      \<lparr>cr_leafHub = ''hub1'', cr_cluster = sample_cluster ''b'' ''1'', cr_error = ''none''\<rparr>,
      \<lparr>cr_leafHub = ''hub2'', cr_cluster = sample_cluster ''a'' ''1'', cr_error = ''none''\<rparr>]"

definition sample_bundle :: managed_clusters_status_bundle where
  "sample_bundle =
     \<lparr>mcb_Objects = [Some (sample_cluster ''a'' ''2''), Some (sample_cluster ''c'' ''1'')],
      mcb_LeafHubName = ''hub1'', mcb_Generation = 1\<rparr>"

section \<open>Operations of the builder\<close>

datatype cluster_op =
    OpInsert managed_cluster string
  | OpUpdate string managed_cluster
  | OpDelete string

fun apply_cluster_op :: "base_batch_builder \<Rightarrow> cluster_op \<Rightarrow> base_batch_builder go" where
  "apply_cluster_op b (OpInsert c e) = mc_Insert c e b"
| "apply_cluster_op b (OpUpdate n c) = mc_Update n c b"
| "apply_cluster_op b (OpDelete n) = mc_Delete n b"

definition inserts_of :: "cluster_op list \<Rightarrow> (managed_cluster \<times> string) list" where
  "inserts_of ops = concat (map (\<lambda>op. case op of OpInsert c e \<Rightarrow> [(c, e)] | _ \<Rightarrow> []) ops)"

definition updates_of :: "cluster_op list \<Rightarrow> (string \<times> managed_cluster) list" where
  "updates_of ops = concat (map (\<lambda>op. case op of OpUpdate n c \<Rightarrow> [(n, c)] | _ \<Rightarrow> []) ops)"

definition deletes_of :: "cluster_op list \<Rightarrow> string list" where
  "deletes_of ops = concat (map (\<lambda>op. case op of OpDelete n \<Rightarrow> [n] | _ \<Rightarrow> []) ops)"

lemma apply_cluster_ops:
  assumes "mc_holds schema tableName lh b c"
  shows "\<exists>b'. fold_go apply_cluster_op b ops = Inr b' \<and>
    mc_holds schema tableName lh b'
      \<lparr>cc_inserted = cc_inserted c @ inserts_of ops, cc_updated = cc_updated c @ updates_of ops,
       cc_deleted = cc_deleted c @ deletes_of ops\<rparr>"
  using assms
proof (induction ops arbitrary: b c)
  case Nil
  then show ?case by (cases c) (simp add: inserts_of_def updates_of_def deletes_of_def)
next
  case (Cons op ops)
  show ?case
  proof (cases op)
    case (OpInsert pl e)
    obtain b1 where "mc_Insert pl e b = Inr b1"
        "mc_holds schema tableName lh b1 (c\<lparr>cc_inserted := cc_inserted c @ [(pl, e)]\<rparr>)"
      using mc.insert [OF Cons.prems] by blast
    with Cons.IH [OF this(2)] OpInsert show ?thesis
      by (simp add: inserts_of_def updates_of_def deletes_of_def)
  next
    case (OpUpdate n pl)
    obtain b1 where "mc_Update n pl b = Inr b1"
        "mc_holds schema tableName lh b1 (c\<lparr>cc_updated := cc_updated c @ [(n, pl)]\<rparr>)"
      using mc.update [OF Cons.prems] by blast
    with Cons.IH [OF this(2)] OpUpdate show ?thesis
      by (simp add: inserts_of_def updates_of_def deletes_of_def)
  next
    case (OpDelete n)
    obtain b1 where "mc_Delete n b = Inr b1"
        "mc_holds schema tableName lh b1 (c\<lparr>cc_deleted := cc_deleted c @ [n]\<rparr>)"
      using mc.delete [OF Cons.prems] by blast
    with Cons.IH [OF this(2)] OpDelete show ?thesis
      by (simp add: inserts_of_def updates_of_def deletes_of_def)
  qed
qed

lemma mc_fits_args:
  assumes "fits (mc_layout schema tableName lh) s"
  shows "length (snd (render (mc_layout schema tableName lh) s)) \<le> maxArgsInStatement + 3"
proof (cases s)
  case (SInsert rows)
  have "length (concat (map (l_insertRow (mc_layout schema tableName lh)) rows)) = length rows * 3"
    by (rule length_concat_rows) (auto simp: mc_layout_def)
  with assms SInsert show ?thesis by (simp add: mc_layout_def)
next
  case (SUpdate rows)
  have "length (concat (map (l_updateRow (mc_layout schema tableName lh)) rows)) = length rows * 3"
    by (rule length_concat_rows) (auto simp: mc_layout_def)
  with assms SUpdate show ?thesis by (simp add: mc_layout_def)
qed (use assms in \<open>simp_all add: mc_layout_def\<close>)

section \<open>Properties\<close>

text \<open>C5: Handling a managed clusters bundle brings the table in line with it, provided that reading the
  table succeeds (the code drops the error of a query that fails). For a bundle whose clusters have
  distinct names, on a table with at most one row per cluster, the handler returns. When it reports
  success every cluster of the bundle has exactly one row, at the bundle's resource version (its payload
  is the bundle's, or the row was at that version already and is untouched), the leaf hub has no other
  row, and the rows of other leaf hubs are as before. When it reports an error the table is as before.\<close>

theorem managed_clusters_are_synced:
  assumes "clusters_table_laws conn tbl"
    and "mcb_Objects b = map Some cs" "distinct (map mc_name cs)"
    and "\<forall>n. length (cluster_rows (mcb_LeafHubName b) n (tbl d)) \<le> 1"
  shows "\<exists>err d'. handleManagedClustersBundle (clusters_db conn) rng (ManagedClustersStatusBundle b) d =
      Inr (err, d') \<and>
    (if err = None then synced (mcb_LeafHubName b) cs (tbl d) (tbl d') else tbl d' = tbl d)"
  using handler_syncs [OF assms(1-3)] assms(4) by blast

lemma managed_clusters_are_synced_witness:
  "\<exists>err t. handleManagedClustersBundle (clusters_db small_conn) rev
      (ManagedClustersStatusBundle sample_bundle) sample_table = Inr (err, t) \<and>
    (if err = None then synced ''hub1'' [sample_cluster ''a'' ''2'', sample_cluster ''c'' ''1'']
       sample_table t else t = sample_table)"
proof -
  have one: "\<forall>n. length (cluster_rows (mcb_LeafHubName sample_bundle) n sample_table) \<le> 1"
    by (auto simp: cluster_rows_def sample_bundle_def sample_table_def sample_cluster_def)
  have objs: "mcb_Objects sample_bundle = map Some [sample_cluster ''a'' ''2'', sample_cluster ''c'' ''1'']"
    and hub: "mcb_LeafHubName sample_bundle = ''hub1''"
    by (simp_all add: sample_bundle_def)
  have dist: "distinct (map mc_name [sample_cluster ''a'' ''2'', sample_cluster ''c'' ''1''])"
    by (simp add: sample_cluster_def)
  from managed_clusters_are_synced [OF small_conn_laws objs dist one] show ?thesis unfolding hub .
qed

text \<open>C18: The managed clusters builder loses, duplicates and reorders nothing. Any sequence of row
  operations on a new builder and the final \<open>Build\<close> return without a panic, and the batch is the
  rendering of statements that carry, per kind and in order, exactly the given rows; no statement is
  empty and none has more than 50003 arguments.\<close>

theorem cluster_batch_is_faithful:
  "\<exists>b q ss. fold_go apply_cluster_op (NewManagedClustersBatchBuilder schema tableName lh) ops = Inr b \<and>
    mc_Build b = Inr q \<and> q = map (render (mc_layout schema tableName lh)) ss \<and>
    inserted_rows ss = inserts_of ops \<and> updated_rows ss = updates_of ops \<and>
    deleted_keys ss = deletes_of ops \<and> list_all (fits (mc_layout schema tableName lh)) ss \<and>
    list_all (\<lambda>(sql, args). length args \<le> 50003) q"
proof -
  obtain b where b: "fold_go apply_cluster_op (NewManagedClustersBatchBuilder schema tableName lh) ops = Inr b"
      "mc_holds schema tableName lh b \<lparr>cc_inserted = inserts_of ops, cc_updated = updates_of ops,
         cc_deleted = deletes_of ops\<rparr>"
    using apply_cluster_ops [OF mc_holds_new, of schema tableName lh ops]
    by (auto simp: no_cluster_changes_def)
  obtain q where q: "mc_Build b = Inr q" "mc_carries schema tableName lh q
      \<lparr>cc_inserted = inserts_of ops, cc_updated = updates_of ops, cc_deleted = deletes_of ops\<rparr>"
    using mc.build [OF b(2)] by blast
  then obtain ss where ss: "q = map (render (mc_layout schema tableName lh)) ss"
      "list_all (fits (mc_layout schema tableName lh)) ss" "inserted_rows ss = inserts_of ops"
      "updated_rows ss = updates_of ops" "deleted_keys ss = deletes_of ops"
    by (auto simp: mc_carries_def cluster_changes_of_def)
  have "list_all (\<lambda>(sql, args). length args \<le> 50003) q"
    using ss(2) mc_fits_args [of schema tableName lh]
    by (auto simp: ss(1) list_all_iff maxArgsInStatement_def split: prod.split) (metis snd_conv)
  with b(1) q(1) ss show ?thesis by blast
qed

text \<open>C39: A nil object in a managed clusters bundle (a JSON \<open>null\<close> in its object list) makes the handler
  panic, which ends the process: the type assertion succeeds on a nil pointer and the name is read
  through it. It does not matter where in the list it is nor what the other objects are: whenever the
  query of the clusters has succeeded, the handler panics exactly when some object is nil.\<close>

theorem nil_cluster_panics:
  assumes "GetManagedClustersByLeafHub conn StatusSchema ManagedClustersTable (mcb_LeafHubName b) d = Inr m"
  shows "handleManagedClustersBundle (clusters_db conn) rng (ManagedClustersStatusBundle b) d = Inl NilDereference \<longleftrightarrow>
    None \<in> set (mcb_Objects b)"
proof -
  let ?step = "handle_cluster_object mc_Insert mc_Update" and ?new = "NewManagedClustersBatchBuilder StatusSchema
    ManagedClustersTable (mcb_LeafHubName b)"
  have new: "mc_holds StatusSchema ManagedClustersTable (mcb_LeafHubName b) ?new no_cluster_changes"
    by (rule mc_holds_new)
  show ?thesis
  proof (cases "None \<in> set (mcb_Objects b)")
    case True
    have "fold_go ?step (?new, m) (map ObjManagedCluster (mcb_Objects b)) = Inl NilDereference"
      by (rule mc.nil_object_panics [OF new True])
    with assms True show ?thesis
      by (simp add: handleManagedClustersBundle_def managed_clusters_batch_def clusters_db_def)
  next
    case False
    note objs = map_Some_the [OF False, symmetric]
    obtain b' m' c where fold: "fold_go ?step (?new, m) (map ObjCluster (map the (mcb_Objects b))) = Inr (b', m')"
        "mc_holds StatusSchema ManagedClustersTable (mcb_LeafHubName b) b' c"
      using mc.objects_return [OF new, of m "map the (mcb_Objects b)"] by blast
    obtain b'' c' where del: "fold_go (\<lambda>b (n, _). mc_Delete n b) b' (go_range rng m') = Inr b''"
        "mc_holds StatusSchema ManagedClustersTable (mcb_LeafHubName b) b'' c'"
      using mc.delete_all [OF fold(2), of "map fst (go_range rng m')"]
      by (auto simp: fold_go_map case_prod_unfold)
    obtain q where q: "mc_Build b'' = Inr q" using mc.build [OF del(2)] by blast
    have "map ObjManagedCluster (mcb_Objects b) = map ObjCluster (map the (mcb_Objects b))"
      by (subst objs) (simp only: list.map_comp comp_def)
    then have "fold_go ?step (?new, m) (map ObjManagedCluster (mcb_Objects b)) = Inr (b', m')"
      using fold(1) by (simp only:)
    then have "managed_clusters_batch (clusters_db conn) rng (ManagedClustersStatusBundle b) m = Inr (PgxBatch q)"
      using del(1) q by (simp add: managed_clusters_batch_def clusters_db_def)
    then have "handleManagedClustersBundle (clusters_db conn) rng (ManagedClustersStatusBundle b) d \<noteq> Inl NilDereference"
      using assms by (simp add: handleManagedClustersBundle_def clusters_db_def split: prod.split option.split)
    with False show ?thesis by simp
  qed
qed

lemma nil_cluster_panics_witness:
  "handleManagedClustersBundle (clusters_db small_conn) rev
     (ManagedClustersStatusBundle \<lparr>mcb_Objects = [Some (sample_cluster ''a'' ''2''), None, Some (sample_cluster ''c'' ''1'')],
        mcb_LeafHubName = ''hub1'', mcb_Generation = 1\<rparr>) sample_table = Inl NilDereference"
proof -
  let ?b = "\<lparr>mcb_Objects = [Some (sample_cluster ''a'' ''2''), None, Some (sample_cluster ''c'' ''1'')],
        mcb_LeafHubName = ''hub1'', mcb_Generation = 1\<rparr>"
  obtain m where "GetManagedClustersByLeafHub small_conn StatusSchema ManagedClustersTable ''hub1''
      sample_table = Inr m"
    using query_result [OF small_conn_laws, of "''hub1''" sample_table] by blast
  then have "GetManagedClustersByLeafHub small_conn StatusSchema ManagedClustersTable (mcb_LeafHubName ?b)
      sample_table = Inr m" by simp
  from nil_cluster_panics [OF this] show ?thesis by simp
qed

end
