(* ===== verification/Small_Database.thy ===== *)
theory Small_Database
  imports Handler_Effects Clusters_Properties
begin

text \<open>
  A small database for the witnesses of the policies path: it interprets the statements by their text
  and arguments, and keeps the laws assumed of a database. Its aggregated table has the column
  \<open>policy_id\<close> and no column \<open>id\<close>. Its sets are lists without repetitions.
\<close>

section \<open>A small database\<close>

definition list_sets :: "string list go_sets" where
  "list_sets = \<lparr>set_NewSet = [], set_Add = (\<lambda>s x. List.insert x s), set_Contains = (\<lambda>s x. x \<in> set s),
     set_Remove = (\<lambda>s x. filter (\<lambda>y. y \<noteq> x) s), set_Union = (\<lambda>s t. remdups (s @ t)),
     set_ToSlice = remdups\<rparr>"

lemma list_sets_laws: "sets_laws list_sets set"
  by (auto simp: sets_laws_def list_sets_def)

record small_db =
  sd_clusters :: "cluster_row list"
  sd_compliance :: "compliance_row list"
  sd_aggregated :: "aggregated_row list"

fun compliance_args :: "db_arg list \<Rightarrow> compliance_row list" where
  "compliance_args (ArgString p # ArgString cl # ArgString lh # ArgString e # ArgString st # args) =
     \<lparr>co_leafHub = lh, co_policy = p, co_cluster = cl, co_error = e, co_compliance = st\<rparr> #
     compliance_args args"
| "compliance_args _ = []"

fun policy_state_args :: "db_arg list \<Rightarrow> ((string \<times> string) \<times> string) list" where
  "policy_state_args (ArgString p # ArgString lh # ArgString st # args) =
     ((lh, p), st) # policy_state_args args"
| "policy_state_args _ = []"

fun cluster_state_args :: "db_arg list \<Rightarrow> ((string \<times> string \<times> string) \<times> string) list" where
  "cluster_state_args (ArgString p # ArgString cl # ArgString lh # ArgString st # args) =
     ((lh, p, cl), st) # cluster_state_args args"
| "cluster_state_args _ = []"

definition set_state :: "string option \<Rightarrow> compliance_row \<Rightarrow> compliance_row" where
  "set_state new r = (case new of None \<Rightarrow> r | Some st \<Rightarrow> r\<lparr>co_compliance := st\<rparr>)"

text \<open>
  The two updates end in different columns, and the two deletes differ behind the column of the policy,
  the 59th character.
\<close>

fun exec_compliance_queued :: "queued \<Rightarrow> compliance_row list \<Rightarrow> compliance_row list" where
  "exec_compliance_queued (sql, args) t =
     (if take 1 sql = ''I'' then t @ compliance_args args
      else if take 1 sql = ''U'' \<and> last sql = CHR ''d''
      then map (\<lambda>r. set_state (map_of (policy_state_args args) (co_leafHub r, co_policy r)) r) t
      else if take 1 sql = ''U''
      then map (\<lambda>r. set_state (map_of (cluster_state_args args) (co_leafHub r, co_policy r, co_cluster r)) r) t
      else case string_args args of
        lh # rest \<Rightarrow>
          if sql ! 59 = CHR '' '' then filter (\<lambda>r. \<not> (co_leafHub r = lh \<and> co_policy r \<in> set rest)) t
          else filter (\<lambda>r. \<not> (co_leafHub r = lh \<and> co_policy r = hd rest \<and> co_cluster r \<in> set (tl rest))) t
      | [] \<Rightarrow> t)"

text \<open>The first letter of the table's name: behind the verb and the schema.\<close>

fun small_queued :: "queued \<Rightarrow> small_db \<Rightarrow> small_db" where
  "small_queued (sql, args) d =
     (if (if take 1 sql = ''U'' then sql ! 14 else sql ! 19) = CHR ''m''
      then d\<lparr>sd_clusters := exec_queued (sql, args) (sd_clusters d)\<rparr>
      else d\<lparr>sd_compliance := exec_compliance_queued (sql, args) (sd_compliance d)\<rparr>)"

definition small_query :: "string \<Rightarrow> db_arg list \<Rightarrow> small_db \<Rightarrow> pg_rows \<times> go_error option" where
  "small_query sql args d =
     (\<lparr>rows_scans =
         (if sql = managed_clusters_query StatusSchema ManagedClustersTable
          then map (\<lambda>r. Inr [mc_name (cr_cluster r), mc_resourceVersion (cr_cluster r)])
            (filter (\<lambda>r. [ArgString (cr_leafHub r)] = args) (sd_clusters d))
          else if sql = compliance_query StatusSchema ComplianceTable
          then map (\<lambda>r. Inr [co_policy r, co_cluster r])
            (filter (\<lambda>r. [ArgString (co_leafHub r)] = args) (sd_compliance d))
          else if sql = non_compliant_query StatusSchema ComplianceTable
          then map (\<lambda>r. Inr [co_policy r, co_cluster r, co_compliance r])
            (filter (\<lambda>r. [ArgString (co_leafHub r)] = args \<and> co_compliance r \<noteq> Compliant) (sd_compliance d))
          else if sql = policy_ids_query_on ''policy_id'' StatusSchema MinimalComplianceTable
          then map (\<lambda>p. Inr [p]) (remdups (map ag_policy
            (filter (\<lambda>r. [ArgString (ag_leafHub r)] = args) (sd_aggregated d))))
          else []),
       rows_err = None\<rparr>, None)"

fun small_exec :: "string \<Rightarrow> db_arg list \<Rightarrow> small_db \<Rightarrow> go_error option \<times> small_db" where
  "small_exec sql [ArgInt applied, ArgInt non, ArgString lh, ArgString p] d =
     (if sql = aggregated_update_on ''policy_id'' StatusSchema MinimalComplianceTable
      then (None, d\<lparr>sd_aggregated := agg_update lh p applied non (sd_aggregated d)\<rparr>)
      else (Some ''no such column'', d))"
| "small_exec sql [ArgString p, ArgString lh, ArgInt applied, ArgInt non] d =
     (if sql = aggregated_insert_on ''policy_id'' StatusSchema MinimalComplianceTable
      then (None, d\<lparr>sd_aggregated := agg_insert lh p applied non (sd_aggregated d)\<rparr>)
      else (Some ''no such column'', d))"
| "small_exec sql [ArgString lh, ArgString p] d =
     (if sql = delete_policy_on ''policy_id'' StatusSchema MinimalComplianceTable
      then (None, d\<lparr>sd_aggregated := agg_delete lh p (sd_aggregated d)\<rparr>)
      else (Some ''no such column'', d))"
| "small_exec sql _ d = (Some ''bad statement'', d)"

definition small_pg :: "small_db pg_conn" where
  "small_pg =
     \<lparr>conn_Query = small_query,
      conn_QueryRow = (\<lambda>sql args d. case args of
          [ArgString lh, ArgString p] \<Rightarrow>
            if sql = aggregated_exists_on ''policy_id'' StatusSchema MinimalComplianceTable
            then Inr (agg_rows lh p (sd_aggregated d) \<noteq> []) else Inl ''no such column''
        | _ \<Rightarrow> Inl ''bad query''),
      conn_Exec = small_exec,
      conn_SendBatch = (\<lambda>q d. (\<lambda>_. None, foldl (\<lambda>d x. small_queued x d) d q))\<rparr>"

lemma small_queries_differ:
  "policy_ids_query_on ''policy_id'' StatusSchema MinimalComplianceTable \<noteq> compliance_query StatusSchema ComplianceTable"
  "policy_ids_query_on ''policy_id'' StatusSchema MinimalComplianceTable \<noteq> non_compliant_query StatusSchema ComplianceTable"
  "compliance_query StatusSchema ComplianceTable \<noteq> non_compliant_query StatusSchema ComplianceTable"
  "managed_clusters_query StatusSchema ManagedClustersTable \<noteq> compliance_query StatusSchema ComplianceTable"
  "managed_clusters_query StatusSchema ManagedClustersTable \<noteq> non_compliant_query StatusSchema ComplianceTable"
  "managed_clusters_query StatusSchema ManagedClustersTable \<noteq> policy_ids_query_on ''policy_id'' StatusSchema MinimalComplianceTable"
  by (simp_all add: policy_ids_query_on_def compliance_query_def non_compliant_query_def managed_clusters_query_def)

text \<open>The statements for the column \<open>id\<close> are others.\<close>

lemma small_columns_differ:
  "policy_ids_query_on ''id'' StatusSchema MinimalComplianceTable \<notin>
     {policy_ids_query_on ''policy_id'' StatusSchema MinimalComplianceTable,
      managed_clusters_query StatusSchema ManagedClustersTable, compliance_query StatusSchema ComplianceTable,
      non_compliant_query StatusSchema ComplianceTable}"
  "aggregated_exists_on ''id'' StatusSchema MinimalComplianceTable \<noteq>
     aggregated_exists_on ''policy_id'' StatusSchema MinimalComplianceTable"
  "aggregated_update_on ''id'' StatusSchema MinimalComplianceTable \<noteq>
     aggregated_update_on ''policy_id'' StatusSchema MinimalComplianceTable"
  "aggregated_insert_on ''id'' StatusSchema MinimalComplianceTable \<noteq>
     aggregated_insert_on ''policy_id'' StatusSchema MinimalComplianceTable"
  "delete_policy_on ''id'' StatusSchema MinimalComplianceTable \<noteq>
     delete_policy_on ''policy_id'' StatusSchema MinimalComplianceTable"
  by (simp_all add: statements_on_def compliance_query_def non_compliant_query_def managed_clusters_query_def)

lemma small_aggregated_laws: "aggregated_table_laws small_pg {''policy_id''} sd_aggregated"
proof -
  have "\<exists>ps. rows_scans (fst (conn_Query small_pg
        (policy_ids_query_on ''policy_id'' StatusSchema MinimalComplianceTable) [ArgString lh] d)) =
        map (\<lambda>p. Inr [p]) ps \<and>
      set ps = ag_policy ` {r \<in> set (sd_aggregated d). ag_leafHub r = lh}" for lh d
    by (intro exI [of _ "remdups (map ag_policy (filter (\<lambda>r. ag_leafHub r = lh) (sd_aggregated d)))"])
       (simp add: small_pg_def small_query_def small_queries_differ not_sym [OF small_queries_differ(6)])
  moreover have "rows_scans (fst (conn_Query small_pg
      (policy_ids_query_on ''id'' StatusSchema MinimalComplianceTable) [ArgString lh] d)) = []" for lh d
    using small_columns_differ(1) by (simp add: small_pg_def small_query_def)
  ultimately show ?thesis
    using small_columns_differ(2-5) unfolding aggregated_table_laws_def
    by (auto simp: small_pg_def split: if_splits)
qed

lemma compliance_args_rows:
  "compliance_args (concat (map (\<lambda>(p, cl, e, st). [ArgString p, ArgString cl, ArgString lh, ArgString e,
     ArgString st]) rows)) = map (row_of lh) rows"
  by (induction rows) (auto simp: row_of_def)

lemma policy_state_args_rows:
  "map_of (policy_state_args (concat (map (\<lambda>(p, st). [ArgString p, ArgString lh, ArgString st]) rows))) (h, p) =
     (if h = lh then map_of rows p else None)"
  by (induction rows) auto

lemma cluster_state_args_rows:
  "map_of (cluster_state_args (concat (map (cluster_update_row lh) rows))) (h, p, cl) =
     (if h = lh then map_of (cluster_states rows) (p, cl) else None)"
  by (induction rows) (auto simp: cluster_update_row_def cluster_states_def)

lemma delete_sql_59:
  "delete_sql StatusSchema ComplianceTable policyDeleteRowKey n ! 59 = CHR '' ''"
  "cluster_delete_sql StatusSchema ComplianceTable n ! 59 = CHR ''=''"
  by (simp_all add: delete_sql_def cluster_delete_sql_def policyDeleteRowKey_def StatusSchema_def ComplianceTable_def)

lemma exec_compliance_render:
  "exec_compliance_queued (render (pb_layout StatusSchema ComplianceTable lh) s) t = exec_policy_stmt lh s t"
proof (cases s rule: policy_stmt_cases)
  case (insert rows)
  then show ?thesis by (simp add: pb_layout_def insert_sql_def compliance_args_rows)
next
  case (update rows)
  then show ?thesis
    by (auto simp: pb_layout_def policy_update_sql_def policy_state_args_rows update_where_def set_state_def
        intro!: map_cong split: option.split)
next
  case (update_clusters rows)
  then show ?thesis
    by (auto simp: pb_layout_def cluster_update_sql_def cluster_state_args_rows update_where_def set_state_def
        intro!: map_cong split: option.split)
next
  case (delete ps)
  have "take 1 (delete_sql StatusSchema ComplianceTable policyDeleteRowKey (length ps)) = ''D''"
    by (simp add: delete_sql_def)
  with delete show ?thesis
    by (simp add: pb_layout_def string_args_strings delete_sql_59)
next
  case (delete_clusters q cls)
  have "take 1 (cluster_delete_sql StatusSchema ComplianceTable (length cls)) = ''D''"
    by (simp add: cluster_delete_sql_def)
  with delete_clusters show ?thesis
    by (simp add: pb_layout_def string_args_strings delete_sql_59 cluster_delete_args_def)
qed

definition table_letter :: "queued \<Rightarrow> char" where
  "table_letter q = (if take 1 (fst q) = ''U'' then fst q ! 14 else fst q ! 19)"

lemma small_queued_letter:
  "table_letter q = CHR ''m'' \<Longrightarrow> small_queued q d = d\<lparr>sd_clusters := exec_queued q (sd_clusters d)\<rparr>"
  "table_letter q \<noteq> CHR ''m'' \<Longrightarrow>
     small_queued q d = d\<lparr>sd_compliance := exec_compliance_queued q (sd_compliance d)\<rparr>"
  by (cases q, simp only: table_letter_def small_queued.simps fst_conv if_True if_False simp_thms)+

lemma clusters_table_letter:
  fixes lh :: string and s :: cluster_stmt
  defines "q \<equiv> render (mc_layout StatusSchema ManagedClustersTable lh) s"
  assumes "\<forall>x. s \<noteq> SExtra x"
  shows "table_letter q = CHR ''m''"
  unfolding q_def using assms(2)
  by (cases s)
     (simp_all add: table_letter_def mc_layout_def insert_sql_def mc_update_sql_def delete_sql_def StatusSchema_def
       ManagedClustersTable_def)

lemma small_queued_clusters:
  "small_queued (render (mc_layout StatusSchema ManagedClustersTable lh) s) d =
     d\<lparr>sd_clusters := exec_cluster_stmt lh s (sd_clusters d)\<rparr>"
proof (cases "\<exists>x. s = SExtra x")
  case True
  then show ?thesis by (auto simp: mc_layout_def exec_cluster_stmt.simps)
next
  case False
  then have "\<forall>x. s \<noteq> SExtra x" by blast
  from small_queued_letter(1) [OF clusters_table_letter [OF this]] show ?thesis
    by (simp only: exec_queued_render)
qed

lemma compliance_table_letter:
  fixes lh :: string and s :: policy_stmt
  defines "q \<equiv> render (pb_layout StatusSchema ComplianceTable lh) s"
  shows "table_letter q \<noteq> CHR ''m''"
  unfolding q_def
  by (cases s rule: policy_stmt_cases)
     (simp_all add: table_letter_def pb_layout_def insert_sql_def policy_update_sql_def cluster_update_sql_def delete_sql_def
       cluster_delete_sql_def StatusSchema_def ComplianceTable_def)

lemma small_queued_compliance:
  "small_queued (render (pb_layout StatusSchema ComplianceTable lh) s) d =
     d\<lparr>sd_compliance := exec_policy_stmt lh s (sd_compliance d)\<rparr>"
  using small_queued_letter(2) [OF compliance_table_letter] by (simp only: exec_compliance_render)

lemma small_batches:
  "foldl (\<lambda>d x. small_queued x d) d (map (render (mc_layout StatusSchema ManagedClustersTable lh)) ss) =
     d\<lparr>sd_clusters := exec_cluster_stmts lh ss (sd_clusters d)\<rparr>"
  "foldl (\<lambda>d x. small_queued x d) d (map (render (pb_layout StatusSchema ComplianceTable lh)) ps) =
     d\<lparr>sd_compliance := exec_policy_stmts lh ps (sd_compliance d)\<rparr>"
  by (induction ss arbitrary: d) (simp_all add: small_queued_clusters del: small_queued.simps,
      induction ps arbitrary: d, simp_all add: small_queued_compliance del: small_queued.simps)

lemma small_clusters_laws: "clusters_table_laws small_pg sd_clusters"
  by (auto simp: clusters_table_laws_def small_pg_def small_query_def small_batches)

lemma small_compliance_laws: "compliance_table_laws small_pg sd_compliance"
  by (auto simp: compliance_table_laws_def small_pg_def small_query_def small_batches small_queries_differ
      not_sym [OF small_queries_differ(4)] not_sym [OF small_queries_differ(5)]
      not_sym [OF small_queries_differ(3)])

definition small_tables :: "small_db tables" where
  "small_tables = \<lparr>tb_clusters = sd_clusters, tb_compliance = sd_compliance, tb_aggregated = sd_aggregated\<rparr>"

lemma small_exec_keeps:
  "sd_clusters (snd (small_exec sql args d)) = sd_clusters d"
  "sd_compliance (snd (small_exec sql args d)) = sd_compliance d"
  by (cases "(sql, args, d)" rule: small_exec.cases; auto)+

lemma small_database_laws: "database_laws small_pg small_tables"
proof -
  have "tables_separate small_pg small_tables"
    by (auto simp: tables_separate_def small_pg_def small_tables_def small_batches keeps_aggregated_def
        small_exec_keeps)
  moreover have "\<exists>cols. ''policy_id'' \<in> cols \<and> aggregated_table_laws small_pg cols (tb_aggregated small_tables)"
    using small_aggregated_laws by (intro exI [of _ "{''policy_id''}"]) (simp add: small_tables_def)
  ultimately show ?thesis
    by (simp add: database_laws_def small_tables_def small_clusters_laws small_compliance_laws)
qed

end
