(* ===== verification/System_Properties.thy ===== *)
theory System_Properties
  imports Job_History Small_Database Bridge_Properties
begin

text \<open>
  Properties of the bridge together with its database, in any interleaving of the steps.
\<close>

section \<open>A concrete run\<close>

text \<open>One worker, which has received the job of a bundle of clusters per policy.\<close>

definition first_bundle :: status_bundle where
  "first_bundle = ClustersPerPolicyBundle
     \<lparr>cpb_Objects = [Some \<lparr>cpp_PolicyID = ''p'', cpp_Clusters = [''a'', ''b'']\<rparr>],
      cpb_LeafHubName = ''hub1'', cpb_Generation = 1\<rparr>"

definition to_worker :: "status_bundle \<Rightarrow> bridge_event list" where
  "to_worker b = [EvOffer 0, EvInsert b \<lparr>omd_ObjectID = ''hub1.x''\<rparr>, EvDispatch, EvDispatch, EvDispatch,
     EvDispatch, EvDispatch, EvReceive 0]"

definition rev_orders :: "string list map_orders" where
  "rev_orders = \<lparr>ord_clusters = rev, ord_policies = rev, ord_statuses = rev, ord_deletes = rev\<rparr>"

definition empty_db :: small_db where
  "empty_db = \<lparr>sd_clusters = [], sd_compliance = [], sd_aggregated = []\<rparr>"

text \<open>The steps of the bridge alone are steps of the system.\<close>

lemma sys_run_reachable:
  fixes S :: "'set go_sets" and P :: "status_bundle \<Rightarrow> bool"
  assumes "run_steps perform es (sys_bridge s) = Some (Inr t)"
    and "list_all bridge_step es" "list_all (\<lambda>e. inserts_only P (BridgeStep e :: 'set system_event)) es"
    and "sys_reachable conn S P s0 s"
  shows "sys_reachable conn S P s0 (s\<lparr>sys_bridge := t\<rparr>)"
  using assms
proof (induction es arbitrary: s)
  case (Cons e es)
  from Cons.prems(1) obtain t' where t': "perform e (sys_bridge s) = Some (Inr t')"
      "run_steps perform es t' = Some (Inr t)"
    by (auto split: option.splits sum.splits)
  have step: "sys_perform conn S (BridgeStep e) s = Some (Inr (s\<lparr>sys_bridge := t'\<rparr>))"
    using Cons.prems(2) t'(1) by simp
  have "sys_reachable conn S P s0 (s\<lparr>sys_bridge := t'\<rparr>)"
    by (rule sys_step [OF Cons.prems(4) _ step]) (use Cons.prems(3) in simp)
  from Cons.IH [OF _ _ _ this] t'(2) Cons.prems(2,3) show ?case by simp
next
  case Nil
  then have "s\<lparr>sys_bridge := t\<rparr> = s" by simp
  with Nil.prems(4) show ?case by simp
qed

definition bridge_run :: "status_bundle \<Rightarrow> bridge" where
  "bridge_run b = (case run_steps perform (to_worker b) (initial_bridge setup_registrations 1) of
     Some (Inr t) \<Rightarrow> t | _ \<Rightarrow> initial_bridge setup_registrations 1)"

definition system_run :: "status_bundle \<Rightarrow> small_db system" where
  "system_run b = (initial_system 1 empty_db)\<lparr>sys_bridge := bridge_run b\<rparr>"

lemma system_run_simps [simp]:
  "sys_db (system_run b) = empty_db" "sys_done (system_run b) = []"
  by (simp_all add: system_run_def initial_system_def)

lemma system_run_pc:
  "wk_pc (wp_workers (br_pool (sys_bridge (system_run first_bundle))) ! 0) =
     WorkerRunning \<lparr>job_bundle = Some first_bundle, job_bundleMetadata = Some 0,
       job_handlerFunc = ClustersPerPolicyHandler, job_resultReporter = ''hub1''\<rparr>"
  by code_simp

lemma system_run_workers: "length (wp_workers (br_pool (sys_bridge (system_run first_bundle)))) = 1"
  by code_simp

lemma system_run_reachable:
  assumes "P b" shows "sys_reachable conn S P (initial_system 1 empty_db) (system_run b)"
proof (cases "run_steps perform (to_worker b) (initial_bridge setup_registrations 1)")
  case (Some r)
  show ?thesis
  proof (cases r)
    case (Inr t)
    have "sys_reachable conn S P (initial_system 1 empty_db) ((initial_system 1 empty_db)\<lparr>sys_bridge := t\<rparr>)"
      by (rule sys_run_reachable [of "to_worker b"])
         (use Some Inr assms in \<open>simp_all add: initial_system_def to_worker_def sys_start\<close>)
    with Some Inr show ?thesis by (simp add: system_run_def bridge_run_def)
  qed (use Some in \<open>simp add: system_run_def bridge_run_def initial_system_def sys_start\<close>)
qed (simp add: system_run_def bridge_run_def initial_system_def sys_start)

lemma first_bundle_ok: "well_formed_bundle first_bundle" "no_nil_objects first_bundle"
  by (simp_all add: first_bundle_def no_nil_objects_def)

text \<open>Runs with a database that has no rows and accepts everything.\<close>

definition empty_pg :: "unit pg_conn" where
  "empty_pg = \<lparr>conn_Query = (\<lambda>_ _ _. (\<lparr>rows_scans = [], rows_err = None\<rparr>, None)),
     conn_QueryRow = (\<lambda>_ _ _. Inr False), conn_Exec = (\<lambda>_ _ d. (None, d)),
     conn_SendBatch = (\<lambda>_ d. (\<lambda>_. None, d))\<rparr>"

definition policies_bundle :: "u64 \<Rightarrow> status_bundle" where
  "policies_bundle g = ClustersPerPolicyBundle
     \<lparr>cpb_Objects = [], cpb_LeafHubName = ''hub1'', cpb_Generation = g\<rparr>"

definition status_bundle1 :: compliance_status_bundle where
  "status_bundle1 = \<lparr>csb_Objects = [], csb_LeafHubName = ''hub1'', csb_BaseBundleGeneration = 1,
     csb_Generation = 1\<rparr>"

lemma empty_policies_build:
  "pb_Build rev (NewPoliciesBatchBuilder StatusSchema ComplianceTable ''hub1'') = Inr []"
  by code_simp

lemma empty_policies_handled:
  "handler_function empty_pg list_sets rev_orders ClustersPerPolicyHandler (policies_bundle 1) () = Inr (None, ())"
  by (simp add: handleClustersPerPolicyBundle_def clusters_per_policy_rows_def policies_db_def GetComplianceStatusByLeafHub_def empty_pg_def
      rev_orders_def policies_bundle_def go_range_def empty_policies_build send_built_def SendBatch_def)

definition runs_job :: "bridge \<Rightarrow> status_bundle \<Rightarrow> bundle_handler \<Rightarrow> bool" where
  "runs_job t b h \<longleftrightarrow> length (wp_workers (br_pool t)) = 1 \<and>
     (case wk_pc (wp_workers (br_pool t) ! 0) of
        WorkerRunning j \<Rightarrow> job_bundle j = Some b \<and> job_handlerFunc j = h | _ \<Rightarrow> False)"

lemma runs_jobE:
  assumes "runs_job t b h"
  obtains j where "0 < length (wp_workers (br_pool t))" "wk_pc (wp_workers (br_pool t) ! 0) = WorkerRunning j"
    "job_bundle j = Some b" "job_handlerFunc j = h"
proof -
  have "0 < length (wp_workers (br_pool t))" using assms by (simp add: runs_job_def)
  moreover obtain j where "wk_pc (wp_workers (br_pool t) ! 0) = WorkerRunning j"
      "job_bundle j = Some b" "job_handlerFunc j = h"
    using assms by (auto simp: runs_job_def split: worker_pc.splits)
  ultimately show ?thesis by (rule that)
qed

definition first_job :: "bridge_event list" where
  "first_job = to_worker (policies_bundle 1) @ [EvFinish 0 None]"

lemma first_job_runs:
  "case run_steps perform (to_worker (policies_bundle 1)) bridge0 of
     Some (Inr t) \<Rightarrow> runs_job t (policies_bundle 1) ClustersPerPolicyHandler | _ \<Rightarrow> False"
  by code_simp

lemma second_policies_runs:
  "case run_steps perform (first_job @ to_worker (policies_bundle 2)) bridge0 of
     Some (Inr t) \<Rightarrow> runs_job t (policies_bundle 2) ClustersPerPolicyHandler | _ \<Rightarrow> False"
  by code_simp

lemma second_compliance_runs:
  "case run_steps perform (first_job @ to_worker (ComplianceStatusBundle status_bundle1)) bridge0 of
     Some (Inr t) \<Rightarrow> runs_job t (ComplianceStatusBundle status_bundle1) ComplianceHandler | _ \<Rightarrow> False"
  by code_simp

text \<open>A job from its arrival to the worker's report.\<close>

lemma worker_handle_eq:
  assumes "runs_job (sys_bridge s) b h" "handler_function conn S ord h b (sys_db s) = Inr (err, d')"
    and "perform (EvFinish 0 err) (sys_bridge s) = Some (Inr t)"
  shows "worker_handle conn S 0 ord s =
    Some (Inr \<lparr>sys_bridge = t, sys_db = d', sys_done = sys_done s @ [(b, err)]\<rparr>)"
  by (rule runs_jobE [OF assms(1)]) (use assms(2,3) in \<open>simp add: worker_handle_def del: perform.simps\<close>)

lemma first_job_done:
  assumes "P (policies_bundle 1)"
  obtains s where "run_steps perform first_job bridge0 = Some (Inr (sys_bridge s))"
    "sys_reachable empty_pg list_sets P (initial_system 1 ()) s" "sys_done s = [(policies_bundle 1, None)]"
proof -
  obtain t where t: "run_steps perform (to_worker (policies_bundle 1)) bridge0 = Some (Inr t)"
      "runs_job t (policies_bundle 1) ClustersPerPolicyHandler"
    using first_job_runs by (auto split: option.splits sum.splits)
  have init: "sys_bridge (initial_system 1 ()) = bridge0" by (simp add: initial_system_def bridge0_def)
  have r: "sys_reachable empty_pg list_sets P (initial_system 1 ()) ((initial_system 1 ())\<lparr>sys_bridge := t\<rparr>)"
    by (rule sys_run_reachable [of "to_worker (policies_bundle 1)"])
       (use t init assms in \<open>simp_all add: to_worker_def sys_start del: perform.simps run_steps.simps\<close>)
  obtain t' where t': "perform (EvFinish 0 None) t = Some (Inr t')"
    using second_policies_runs t(1)
    by (auto simp: first_job_def run_steps_append [OF t(1)] simp del: perform.simps split: option.splits sum.splits)
  show ?thesis
  proof (rule that)
    show "run_steps perform first_job bridge0 = Some (Inr (sys_bridge
        \<lparr>sys_bridge = t', sys_db = (), sys_done = [(policies_bundle 1, None)]\<rparr>))"
      using t' by (simp add: first_job_def run_steps_append [OF t(1)] del: perform.simps)
    show "sys_reachable empty_pg list_sets P (initial_system 1 ())
        \<lparr>sys_bridge = t', sys_db = (), sys_done = [(policies_bundle 1, None)]\<rparr>"
      by (rule sys_step [OF r, where e = "HandlerRun 0 rev_orders"])
         (simp_all add: worker_handle_eq [where h = ClustersPerPolicyHandler and b = "policies_bundle 1"
             and err = None and t = t' and d' = "()"] t(2) t' empty_policies_handled initial_system_def
           del: perform.simps handler_function.simps)
  qed simp
qed

lemma second_job_arrives:
  assumes "P (policies_bundle 1)" "P b"
    and "case run_steps perform (first_job @ to_worker b) bridge0 of
      Some (Inr t) \<Rightarrow> runs_job t b h | _ \<Rightarrow> False"
  obtains s where "sys_reachable empty_pg list_sets P (initial_system 1 ()) s"
    "runs_job (sys_bridge s) b h" "sys_done s = [(policies_bundle 1, None)]"
proof -
  obtain s where s: "run_steps perform first_job bridge0 = Some (Inr (sys_bridge s))"
    "sys_reachable empty_pg list_sets P (initial_system 1 ()) s" "sys_done s = [(policies_bundle 1, None)]"
    by (rule first_job_done [of P, OF assms(1)])
  from assms(3) obtain t where t: "run_steps perform (to_worker b) (sys_bridge s) = Some (Inr t)" "runs_job t b h"
    unfolding run_steps_append [OF s(1)] by (auto split: option.splits sum.splits)
  have "sys_reachable empty_pg list_sets P (initial_system 1 ()) (s\<lparr>sys_bridge := t\<rparr>)"
    by (rule sys_run_reachable [OF t(1) _ _ s(2)]) (use assms(2) in \<open>simp_all add: to_worker_def\<close>)
  then show ?thesis by (rule that) (use t(2) s(3) in simp_all)
qed

text \<open>The state after the handler of a running job, whatever the handler returned.\<close>

lemma job_done:
  assumes reach: "sys_reachable conn S P (initial_system n d) s" and P: "\<And>b. P b \<Longrightarrow> no_nil_objects b"
    and w: "w < length (wp_workers (br_pool (sys_bridge s)))"
      "wk_pc (wp_workers (br_pool (sys_bridge s)) ! w) = WorkerRunning j" "job_bundle j = Some b"
  obtains t err where "sys_reachable conn S P (initial_system n d) t" "sys_done t = sys_done s @ [(b, err)]"
proof -
  have ok: "sys_bridge_ok P s" by (rule sys_reachable_ok [OF reach P])
  have "worker_handle conn S w ord s \<noteq> None" for ord using w by (simp add: worker_handle_def)
  then obtain ord r where r: "worker_handle conn S w ord s = Some r" by blast
  have "\<exists>t. r = Inr t \<and> sys_bridge_ok P t"
    by (rule sys_perform_ok [OF ok, where e = "HandlerRun w ord" and conn = conn and S = S]) (use r P in simp_all)
  then obtain t where t: "r = Inr t" by blast
  obtain k c err where h: "job_at (sys_bridge s) (AtWorker w) = Some k" "job_bundle k = Some c"
      "t = \<lparr>sys_bridge = sys_bridge t, sys_db = sys_db t, sys_done = sys_done s @ [(c, err)]\<rparr>"
    by (rule worker_handle_job [OF ok r [unfolded t]])
  have "k = j" using h(1) w by (simp add: job_at_def worker_job_def)
  then have "c = b" using h(2) w(3) by simp
  moreover have "sys_done t = sys_done s @ [(c, err)]" by (subst h(3)) simp
  moreover have "sys_reachable conn S P (initial_system n d) t"
    by (rule sys_step [OF reach, where e = "HandlerRun w ord"]) (use r t in simp_all)
  ultimately show ?thesis using that by blast
qed

section \<open>Properties\<close>

text \<open>No step of the bridge with its database panics, as long as no bundle has a null object:
  whatever bundles arrive, however the steps interleave, whatever the database answers and in whatever
  order Go visits its maps, the handlers and the report of their results included.\<close>

theorem system_never_panics:
  assumes "sys_reachable conn S no_nil_objects (initial_system n d) s" "inserts_only no_nil_objects e"
  shows "sys_perform conn S e s \<noteq> Some (Inl p)"
  using sys_perform_ok [OF sys_reachable_ok [OF assms(1)] assms(2)] by fastforce

lemma system_never_panics_witness:
  "sys_perform small_pg list_sets (HandlerRun 0 rev_orders) (system_run first_bundle) \<noteq> Some (Inl NilDereference)"
  by (rule system_never_panics [OF system_run_reachable [of no_nil_objects, OF first_bundle_ok(2)]]) simp

text \<open>A job that a worker runs always comes to an end: in every reachable state the handler of the
  job's bundle returns, its result is reported to the conflation unit, the new database is the handler's,
  and the worker goes on to offer itself again.\<close>

theorem running_jobs_finish:
  assumes "sys_reachable conn S no_nil_objects (initial_system n d) s"
    and "w < length (wp_workers (br_pool (sys_bridge s)))"
      "wk_pc (wp_workers (br_pool (sys_bridge s)) ! w) = WorkerRunning j"
  shows "\<exists>b err t. sys_perform conn S (HandlerRun w ord) s = Some (Inr t) \<and> job_bundle j = Some b \<and>
    handler_function conn S ord (job_handlerFunc j) b (sys_db s) = Inr (err, sys_db t) \<and>
    sys_done t = sys_done s @ [(b, err)] \<and>
    wk_pc (wp_workers (br_pool (sys_bridge t)) ! w) = WorkerOffering"
proof -
  have ok: "sys_bridge_ok no_nil_objects s" by (rule sys_reachable_ok [OF assms(1)])
  have "job_at (sys_bridge s) (AtWorker w) = Some j" using assms(2,3) by (simp add: job_at_def worker_job_def)
  from job_handler [OF ok this] obtain b where b: "job_bundle j = Some b" by blast
  have "worker_handle conn S w ord s \<noteq> None" using assms(2,3) by (simp add: worker_handle_def)
  then obtain r where r: "worker_handle conn S w ord s = Some r" by blast
  have "\<exists>t. r = Inr t \<and> sys_bridge_ok no_nil_objects t"
    by (rule sys_perform_ok [OF ok, where e = "HandlerRun w ord" and conn = conn and S = S]) (use r in simp_all)
  with r obtain t where t: "worker_handle conn S w ord s = Some (Inr t)" by blast
  from t b assms(2,3) obtain err d' where h:
      "handler_function conn S ord (job_handlerFunc j) b (sys_db s) = Inr (err, d')"
    by (auto simp: worker_handle_def bind_go_eq_Inr)
  have "perform (EvFinish w err) (sys_bridge s) \<noteq> None" using assms(2,3) by (simp add: worker_finish_def)
  then obtain x where x: "perform (EvFinish w err) (sys_bridge s) = Some x" by blast
  with t b h assms(2,3) obtain t' where t': "x = Inr t'"
      "t = \<lparr>sys_bridge = t', sys_db = d', sys_done = sys_done s @ [(b, err)]\<rparr>"
    by (auto simp: worker_handle_def bind_go_eq_Inr simp del: perform.simps)
  have "wk_pc (wp_workers (br_pool t') ! w) = WorkerOffering"
    using x t'(1) assms(2,3) by (auto simp: worker_finish_def bind_go_eq_Inr set_worker_nth)
  with t t'(2) b h show ?thesis by (intro exI [of _ b] exI [of _ err] exI [of _ t]) simp
qed

lemma running_jobs_finish_witness:
  "\<exists>err t. sys_perform small_pg list_sets (HandlerRun 0 rev_orders) (system_run first_bundle) = Some (Inr t) \<and>
     sys_done t = [(first_bundle, err)]"
proof -
  have "0 < length (wp_workers (br_pool (sys_bridge (system_run first_bundle))))"
    by (simp add: system_run_workers)
  from running_jobs_finish [OF system_run_reachable [of no_nil_objects, OF first_bundle_ok(2)] this
      system_run_pc, of small_pg list_sets rev_orders]
  show ?thesis unfolding system_run_simps db_job.simps by (simp del: sys_perform.simps) blast
qed

text \<open>The database follows the history of the jobs. What it says of a leaf hub (the version of each
  cluster, the state of each pair of a policy and a cluster) is what the bundles of that leaf hub whose
  jobs have succeeded say, taken in the order of the history: failed jobs and jobs of other leaf hubs
  leave no trace. Its rows stay unique.\<close>

theorem database_follows_history:
  assumes "sets_laws S members" "database_laws conn tb" "tables_ok tb d0"
    and "sys_reachable conn S well_formed_bundle (initial_system n d0) s"
  shows "tables_ok tb (sys_db s) \<and>
    view tb (sys_db s) lh = spec_history lh (sys_done s) (view tb d0 lh)"
  using follows_history_reachable [OF assms] by (simp add: follows_history_def)

lemma database_follows_history_witness:
  "\<exists>t :: small_db system. \<exists>err. sys_done t = [(first_bundle, err)] \<and>
     view small_tables (sys_db t) ''hub1'' =
       spec_history ''hub1'' [(first_bundle, err)] (view small_tables empty_db ''hub1'')"
proof -
  have w: "0 < length (wp_workers (br_pool (sys_bridge (system_run first_bundle))))"
    by (simp add: system_run_workers)
  have reach: "sys_reachable small_pg list_sets well_formed_bundle (initial_system 1 empty_db)
      (system_run first_bundle)"
    by (rule system_run_reachable) (rule first_bundle_ok)
  obtain t err where t: "sys_reachable small_pg list_sets well_formed_bundle (initial_system 1 empty_db) t"
      "sys_done t = sys_done (system_run first_bundle) @ [(first_bundle, err)]"
    by (rule job_done [OF reach well_formed_no_nil w system_run_pc, of first_bundle]) simp_all
  have "tables_ok small_tables empty_db"
    by (simp add: tables_ok_def small_tables_def empty_db_def cluster_rows_def pair_rows_def agg_rows_def)
  note db = database_follows_history [OF list_sets_laws small_database_laws this t(1), of "''hub1''"]
  show ?thesis by (rule exI [of _ t], rule exI [of _ err]) (use db t(2) in simp)
qed

text \<open>The history is in the order of the generations. After a job has succeeded, every later job of
  the same leaf hub and bundle type, whether it succeeds or fails, has a strictly newer generation: no
  bundle is processed twice and none after a newer one.\<close>

theorem history_in_generation_order:
  assumes "sys_reachable conn S no_nil_objects (initial_system n d) s"
    and "i < j" "j < length (sys_done s)"
    and "sys_done s ! i = (b, None)" "sys_done s ! j = (c, err)"
    and "GetLeafHubName b = GetLeafHubName c" "GetBundleType b = GetBundleType c"
  shows "GetGeneration b < GetGeneration c"
proof -
  have "in_generation_order (sys_done s)" using history_reachable [OF assms(1)] by simp
  with assms(2-7) show ?thesis unfolding in_generation_order_def same_kind_def by blast
qed

lemma history_in_generation_order_witness:
  "\<exists>t :: unit system. \<exists>err. sys_done t = [(policies_bundle 1, None), (policies_bundle 2, err)] \<and>
     GetGeneration (policies_bundle 1) < GetGeneration (policies_bundle 2)"
proof -
  have nil: "no_nil_objects (policies_bundle g)" for g by (simp add: no_nil_objects_def policies_bundle_def)
  obtain s where s: "sys_reachable empty_pg list_sets no_nil_objects (initial_system 1 ()) s"
      "runs_job (sys_bridge s) (policies_bundle 2) ClustersPerPolicyHandler"
      "sys_done s = [(policies_bundle 1, None)]"
    by (rule second_job_arrives [of no_nil_objects, OF nil nil second_policies_runs])
  obtain j where j: "0 < length (wp_workers (br_pool (sys_bridge s)))"
      "wk_pc (wp_workers (br_pool (sys_bridge s)) ! 0) = WorkerRunning j" "job_bundle j = Some (policies_bundle 2)"
    by (rule runs_jobE [OF s(2)])
  obtain t err where t: "sys_reachable empty_pg list_sets no_nil_objects (initial_system 1 ()) t"
      "sys_done t = sys_done s @ [(policies_bundle 2, err)]"
    by (rule job_done [OF s(1) _ j]) simp_all
  have "GetGeneration (policies_bundle 1) < GetGeneration (policies_bundle 2)"
    by (rule history_in_generation_order [OF t(1), of 0 1 _ _ err])
       (simp_all add: t(2) s(3) policies_bundle_def)
  with t(2) s(3) show ?thesis by (intro exI [of _ t] exI [of _ err]) simp
qed

text \<open>A compliance bundle is handled only after its base: when its job finishes, a bundle of clusters
  per policy of the same leaf hub, of at least the base generation, has been handled successfully
  (or the base generation is zero).\<close>

theorem compliance_after_its_base:
  assumes "sys_reachable conn S no_nil_objects (initial_system n d) s"
    and "j < length (sys_done s)" "sys_done s ! j = (ComplianceStatusBundle c, err)"
    and "csb_BaseBundleGeneration c \<noteq> 0"
  shows "\<exists>i < j. \<exists>b. sys_done s ! i = (ClustersPerPolicyBundle b, None) \<and>
    cpb_LeafHubName b = csb_LeafHubName c \<and> csb_BaseBundleGeneration c \<le> cpb_Generation b"
proof -
  have "base_processed (take j (sys_done s)) (ComplianceStatusBundle c)"
    using history_reachable [OF assms(1)] assms(2,3) by (auto simp: bases_first_def)
  with assms(4) obtain b where b: "(b, None) \<in> set (take j (sys_done s))"
      "same_kind (csb_LeafHubName c) ''ClustersPerPolicyBundle'' b" "csb_BaseBundleGeneration c \<le> GetGeneration b"
    by (auto simp: base_processed_def succeeded_def)
  from b(1) assms(2) obtain i where i: "i < j" "sys_done s ! i = (b, None)"
    by (auto simp: in_set_conv_nth)
  with b(2,3) show ?thesis by (cases b) (auto simp: same_kind_def)
qed

lemma compliance_after_its_base_witness:
  "\<exists>t :: unit system. \<exists>err b. sys_done t ! 1 = (ComplianceStatusBundle status_bundle1, err) \<and>
     sys_done t ! 0 = (ClustersPerPolicyBundle b, None) \<and> 1 \<le> cpb_Generation b"
proof -
  have nil: "no_nil_objects (policies_bundle g)" "no_nil_objects (ComplianceStatusBundle status_bundle1)" for g
    by (simp_all add: no_nil_objects_def policies_bundle_def status_bundle1_def)
  obtain s where s: "sys_reachable empty_pg list_sets no_nil_objects (initial_system 1 ()) s"
      "runs_job (sys_bridge s) (ComplianceStatusBundle status_bundle1) ComplianceHandler"
      "sys_done s = [(policies_bundle 1, None)]"
    by (rule second_job_arrives [of no_nil_objects, OF nil second_compliance_runs])
  obtain j where j: "0 < length (wp_workers (br_pool (sys_bridge s)))"
      "wk_pc (wp_workers (br_pool (sys_bridge s)) ! 0) = WorkerRunning j"
      "job_bundle j = Some (ComplianceStatusBundle status_bundle1)"
    by (rule runs_jobE [OF s(2)])
  obtain t err where t: "sys_reachable empty_pg list_sets no_nil_objects (initial_system 1 ()) t"
      "sys_done t = sys_done s @ [(ComplianceStatusBundle status_bundle1, err)]"
    by (rule job_done [OF s(1) _ j]) simp_all
  have d: "1 < length (sys_done t)" "sys_done t ! 1 = (ComplianceStatusBundle status_bundle1, err)"
    by (simp_all add: t(2) s(3))
  have "csb_BaseBundleGeneration status_bundle1 \<noteq> 0" by (simp add: status_bundle1_def)
  from compliance_after_its_base [OF t(1) d this] obtain b where
    "sys_done t ! 0 = (ClustersPerPolicyBundle b, None)" "1 \<le> cpb_Generation b"
    by (auto simp: status_bundle1_def)
  with d(2) show ?thesis by (intro exI [of _ t] exI [of _ err] exI [of _ b]) simp
qed

end
