(* ===== verification/Interleaved_Properties.thy ===== *)
theory Interleaved_Properties
  imports Interleaved_History Run_Invariants System_Properties
begin

text \<open>
  Properties of the bridge together with its database when handlers are not atomic: the calls of the
  handlers of different workers interleave in any order.
\<close>

section \<open>Concrete states\<close>

text \<open>The states of the runs of \<open>System_Properties\<close>, with no handler entered.\<close>

lemma interleaved_run_reachable:
  assumes "P first_bundle" "\<And>b. P b \<Longrightarrow> no_nil_objects b"
  shows "il_reachable small_pg list_sets P (initial_interleaved 1 empty_db) (with_no_runs (system_run first_bundle))"
  by (rule atomic_is_interleaved [OF system_run_reachable assms(2)]) (rule assms(1))

lemma with_no_runs_simps [simp]:
  "il_system (with_no_runs s) = s" "il_runs (with_no_runs s) = (\<lambda>_. None)" "hub_idle (with_no_runs s) lh"
  by (simp_all add: with_no_runs_def hub_idle_def)

text \<open>Two workers, which have received the jobs of two leaf hubs.\<close>

definition second_bundle :: status_bundle where
  "second_bundle = ManagedClustersStatusBundle
     \<lparr>mcb_Objects = [Some \<lparr>mc_name = ''c'', mc_resourceVersion = ''7'', mc_body = ''b''\<rparr>], mcb_LeafHubName = ''hub2'',
      mcb_Generation = 1\<rparr>"

definition two_workers :: "bridge_event list" where
  "two_workers = [EvOffer 0, EvOffer 1, EvInsert first_bundle \<lparr>omd_ObjectID = ''hub1.x''\<rparr>,
     EvInsert second_bundle \<lparr>omd_ObjectID = ''hub2.x''\<rparr>, EvDispatch, EvDispatch, EvDispatch, EvDispatch,
     EvDispatch, EvDispatch, EvDispatch, EvDispatch, EvDispatch, EvDispatch, EvReceive 0, EvReceive 1]"

lemma two_workers_run:
  "case run_steps perform two_workers (initial_bridge setup_registrations 2) of
     Some (Inr t) \<Rightarrow> map_option job_bundle (running_job t 0) = Some (Some first_bundle) \<and>
       map_option job_handlerFunc (running_job t 0) = Some ClustersPerPolicyHandler \<and>
       map_option job_bundle (running_job t 1) = Some (Some second_bundle)
   | _ \<Rightarrow> False"
  by code_simp

lemma two_jobs_run:
  assumes "P first_bundle" "P second_bundle" "\<And>b. P b \<Longrightarrow> no_nil_objects b"
  obtains s j k where "il_reachable small_pg list_sets P (initial_interleaved 2 empty_db) (with_no_runs s)"
    "running_job (sys_bridge s) 0 = Some j" "job_bundle j = Some first_bundle"
    "running_job (sys_bridge s) 1 = Some k" "job_bundle k = Some second_bundle" "sys_done s = []"
proof -
  obtain t where t: "run_steps perform two_workers (initial_bridge setup_registrations 2) = Some (Inr t)"
    and jobs: "map_option job_bundle (running_job t 0) = Some (Some first_bundle)"
      "map_option job_bundle (running_job t 1) = Some (Some second_bundle)"
    using two_workers_run by (auto split: option.splits sum.splits)
  have "sys_reachable small_pg list_sets P (initial_system 2 empty_db) ((initial_system 2 empty_db)\<lparr>sys_bridge := t\<rparr>)"
    by (rule sys_run_reachable [of two_workers])
       (use t assms(1,2) in \<open>simp_all add: initial_system_def two_workers_def sys_start del: perform.simps run_steps.simps\<close>)
  from atomic_is_interleaved [OF this assms(3)] jobs that show ?thesis
    by (auto simp: initial_system_def)
qed

lemma il_reachable_history:
  assumes "il_reachable conn S no_nil_objects (initial_interleaved n d) s"
  shows "history_ok (il_system s)"
  by (rule il_safeD(3) [OF il_reachable_safe [OF assms]])

lemma empty_db_ok: "tables_ok small_tables empty_db"
  by (simp add: tables_ok_def small_tables_def empty_db_def cluster_rows_def pair_rows_def agg_rows_def)

section \<open>Properties\<close>

text \<open>C2: The database follows the history of the jobs, even though handlers are not atomic. Whenever no
  handler is at work on a leaf hub, what the database says of it (the version of each cluster, the state
  of each pair of a policy and a cluster) is what the bundles of that leaf hub whose jobs have succeeded
  say, taken in the order of the history: failed jobs, jobs of other leaf hubs and handlers that are in
  between their calls for other leaf hubs leave no trace. The aggregated rows of each policy are those
  the last successful minimal compliance bundle reports, except for the policies that a later failed one
  has reached. The rows stay unique at all times.\<close>

theorem interleaved_database_follows_history:
  assumes "sets_laws S members" "database_laws conn tb" "tables_ok tb d0"
    and "il_reachable conn S well_formed_bundle (initial_interleaved n d0) s"
  shows "tables_ok tb (sys_db (il_system s)) \<and>
    (hub_idle s lh \<longrightarrow>
       view tb (sys_db (il_system s)) lh = spec_history lh (sys_done (il_system s)) (view tb d0 lh) \<and>
       agg_history lh (agg_view tb d0 lh) (sys_done (il_system s)) (agg_view tb (sys_db (il_system s)) lh))"
  using data_invD(1,3,4) [OF il_reachable_inv [OF assms]] by blast

text \<open>
  In the witness the handler of the first leaf hub has read the database; then the whole handler of the
  second leaf hub runs; then the first one sends its batch.
\<close>

lemma interleaved_database_follows_history_witness:
  "\<exists>s :: small_db interleaved. \<exists>err1 err2.
     sys_done (il_system s) = [(second_bundle, err2), (first_bundle, err1)] \<and>
     view small_tables (sys_db (il_system s)) ''hub1'' = spec_history ''hub1''
       [(second_bundle, err2), (first_bundle, err1)] (view small_tables empty_db ''hub1'')"
proof -
  have wf: "well_formed_bundle first_bundle" "well_formed_bundle second_bundle"
    by (simp_all add: first_bundle_def second_bundle_def)
  obtain s j k where s: "il_reachable small_pg list_sets well_formed_bundle (initial_interleaved 2 empty_db) (with_no_runs s)"
    "running_job (sys_bridge s) 0 = Some j" "job_bundle j = Some first_bundle"
    "running_job (sys_bridge s) 1 = Some k" "job_bundle k = Some second_bundle" "sys_done s = []"
    by (rule two_jobs_run [of well_formed_bundle, OF wf well_formed_no_nil])
  let ?run = "handler_run small_pg list_sets rev_orders (job_handlerFunc j) first_bundle"
  let ?s1 = "(with_no_runs s)\<lparr>il_runs := (\<lambda>_. None)(0 \<mapsto> ?run)\<rparr>"
  have s1: "il_reachable small_pg list_sets well_formed_bundle (initial_interleaved 2 empty_db) ?s1"
    by (rule il_step [OF s(1), where e = "HandlerEnter 0 rev_orders"]) (use s(2,3) in \<open>simp_all add: handler_enter_def\<close>)
  obtain f where f: "?run = Calling f"
    by (cases "job_handlerFunc j")
       (auto simp: managed_clusters_run_def clusters_per_policy_run_def compliance_run_def minimal_compliance_run_def
         query_call_def)
  let ?s2 = "?s1\<lparr>il_system := s\<lparr>sys_db := snd (f (sys_db s))\<rparr>, il_runs := (\<lambda>_. None)(0 \<mapsto> fst (f (sys_db s)))\<rparr>"
  have s2: "il_reachable small_pg list_sets well_formed_bundle (initial_interleaved 2 empty_db) ?s2"
    by (rule il_step [OF s1, where e = "HandlerCall 0"]) (use f in \<open>simp_all add: handler_call_def\<close>)
  have two: "running_job (sys_bridge (il_system ?s2)) 1 = Some k" using s(4) by simp
  obtain t1 err2 where t1: "il_reachable small_pg list_sets well_formed_bundle (initial_interleaved 2 empty_db) t1"
    "sys_done (il_system t1) = [(second_bundle, err2)]" "il_runs t1 = (il_runs ?s2)(1 := None)"
    "running_job (sys_bridge (il_system t1)) 0 = Some j"
    by (rule worker_finishes [OF s2 well_formed_no_nil two]) (use s(2,5,6) in auto)
  obtain t2 err1 where t2: "il_reachable small_pg list_sets well_formed_bundle (initial_interleaved 2 empty_db) t2"
    "sys_done (il_system t2) = [(second_bundle, err2), (first_bundle, err1)]" "il_runs t2 = (il_runs t1)(0 := None)"
    by (rule worker_finishes [OF t1(1) well_formed_no_nil t1(4)]) (use s(3) t1(2) in auto)
  have idle: "hub_idle t2 ''hub1''" by (simp add: hub_idle_def t2(3) t1(3))
  note db = interleaved_database_follows_history [OF list_sets_laws small_database_laws empty_db_ok t2(1), of "''hub1''"]
  show ?thesis by (rule exI [of _ t2], rule exI [of _ err1], rule exI [of _ err2]) (use db t2(2) idle in simp)
qed

text \<open>C4: On a table whose policy column is not called \<open>id\<close>, so that the database refuses the statements that
  use this name, the aggregated numbers never arrive. As long as no bundle has a nil object, however the
  handlers interleave and whatever else is handled, every job with a minimal compliance bundle that lists
  a policy has ended in an error, and at all times every row of the table of aggregated compliance, which
  the statements for the other tables leave alone, is one that it had at the start.\<close>

theorem missing_id_column_blocks_reports:
  assumes "aggregated_table_laws conn cols (tb_aggregated tb)" "''id'' \<notin> cols" "tables_separate conn tb"
    and "il_reachable conn S no_nil_objects (initial_interleaved n d0) s"
  shows "(\<forall>m err. (MinimalComplianceStatusBundle m, err) \<in> set (sys_done (il_system s)) \<longrightarrow> msb_Objects m \<noteq> [] \<longrightarrow>
      err \<noteq> None) \<and>
    set (tb_aggregated tb (sys_db (il_system s))) \<subseteq> set (tb_aggregated tb d0)"
proof -
  let ?rows = "\<lambda>d. set (tb_aggregated tb d)"
  let ?R = "\<lambda>b err. \<forall>m. b = MinimalComplianceStatusBundle m \<longrightarrow> msb_Objects m \<noteq> [] \<longrightarrow> err \<noteq> None"
  have "?rows (sys_db (il_system s)) \<subseteq> ?rows d0 \<and> runs_inv (\<lambda>d d'. ?rows d' \<subseteq> ?rows d) ?R s"
  proof (rule il_reachable_runs [OF assms(4)])
    fix b ord assume b: "no_nil_objects b"
    show "run_all (\<lambda>d d'. ?rows d' \<subseteq> ?rows d) (?R b) (handler_run conn S ord (handler_of b) b)"
    proof (cases "\<exists>m. b = MinimalComplianceStatusBundle m")
      case True
      then obtain m where m: "b = MinimalComplianceStatusBundle m" by blast
      from minimal_run_without_id [OF assms(1,2) b [unfolded m], where C = "\<lambda>d d'. ?rows d' \<subseteq> ?rows d"]
      show ?thesis by (simp add: m)
    next
      case False
      then show ?thesis by (intro batch_handlers_keep_aggregated [OF assms(3) b]) auto
    qed
  qed auto
  then show ?thesis unfolding runs_inv_def by blast
qed

text \<open>In the witness a worker has handled a minimal compliance bundle.\<close>

definition minimal_bundle1 :: minimal_compliance_status_bundle where
  "minimal_bundle1 = \<lparr>msb_Objects = [Some \<lparr>mpc_PolicyID = ''q'', mpc_AppliedClusters = 3,
     mpc_NonCompliantClusters = 2\<rparr>], msb_LeafHubName = ''hub1'', msb_Generation = 1\<rparr>"

lemma minimal_job_runs:
  "runs_job (sys_bridge (system_run (MinimalComplianceStatusBundle minimal_bundle1)))
     (MinimalComplianceStatusBundle minimal_bundle1) MinimalComplianceHandler"
  by code_simp

lemma missing_id_column_blocks_reports_witness:
  "\<exists>s :: small_db interleaved. \<exists>err.
     sys_done (il_system s) = [(MinimalComplianceStatusBundle minimal_bundle1, Some err)] \<and>
     sd_aggregated (sys_db (il_system s)) = []"
proof -
  let ?b = "MinimalComplianceStatusBundle minimal_bundle1" and ?s = "system_run (MinimalComplianceStatusBundle minimal_bundle1)"
  have nil: "no_nil_objects ?b" by (simp add: minimal_bundle1_def no_nil_objects_def)
  have il: "il_reachable small_pg list_sets no_nil_objects (initial_interleaved 1 empty_db) (with_no_runs ?s)"
    by (rule atomic_is_interleaved [OF system_run_reachable [where P = no_nil_objects, OF nil]])
  obtain j where j: "running_job (sys_bridge (il_system (with_no_runs ?s))) 0 = Some j" "job_bundle j = Some ?b"
    by (rule runs_jobE [OF minimal_job_runs]) (auto simp: running_job_def)
  obtain t err where t: "il_reachable small_pg list_sets no_nil_objects (initial_interleaved 1 empty_db) t"
      "sys_done (il_system t) = [(?b, err)]"
    by (rule worker_finishes [OF il _ j(1)]) (use j(2) in auto)
  have sep: "tables_separate small_pg small_tables" using small_database_laws by (simp add: database_laws_def)
  have laws: "aggregated_table_laws small_pg {''policy_id''} (tb_aggregated small_tables)"
    using small_aggregated_laws by (simp add: small_tables_def)
  from missing_id_column_blocks_reports [OF laws _ sep t(1)] t(2) show ?thesis
    by (intro exI [of _ t] exI [of _ "the err"])
       (auto simp: minimal_bundle1_def small_tables_def empty_db_def)
qed

text \<open>No step of the bridge panics, as long as no bundle has a null object: whatever bundles arrive,
  however the calls of the handlers interleave, whatever the database answers to each of them and in
  whatever order Go visits its maps.\<close>

theorem interleaved_system_never_panics:
  assumes "il_reachable conn S no_nil_objects (initial_interleaved n d) s" "il_inserts_only no_nil_objects e"
  shows "il_perform conn S e s \<noteq> Some (Inl p)"
  using il_perform_safe [OF il_reachable_safe [OF assms(1)] _ assms(2)] by fastforce

lemma interleaved_system_never_panics_witness:
  "il_perform small_pg list_sets (HandlerEnter 0 rev_orders) (with_no_runs (system_run first_bundle)) \<noteq>
     Some (Inl NilDereference)"
  by (rule interleaved_system_never_panics [OF interleaved_run_reachable]) (simp_all add: first_bundle_ok)

text \<open>C9: The history is in the order of the generations. After a job has succeeded, every later job of
  the same leaf hub and bundle type, whether it succeeds or fails, has a strictly newer generation: no
  bundle is processed twice and none after a newer one.\<close>

theorem interleaved_history_in_generation_order:
  assumes "il_reachable conn S no_nil_objects (initial_interleaved n d) s"
    and "i < j" "j < length (sys_done (il_system s))"
    and "sys_done (il_system s) ! i = (b, None)" "sys_done (il_system s) ! j = (c, err)"
    and "GetLeafHubName b = GetLeafHubName c" "GetBundleType b = GetBundleType c"
  shows "GetGeneration b < GetGeneration c"
proof -
  have "in_generation_order (sys_done (il_system s))"
    using il_reachable_history [OF assms(1)] by (simp add: history_ok_def)
  with assms(2-7) show ?thesis unfolding in_generation_order_def same_kind_def by blast
qed

lemma interleaved_history_in_generation_order_witness:
  "\<exists>s :: unit interleaved. \<exists>err. sys_done (il_system s) = [(policies_bundle 1, None), (policies_bundle 2, err)] \<and>
     GetGeneration (policies_bundle 1) < GetGeneration (policies_bundle 2)"
proof -
  have nil: "no_nil_objects (policies_bundle g)" for g by (simp add: no_nil_objects_def policies_bundle_def)
  obtain s where s: "sys_reachable empty_pg list_sets no_nil_objects (initial_system 1 ()) s"
      "runs_job (sys_bridge s) (policies_bundle 2) ClustersPerPolicyHandler"
      "sys_done s = [(policies_bundle 1, None)]"
    by (rule second_job_arrives [of no_nil_objects, OF nil nil second_policies_runs])
  obtain j where j: "0 < length (wp_workers (br_pool (sys_bridge s)))"
      "wk_pc (wp_workers (br_pool (sys_bridge s)) ! 0) = WorkerRunning j" "job_bundle j = Some (policies_bundle 2)"
    by (rule runs_jobE [OF s(2)])
  obtain t err where t: "sys_reachable empty_pg list_sets no_nil_objects (initial_system 1 ()) t"
      "sys_done t = sys_done s @ [(policies_bundle 2, err)]"
    by (rule job_done [OF s(1) _ j]) simp_all
  have il: "il_reachable empty_pg list_sets no_nil_objects (initial_interleaved 1 ()) (with_no_runs t)"
    by (rule atomic_is_interleaved [OF t(1)])
  have "GetGeneration (policies_bundle 1) < GetGeneration (policies_bundle 2)"
    by (rule interleaved_history_in_generation_order [OF il, of 0 1 _ _ err])
       (simp_all add: t(2) s(3) policies_bundle_def)
  with t(2) s(3) show ?thesis by (intro exI [of _ "with_no_runs t"] exI [of _ err]) simp
qed

text \<open>C10: A compliance bundle is handled only after its base: when its job finishes, a bundle of clusters
  per policy of the same leaf hub, of at least the base generation, has been handled successfully
  (or the base generation is zero).\<close>

theorem interleaved_compliance_after_its_base:
  assumes "il_reachable conn S no_nil_objects (initial_interleaved n d) s"
    and "j < length (sys_done (il_system s))" "sys_done (il_system s) ! j = (ComplianceStatusBundle c, err)"
    and "csb_BaseBundleGeneration c \<noteq> 0"
  shows "\<exists>i < j. \<exists>b. sys_done (il_system s) ! i = (ClustersPerPolicyBundle b, None) \<and>
    cpb_LeafHubName b = csb_LeafHubName c \<and> csb_BaseBundleGeneration c \<le> cpb_Generation b"
proof -
  let ?done = "sys_done (il_system s)"
  have "base_processed (take j ?done) (ComplianceStatusBundle c)"
    using il_reachable_history [OF assms(1)] assms(2,3) by (auto simp: history_ok_def bases_first_def)
  with assms(4) obtain b where b: "(b, None) \<in> set (take j ?done)"
      "same_kind (csb_LeafHubName c) ''ClustersPerPolicyBundle'' b" "csb_BaseBundleGeneration c \<le> GetGeneration b"
    by (auto simp: base_processed_def succeeded_def)
  from b(1) assms(2) obtain i where i: "i < j" "?done ! i = (b, None)"
    by (auto simp: in_set_conv_nth)
  with b(2,3) show ?thesis by (cases b) (auto simp: same_kind_def)
qed

lemma interleaved_compliance_after_its_base_witness:
  "\<exists>s :: unit interleaved. \<exists>err b. sys_done (il_system s) ! 1 = (ComplianceStatusBundle status_bundle1, err) \<and>
     sys_done (il_system s) ! 0 = (ClustersPerPolicyBundle b, None) \<and> 1 \<le> cpb_Generation b"
proof -
  have nil: "no_nil_objects (policies_bundle g)" "no_nil_objects (ComplianceStatusBundle status_bundle1)" for g
    by (simp_all add: no_nil_objects_def policies_bundle_def status_bundle1_def)
  obtain s where s: "sys_reachable empty_pg list_sets no_nil_objects (initial_system 1 ()) s"
      "runs_job (sys_bridge s) (ComplianceStatusBundle status_bundle1) ComplianceHandler"
      "sys_done s = [(policies_bundle 1, None)]"
    by (rule second_job_arrives [of no_nil_objects, OF nil second_compliance_runs])
  obtain j where j: "0 < length (wp_workers (br_pool (sys_bridge s)))"
      "wk_pc (wp_workers (br_pool (sys_bridge s)) ! 0) = WorkerRunning j"
      "job_bundle j = Some (ComplianceStatusBundle status_bundle1)"
    by (rule runs_jobE [OF s(2)])
  obtain t err where t: "sys_reachable empty_pg list_sets no_nil_objects (initial_system 1 ()) t"
      "sys_done t = sys_done s @ [(ComplianceStatusBundle status_bundle1, err)]"
    by (rule job_done [OF s(1) _ j]) simp_all
  have il: "il_reachable empty_pg list_sets no_nil_objects (initial_interleaved 1 ()) (with_no_runs t)"
    by (rule atomic_is_interleaved [OF t(1)])
  have d: "1 < length (sys_done t)" "sys_done t ! 1 = (ComplianceStatusBundle status_bundle1, err)"
    by (simp_all add: t(2) s(3))
  have "csb_BaseBundleGeneration status_bundle1 \<noteq> 0" by (simp add: status_bundle1_def)
  from interleaved_compliance_after_its_base [OF il _ _ this] d obtain b where
    "sys_done t ! 0 = (ClustersPerPolicyBundle b, None)" "1 \<le> cpb_Generation b"
    by (auto simp: status_bundle1_def)
  with d(2) show ?thesis by (intro exI [of _ "with_no_runs t"] exI [of _ err] exI [of _ b]) simp
qed

text \<open>C11: A job that a worker runs always comes to an end: in every reachable state, wherever its handler
  is, the worker's own steps lead to the return of the handler, the report of its result and the worker
  offering itself again. No other goroutine has to act, and nothing the others have done blocks it.\<close>

theorem interleaved_jobs_finish:
  assumes "il_reachable conn S no_nil_objects (initial_interleaved n d) s"
    and "running_job (sys_bridge (il_system s)) w = Some j"
  shows "\<exists>es t b err. set es \<subseteq> {HandlerEnter w ord, HandlerCall w, HandlerReturn w} \<and>
    run_steps (il_perform conn S) es s = Some (Inr t) \<and> job_bundle j = Some b \<and>
    sys_done (il_system t) = sys_done (il_system s) @ [(b, err)] \<and> il_runs t w = None \<and>
    wk_pc (wp_workers (br_pool (sys_bridge (il_system t))) ! w) = WorkerOffering"
  by (rule worker_finishes [where ord = ord, OF assms(1) _ assms(2)]) (simp_all, metis fun_upd_same)

lemma interleaved_jobs_finish_witness:
  "\<exists>es t err. set es \<subseteq> {HandlerEnter 0 rev_orders, HandlerCall 0, HandlerReturn 0} \<and>
     run_steps (il_perform small_pg list_sets) es (with_no_runs (system_run first_bundle)) = Some (Inr t) \<and>
     sys_done (il_system t) = [(first_bundle, err)]"
proof -
  let ?s = "with_no_runs (system_run first_bundle)"
  have reach: "il_reachable small_pg list_sets no_nil_objects (initial_interleaved 1 empty_db) ?s"
    by (rule interleaved_run_reachable) (simp_all add: first_bundle_ok)
  have "running_job (sys_bridge (il_system ?s)) 0 = Some \<lparr>job_bundle = Some first_bundle,
      job_bundleMetadata = Some 0, job_handlerFunc = ClustersPerPolicyHandler, job_resultReporter = ''hub1''\<rparr>"
    by (simp add: running_job_def system_run_workers system_run_pc)
  from interleaved_jobs_finish [OF reach this, of rev_orders] show ?thesis
    unfolding with_no_runs_simps system_run_simps db_job.simps by (simp del: il_perform.simps) blast
qed

end
