(* ===== verification/Process_Properties.thy ===== *)
theory Process_Properties
  imports Process_System Interleaved_Properties
begin

text \<open>
  Properties of the whole process, from its start-up to the rows of the database, while the runtime
  manager runs.
\<close>

section \<open>A concrete run\<close>

text \<open>An object arrives, is decoded, and its bundle goes all the way to the database.\<close>

definition sample_unmarshal :: "string \<Rightarrow> status_bundle \<Rightarrow> go_error + status_bundle" where
  "sample_unmarshal buffer b0 =
     (if GetBundleType b0 = GetBundleType first_bundle then Inr first_bundle else Inl ''unexpected end of JSON input'')"

lemma sample_decodes: "decodes P sample_unmarshal \<longleftrightarrow> P first_bundle"
  by (force simp: decodes_def sample_unmarshal_def)

text \<open>The transport is ready and would deliver the bundle for the object.\<close>

definition deliverable ::
  "(string \<Rightarrow> status_bundle \<Rightarrow> go_error + status_bundle) \<Rightarrow> 'd process \<Rightarrow> status_bundle \<Rightarrow> object_meta_data \<Rightarrow> bool" where
  "deliverable unmarshal p b m \<longleftrightarrow> ss_started (prc_transport p) \<and> \<not> ss_returned (prc_transport p) \<and>
     \<not> ss_metaChanClosed (prc_transport p) \<and>
     receive_object unmarshal (ss_msgIDToRegistrationMap (prc_transport p)) (prc_config p) (Some m) (Some ''x'') =
       Inr (BundleReceived b)"

lemma deliver_step:
  assumes "deliverable unmarshal p b m" "perform (EvInsert b m) (sys_bridge (il_system (prc_bridge p))) = Some (Inr s)"
  shows "process_perform dt unmarshal conn S (TransportRound (TakeObject (Some m) (Some ''x''))) p =
    Some (Inr (p\<lparr>prc_transport := (prc_transport p)\<lparr>ss_acknowledged := ss_acknowledged (prc_transport p) @ [m]\<rparr>,
      prc_bridge := (prc_bridge p)\<lparr>il_system := (il_system (prc_bridge p))\<lparr>sys_bridge := s\<rparr>\<rparr>\<rparr>))"
proof -
  have "transport_insert b m (prc_bridge p) = Inr ((prc_bridge p)\<lparr>il_system := (il_system (prc_bridge p))\<lparr>sys_bridge := s\<rparr>\<rparr>)"
    using assms(2) by (auto simp: transport_insert_def Let_def bind_go_eq_Inr)
  with assms(1) show ?thesis by (simp add: deliverable_def handle_bundles_step_def)
qed

text \<open>A run of the bridge whose bundles the transport would deliver is a run of the process.\<close>

lemma bridge_run_in_process:
  assumes "process_reachable dt unmarshal conn S ok p0 p"
    and "\<And>e. ok (BridgeEvent e)" "\<And>c. ok (TransportRound c)"
    and "run_steps perform es (sys_bridge (il_system (prc_bridge p))) = Some (Inr s)" "list_all bridge_step es"
    and "\<And>b m. EvInsert b m \<in> set es \<Longrightarrow> deliverable unmarshal p b m"
  obtains q where "process_reachable dt unmarshal conn S ok p0 q"
    "prc_bridge q = (prc_bridge p)\<lparr>il_system := (il_system (prc_bridge p))\<lparr>sys_bridge := s\<rparr>\<rparr>"
  using assms(1,4-6)
proof (induction es arbitrary: p thesis)
  case Nil
  from Nil.prems(1) [OF Nil.prems(2)] Nil.prems(3) show ?case by simp
next
  case (Cons e es)
  from Cons.prems(3) obtain u where u: "perform e (sys_bridge (il_system (prc_bridge p))) = Some (Inr u)"
      "run_steps perform es u = Some (Inr s)"
    by (auto simp del: perform.simps split: option.splits sum.splits)
  let ?b = "(prc_bridge p)\<lparr>il_system := (il_system (prc_bridge p))\<lparr>sys_bridge := u\<rparr>\<rparr>"
  obtain q where q: "process_reachable dt unmarshal conn S ok p0 q" "prc_bridge q = ?b"
      "\<And>b m. deliverable unmarshal p b m \<Longrightarrow> deliverable unmarshal q b m"
  proof (cases "\<exists>b m. e = EvInsert b m")
    case True
    then obtain b m where e: "e = EvInsert b m" by blast
    have "deliverable unmarshal p b m" by (rule Cons.prems(5)) (simp add: e)
    from process_step [OF Cons.prems(2) assms(3) deliver_step [OF this u(1) [unfolded e]]] that show ?thesis
      by (simp add: deliverable_def)
  next
    case False
    then have "\<not> is_insert (OtherStep e)" by (cases e) simp_all
    then have "process_perform dt unmarshal conn S (BridgeEvent (OtherStep e)) p = Some (Inr (p\<lparr>prc_bridge := ?b\<rparr>))"
      using u(1) Cons.prems(4) by (simp del: perform.simps)
    from process_step [OF Cons.prems(2) assms(2) this] that show ?thesis by (simp add: deliverable_def)
  qed
  show ?case
    by (rule Cons.IH [OF _ q(1)]) (use Cons.prems(1,4,5) u(2) q(2,3) in simp_all)
qed

text \<open>Steps of the bridge that insert nothing are steps of the process.\<close>

lemma handler_run_in_process:
  assumes "process_reachable dt unmarshal conn S ok p0 p" "\<And>e. ok (BridgeEvent e)"
    and "run_steps (il_perform conn S) es (prc_bridge p) = Some (Inr s)" "list_all (\<lambda>e. \<not> is_insert e) es"
  shows "process_reachable dt unmarshal conn S ok p0 (p\<lparr>prc_bridge := s\<rparr>)"
  using assms(1,3,4)
proof (induction es arbitrary: p)
  case (Cons e es)
  from Cons.prems(2) obtain u where u: "il_perform conn S e (prc_bridge p) = Some (Inr u)"
      "run_steps (il_perform conn S) es u = Some (Inr s)"
    by (auto simp del: il_perform.simps split: option.splits sum.splits)
  have "process_perform dt unmarshal conn S (BridgeEvent e) p = Some (Inr (p\<lparr>prc_bridge := u\<rparr>))"
    using u(1) Cons.prems(3) by (simp del: il_perform.simps)
  from Cons.IH [OF process_step [OF Cons.prems(1) assms(2) this]] u(2) Cons.prems(3) show ?case by simp
next
  case Nil
  then have "p\<lparr>prc_bridge := s\<rparr> = p" by simp
  with Nil.prems(1) show ?case by simp
qed

text \<open>The process of the sample environment.\<close>

lemma sample_process:
  obtains c where "createManager sample_types good_calls sample_env sample_pool = Created c"
    "prc_bridge (started_process c d) = initial_interleaved 4 d" "prc_config (started_process c d) = ''full''"
    "deliverable sample_unmarshal (started_process c d) first_bundle \<lparr>omd_ObjectID = ''hub1.ClustersPerPolicy''\<rparr>"
proof -
  obtain t s where ts: "createManager sample_types good_calls sample_env sample_pool = Created (''full'', t, s)"
    using sample_created by blast
  obtain t0 where t0: "NewSyncService sample_env = Inr t0" "t = setup_transport sample_types t0"
    "s = \<lparr>br_dispatcher = NewDispatcher, br_manager = foldl Register NewConflationManager setup_registrations,
          br_readyQueue = NewConflationReadyQueue, br_pool = sample_pool\<rparr>"
    by (rule createManager_Created [OF ts])
  have dist: "distinct (msg_keys sample_types)" by (simp add: msg_keys_def sample_types_def)
  have key: "dt_ClustersPerPolicyMsgKey sample_types = ''ClustersPerPolicy''" "dt_Full sample_types = ''full''"
    by (simp_all add: sample_types_def)
  have "go_split CHR ''.'' ''hub1.ClustersPerPolicy'' ! Suc 0 = ''ClustersPerPolicy''" by code_simp
  then have rcv: "receive_object sample_unmarshal (ss_msgIDToRegistrationMap t) ''full''
      (Some \<lparr>omd_ObjectID = ''hub1.ClustersPerPolicy''\<rparr>) (Some ''x'') = Inr (BundleReceived first_bundle)"
    by (simp add: receive_object_def go_split_index_cases t0(2) setup_transport_map(2) [OF dist, unfolded key]
        sample_unmarshal_def NewClustersPerPolicyBundle_def first_bundle_def)
  have fresh: "\<not> ss_returned t" "\<not> ss_metaChanClosed t"
    using t0(1) by (auto simp: t0(2) NewSyncService_def setup_transport_def syncers_def Let_def ss_Register_def
        split: sum.splits)
  show ?thesis
    by (rule that [OF ts])
       (use rcv fresh t0(3) in \<open>simp_all add: started_process_def initial_interleaved_def initial_system_def
          initial_bridge_def sample_pool_def deliverable_def ss_Start_def\<close>)
qed

definition sample_steps :: "bridge_event list" where
  "sample_steps = [EvOffer 0, EvInsert first_bundle \<lparr>omd_ObjectID = ''hub1.ClustersPerPolicy''\<rparr>, EvDispatch,
     EvDispatch, EvDispatch, EvDispatch, EvDispatch, EvReceive 0]"

lemma sample_steps_run:
  "case run_steps perform sample_steps (initial_bridge setup_registrations 4) of
     Some (Inr s) \<Rightarrow> map_option job_bundle (running_job s 0) = Some (Some first_bundle) | _ \<Rightarrow> False"
  by code_simp

lemma sample_run:
  assumes "\<And>e :: string list interleaved_event. ok (BridgeEvent e)" "\<And>c. ok (TransportRound c)"
  obtains c p err where "createManager sample_types good_calls sample_env sample_pool = Created c"
    "process_reachable sample_types sample_unmarshal small_pg list_sets ok (started_process c empty_db) p"
    "sys_done (il_system (prc_bridge p)) = [(first_bundle, err)]" "il_runs (prc_bridge p) = (\<lambda>_. None)"
proof -
  obtain c where c: "createManager sample_types good_calls sample_env sample_pool = Created c"
    "prc_bridge (started_process c empty_db) = initial_interleaved 4 empty_db"
    "deliverable sample_unmarshal (started_process c empty_db) first_bundle \<lparr>omd_ObjectID = ''hub1.ClustersPerPolicy''\<rparr>"
    by (rule sample_process)
  let ?p0 = "started_process c empty_db" and ?br = "sys_bridge (il_system (initial_interleaved 4 empty_db))"
  have br: "?br = initial_bridge setup_registrations 4" by (simp add: initial_interleaved_def initial_system_def)
  obtain s j where s: "run_steps perform sample_steps ?br = Some (Inr s)"
      "running_job s 0 = Some j" "job_bundle j = Some first_bundle"
    using sample_steps_run unfolding br by (auto split: option.splits sum.splits)
  obtain p where p: "process_reachable sample_types sample_unmarshal small_pg list_sets ok ?p0 p"
    "prc_bridge p = (initial_interleaved 4 empty_db)\<lparr>il_system := (il_system (initial_interleaved 4 empty_db))\<lparr>sys_bridge := s\<rparr>\<rparr>"
    by (rule bridge_run_in_process [where p = ?p0 and es = sample_steps, OF process_start assms])
       (use c(2,3) s(1) in \<open>simp_all add: sample_steps_def del: perform.simps run_steps.simps\<close>)
  have wf: "decodes well_formed_bundle sample_unmarshal" by (simp add: sample_decodes first_bundle_ok)
  obtain n where il: "il_reachable small_pg list_sets well_formed_bundle (initial_interleaved n empty_db) (prc_bridge p)"
    using process_runs_bridge [OF sample_pool_starts c(1) p(1) wf] by blast
  have job: "running_job (sys_bridge (il_system (prc_bridge p))) 0 = Some j" using s(2) by (simp add: p(2))
  obtain es t b err where es: "set es \<subseteq> {HandlerEnter 0 rev_orders, HandlerCall 0, HandlerReturn 0}"
      "run_steps (il_perform small_pg list_sets) es (prc_bridge p) = Some (Inr t)" "job_bundle j = Some b"
      "sys_done (il_system t) = sys_done (il_system (prc_bridge p)) @ [(b, err)]"
      "il_runs t = (il_runs (prc_bridge p))(0 := None)"
    by (rule worker_finishes [OF il well_formed_no_nil job])
  have "process_reachable sample_types sample_unmarshal small_pg list_sets ok ?p0 (p\<lparr>prc_bridge := t\<rparr>)"
    by (rule handler_run_in_process [OF p(1) assms(1) es(2)]) (use es(1) in \<open>auto simp: list_all_iff\<close>)
  from that [OF c(1) this] show ?thesis
    using es(3-5) s(3) by (simp add: p(2) initial_interleaved_def initial_system_def fun_eq_iff)
qed

section \<open>Properties\<close>

text \<open>C1: From the start of the process to the rows of the database: after the start-up in the order of
  \<open>main.go\<close>, in every state that the goroutines of the transport, the config controller, the dispatcher
  and the workers can reach, in any interleaving of their steps and of the database calls of the handlers,
  the database says of a leaf hub that no handler is working on what the bundles say whose jobs have
  succeeded, in the order of the history; and the jobs of each leaf hub and bundle type are in the order of
  their generations. The bundles are those the unmarshaller gives for the objects of the sync service,
  assumed well formed; the laws of the set library and of the database are hypotheses.\<close>

theorem process_database_follows_history:
  assumes "startDBWorkerPool env connect = Inr pool" "createManager dt mg env pool = Created c"
    and "sets_laws S members" "database_laws conn tb" "tables_ok tb d" "decodes well_formed_bundle unmarshal"
    and "process_reachable dt unmarshal conn S ok (started_process c d) p"
  shows "tables_ok tb (sys_db (il_system (prc_bridge p))) \<and>
    in_generation_order (sys_done (il_system (prc_bridge p))) \<and>
    (hub_idle (prc_bridge p) lh \<longrightarrow>
       view tb (sys_db (il_system (prc_bridge p))) lh =
         spec_history lh (sys_done (il_system (prc_bridge p))) (view tb d lh) \<and>
       agg_history lh (agg_view tb d lh) (sys_done (il_system (prc_bridge p)))
         (agg_view tb (sys_db (il_system (prc_bridge p))) lh))"
proof -
  obtain n where il: "il_reachable conn S well_formed_bundle (initial_interleaved n d) (prc_bridge p)"
    using process_runs_bridge [OF assms(1,2,7,6)] by blast
  have "history_ok (il_system (prc_bridge p))"
    by (rule il_safeD(3) [OF il_reachable_safe [OF il well_formed_no_nil]])
  with data_invD(1,3,4) [OF il_reachable_inv [OF assms(3-5) il]] show ?thesis
    by (auto simp: history_ok_def)
qed

lemma process_database_follows_history_witness:
  "\<exists>c (p :: small_db process) err. createManager sample_types good_calls sample_env sample_pool = Created c \<and>
     sys_done (il_system (prc_bridge p)) = [(first_bundle, err)] \<and>
     view small_tables (sys_db (il_system (prc_bridge p))) ''hub1'' =
       spec_history ''hub1'' [(first_bundle, err)] (view small_tables empty_db ''hub1'')"
proof -
  obtain c p err where run: "createManager sample_types good_calls sample_env sample_pool = Created c"
    "process_reachable sample_types sample_unmarshal small_pg list_sets (\<lambda>_. True) (started_process c empty_db) p"
    "sys_done (il_system (prc_bridge p)) = [(first_bundle, err)]" "il_runs (prc_bridge p) = (\<lambda>_. None)"
    by (rule sample_run [where ok = "\<lambda>_. True"]) simp_all
  have wf: "decodes well_formed_bundle sample_unmarshal" by (simp add: sample_decodes first_bundle_ok)
  have "hub_idle (prc_bridge p) ''hub1''" by (simp add: hub_idle_def run(4))
  with process_database_follows_history [OF sample_pool_starts run(1) list_sets_laws small_database_laws
      empty_db_ok wf run(2), of "''hub1''"] run(1,3)
  show ?thesis by (intro exI [of _ c] exI [of _ p] exI [of _ err]) simp
qed

text \<open>C3: While the manager runs, no step of the process panics: no round of the transport, no event of
  the configuration, no step of the dispatcher, the workers or a handler, in any reachable state. This holds
  as long as every object id has a dot and no decoded bundle has a null object, whatever else arrives,
  whatever the database answers, and in whatever order Go visits its maps.\<close>

theorem process_never_panics:
  assumes "startDBWorkerPool env connect = Inr pool" "createManager dt mg env pool = Created c"
    and "process_reachable dt unmarshal conn S ok (started_process c d) p"
    and "decodes no_nil_objects unmarshal" "dotted_ids e"
  shows "process_perform dt unmarshal conn S e p \<noteq> Some (Inl x)"
proof -
  obtain n where il: "il_reachable conn S no_nil_objects (initial_interleaved n d) (prc_bridge p)"
    using process_runs_bridge [OF assms(1-4)] by blast
  have safe: "il_safe no_nil_objects (prc_bridge p)" by (rule il_reachable_safe [OF il])
  have never: "il_perform conn S ev (prc_bridge p) \<noteq> Some (Inl x)" if "il_inserts_only no_nil_objects ev" for ev
    using il_perform_safe [OF safe _ that] by fastforce
  have open_chan: "\<not> ss_metaChanClosed (prc_transport p)"
    using process_reachable_transport [OF assms(3) started_process_transport [OF assms(2)]]
    by (simp add: transport_inv_def)
  show ?thesis
  proof (cases e)
    case (ConfigEvent namespace got)
    then show ?thesis by (simp add: AddConfigController_def)
  next
    case (TransportRound choice)
    show ?thesis
    proof
      assume "process_perform dt unmarshal conn S e p = Some (Inl x)"
      with TransportRound have "handle_bundles_step unmarshal transport_insert (prc_config p) choice
          (prc_transport p, prc_bridge p) = Some (Inl x)"
        by (auto simp: bind_go_eq_Inl)
      then show False
      proof (rule transport_round_panicE [OF _ open_chan])
        fix m fetched assume "choice = TakeObject (Some m) fetched" "CHR ''.'' \<notin> set (omd_ObjectID m)"
        with assms(5) TransportRound show False by simp
      next
        fix m fetched b
        assume "receive_object unmarshal (ss_msgIDToRegistrationMap (prc_transport p)) (prc_config p) (Some m) fetched =
            Inr (BundleReceived b)" and ins: "transport_insert b m (prc_bridge p) = Inl x"
        then have "no_nil_objects b" by (elim received_bundleE) (use assms(4) in \<open>auto simp: decodes_def\<close>)
        then show False using never [of "OtherStep (EvInsert b m)"] ins
          by (simp add: transport_insert_eq del: il_perform.simps)
      qed
    qed
  next
    case (BridgeEvent ev)
    have "il_inserts_only no_nil_objects ev" if "\<not> is_insert ev" by (rule is_insert.cases [of ev]) (use that in auto)
    with BridgeEvent never show ?thesis
      by (auto simp: bind_go_eq_Inl simp del: il_perform.simps)
  qed
qed

lemma process_never_panics_witness:
  "\<exists>c. createManager sample_types good_calls sample_env sample_pool = Created c \<and>
     process_perform sample_types sample_unmarshal small_pg list_sets
       (TransportRound (TakeObject (Some \<lparr>omd_ObjectID = ''hub1.ClustersPerPolicy''\<rparr>) (Some ''x'')))
       (started_process c empty_db) \<noteq> Some (Inl NilDereference)"
proof -
  obtain c where c: "createManager sample_types good_calls sample_env sample_pool = Created c" by (rule sample_process)
  have "decodes no_nil_objects sample_unmarshal" by (simp add: sample_decodes first_bundle_ok)
  then have "process_perform sample_types sample_unmarshal small_pg list_sets
      (TransportRound (TakeObject (Some \<lparr>omd_ObjectID = ''hub1.ClustersPerPolicy''\<rparr>) (Some ''x'')))
      (started_process c empty_db) \<noteq> Some (Inl NilDereference)"
    by (rule process_never_panics [OF sample_pool_starts c process_start]) simp
  with c show ?thesis by blast
qed

text \<open>C21: The aggregation level decides which tables are written. As long as the configuration resource of
  the namespace of the hub of hubs never asks for the minimal level (events of other namespaces do not
  count), whatever bundles without nil objects arrive, however the handlers interleave and whatever the
  database answers, as long as the statements for the other two tables leave this one alone: no minimal compliance job has finished, none is running, and the table of aggregated
  compliance is at every moment, also while handlers are between their calls, what it was at the start.\<close>

theorem full_level_keeps_aggregated:
  assumes "startDBWorkerPool env connect = Inr pool" "createManager dt mg env pool = Created c"
    and "distinct (msg_keys dt)" "dt_Full dt \<noteq> dt_Minimal dt"
    and "tables_separate conn tb" "decodes no_nil_objects unmarshal"
    and "process_reachable dt unmarshal conn S (\<lambda>e. e \<noteq> ConfigEvent (dt_HohSystemNamespace dt) (GetFound (dt_Minimal dt)))
      (started_process c d) p"
  shows "(\<forall>(b, err) \<in> set (sys_done (il_system (prc_bridge p))).
      GetBundleType b \<noteq> ''MinimalComplianceStatusBundle'') \<and>
    (\<forall>w j b. running_job (sys_bridge (il_system (prc_bridge p))) w = Some j \<longrightarrow> job_bundle j = Some b \<longrightarrow>
      GetBundleType b \<noteq> ''MinimalComplianceStatusBundle'') \<and>
    tb_aggregated tb (sys_db (il_system (prc_bridge p))) = tb_aggregated tb d"
proof -
  let ?other = "\<lambda>b. GetBundleType b \<noteq> ''MinimalComplianceStatusBundle''"
  let ?P = "\<lambda>b. no_nil_objects b \<and> ?other b" and ?C = "\<lambda>d d'. tb_aggregated tb d' = tb_aggregated tb d"
  obtain n where il: "il_reachable conn S ?P (initial_interleaved n d) (prc_bridge p)"
    using full_level_runs_bridge [OF assms(1-4,6,7)] by blast
  have "tb_aggregated tb (sys_db (il_system (prc_bridge p))) = tb_aggregated tb d \<and>
      runs_inv ?C (\<lambda>b err. ?other b) (prc_bridge p)"
  proof (rule il_reachable_runs [OF il])
    fix b ord assume "?P b"
    then show "run_all ?C (\<lambda>err. ?other b) (handler_run conn S ord (handler_of b) b)"
      by (intro batch_handlers_keep_aggregated [OF assms(5)]) auto
  qed auto
  moreover have ok: "sys_bridge_ok ?P (il_system (prc_bridge p))"
    by (rule il_safeD(1) [OF il_reachable_safe [OF il]]) blast
  have "?other b" if "running_job (sys_bridge (il_system (prc_bridge p))) w = Some j" "job_bundle j = Some b" for w j b
    by (rule running_handler [OF ok that(1)]) (use that(2) in simp)
  ultimately show ?thesis unfolding runs_inv_def by blast
qed

lemma full_level_keeps_aggregated_witness:
  "\<exists>c (p :: small_db process) err. createManager sample_types good_calls sample_env sample_pool = Created c \<and>
     sys_done (il_system (prc_bridge p)) = [(first_bundle, err)] \<and>
     sd_aggregated (sys_db (il_system (prc_bridge p))) = []"
proof -
  obtain c p err where run: "createManager sample_types good_calls sample_env sample_pool = Created c"
    "process_reachable sample_types sample_unmarshal small_pg list_sets
       (\<lambda>e. e \<noteq> ConfigEvent (dt_HohSystemNamespace sample_types) (GetFound (dt_Minimal sample_types)))
       (started_process c empty_db) p"
    "sys_done (il_system (prc_bridge p)) = [(first_bundle, err)]" "il_runs (prc_bridge p) = (\<lambda>_. None)"
    by (rule sample_run [where ok =
          "\<lambda>e. e \<noteq> ConfigEvent (dt_HohSystemNamespace sample_types) (GetFound (dt_Minimal sample_types))"]) simp_all
  have nil: "decodes no_nil_objects sample_unmarshal" by (simp add: sample_decodes first_bundle_ok)
  have sep: "tables_separate small_pg small_tables" using small_database_laws by (simp add: database_laws_def)
  have types: "distinct (msg_keys sample_types)" "dt_Full sample_types \<noteq> dt_Minimal sample_types"
    by (simp_all add: msg_keys_def sample_types_def)
  from full_level_keeps_aggregated [OF sample_pool_starts run(1) types sep nil run(2)] run(1,3)
  show ?thesis
    by (intro exI [of _ c] exI [of _ p] exI [of _ err]) (simp add: small_tables_def empty_db_def)
qed

end
