(* ===== verification/Policies_Properties.thy ===== *)
theory Policies_Properties
  imports Small_Database
begin

text \<open>
  Properties of the policies path: the compliance table and the table of aggregated compliance after a
  bundle of each kind has been handled.
\<close>

section \<open>Samples\<close>

definition sample_db :: small_db where
  "sample_db = \<lparr>sd_clusters = [],
     sd_compliance =
      [\<lparr>co_leafHub = ''hub1'', co_policy = ''p'', co_cluster = ''a'', co_error = ''none'',
        co_compliance = NonCompliant\<rparr>,
       \<lparr>co_leafHub = ''hub1'', co_policy = ''q'', co_cluster = ''a'', co_error = ''none'',
        co_compliance = Unknown\<rparr>,
       \<lparr>co_leafHub = ''hub2'', co_policy = ''p'', co_cluster = ''a'', co_error = ''none'',
        co_compliance = Compliant\<rparr>],
     sd_aggregated = [\<lparr>ag_leafHub = ''hub1'', ag_policy = ''p'', ag_applied = 1, ag_nonCompliant = 0\<rparr>]\<rparr>"

definition sample_clusters :: "clusters_per_policy list" where
  "sample_clusters = [\<lparr>cpp_PolicyID = ''p'', cpp_Clusters = [''a'', ''b'']\<rparr>]"

definition sample_statuses :: "policy_compliance_status list" where
  "sample_statuses = [\<lparr>pcs_PolicyID = ''p'', pcs_NonCompliantClusters = [''b''],
     pcs_UnknownComplianceClusters = []\<rparr>]"

definition sample_clusters_bundle :: clusters_per_policy_bundle where
  "sample_clusters_bundle =
     \<lparr>cpb_Objects = map Some sample_clusters, cpb_LeafHubName = ''hub1'', cpb_Generation = 1\<rparr>"

definition sample_status_bundle :: compliance_status_bundle where
  "sample_status_bundle =
     \<lparr>csb_Objects = map Some sample_statuses, csb_LeafHubName = ''hub1'', csb_BaseBundleGeneration = 1,
      csb_Generation = 1\<rparr>"

lemma sample_bundle_fields:
  "cpb_Objects sample_clusters_bundle = map Some sample_clusters"
  "cpb_LeafHubName sample_clusters_bundle = ''hub1''"
  "csb_Objects sample_status_bundle = map Some sample_statuses"
  "csb_LeafHubName sample_status_bundle = ''hub1''"
  by (simp_all add: sample_clusters_bundle_def sample_status_bundle_def)

lemma sample_db_rows:
  "length (pair_rows ''hub1'' q cl (sd_compliance sample_db)) \<le> 1"
  "r \<in> set (sd_compliance sample_db) \<Longrightarrow> co_compliance r \<in> {Compliant, NonCompliant, Unknown}"
  "length (agg_rows ''hub1'' q (sd_aggregated sample_db)) \<le> 1"
  by (auto simp: sample_db_def pair_rows_def agg_rows_def)

lemma sample_clusters_ok:
  "distinct (map cpp_PolicyID sample_clusters)" "\<forall>p \<in> set sample_clusters. distinct (cpp_Clusters p)"
  by (simp_all add: sample_clusters_def)

lemma sample_statuses_ok:
  "distinct (map pcs_PolicyID sample_statuses)"
  "\<forall>p \<in> set sample_statuses. set (pcs_NonCompliantClusters p) \<inter> set (pcs_UnknownComplianceClusters p) = {}"
  by (simp_all add: sample_statuses_def)

section \<open>One run\<close>

text \<open>C6: Handling a clusters per policy bundle brings the pairs of the compliance table in line with
  it, provided that reading the table succeeds. For a bundle without repeated policies or clusters the
  handler returns, whatever the order in which Go visits its maps. When it reports success, every listed
  pair of a policy and a cluster has its rows as before, or one new row in state unknown when it had
  none; no other pair of the leaf hub has a row; the rows of other leaf hubs are as before. When it
  reports an error the table is as before.\<close>

theorem clusters_per_policy_are_synced:
  assumes "sets_laws S members" "compliance_table_laws conn tbl"
    and "cpb_Objects b = map Some ps" "distinct (map cpp_PolicyID ps)"
      "\<forall>p \<in> set ps. distinct (cpp_Clusters p)"
  shows "\<exists>err d'. handleClustersPerPolicyBundle (policies_db conn S rng) S rng'
      (ClustersPerPolicyBundle b) StatusSchema ComplianceTable d = Inr (err, d') \<and>
    (if err = None then pairs_synced (cpb_LeafHubName b) ps (tbl d) (tbl d') else tbl d' = tbl d)"
  using clusters_per_policy_handler_syncs [OF assms] .

lemma clusters_per_policy_are_synced_witness:
  "\<exists>err d'. handleClustersPerPolicyBundle (policies_db small_pg list_sets rev) list_sets rev
      (ClustersPerPolicyBundle sample_clusters_bundle) StatusSchema ComplianceTable sample_db = Inr (err, d') \<and>
    (if err = None then pairs_synced ''hub1'' sample_clusters (sd_compliance sample_db) (sd_compliance d')
     else sd_compliance d' = sd_compliance sample_db)"
  using clusters_per_policy_are_synced [OF list_sets_laws small_compliance_laws sample_bundle_fields(1)
    sample_clusters_ok, of rev rev sample_db]
  unfolding sample_bundle_fields .

text \<open>C7: Handling a compliance status bundle brings the states of the compliance table in line with it,
  provided that reading the table succeeds. For a bundle without repeated policies, none of whose
  policies reports a cluster both as non compliant and as unknown, on a table with at most one row per
  pair, the handler returns. When it reports success every row of the leaf hub has the state the bundle
  gives its pair, compliant when the bundle does not mention it, and is otherwise as before; no row is
  added or removed; other leaf hubs are as before. When it reports an error the table is as before.\<close>

theorem compliance_is_synced:
  assumes "sets_laws S members" "compliance_table_laws conn tbl"
    and "csb_Objects b = map Some ps" "distinct (map pcs_PolicyID ps)"
      "\<forall>p \<in> set ps. set (pcs_NonCompliantClusters p) \<inter> set (pcs_UnknownComplianceClusters p) = {}"
    and "\<forall>q cl. length (pair_rows (csb_LeafHubName b) q cl (tbl d)) \<le> 1"
    and "\<forall>r \<in> set (tbl d). co_compliance r \<in> {Compliant, NonCompliant, Unknown}"
  shows "\<exists>err d'. handleComplianceBundle (policies_db conn S rng) S rng'
      (ComplianceStatusBundle b) StatusSchema ComplianceTable d = Inr (err, d') \<and>
    (if err = None then states_synced (csb_LeafHubName b) ps (tbl d) (tbl d') else tbl d' = tbl d)"
  by (rule compliance_handler_syncs [OF assms(1-5)]) (use assms(6,7) in auto)

lemma compliance_is_synced_witness:
  "\<exists>err d'. handleComplianceBundle (policies_db small_pg list_sets rev) list_sets rev
      (ComplianceStatusBundle sample_status_bundle) StatusSchema ComplianceTable sample_db = Inr (err, d') \<and>
    (if err = None then states_synced ''hub1'' sample_statuses (sd_compliance sample_db) (sd_compliance d')
     else sd_compliance d' = sd_compliance sample_db)"
proof -
  have "\<forall>q cl. length (pair_rows (csb_LeafHubName sample_status_bundle) q cl (sd_compliance sample_db)) \<le> 1"
    unfolding sample_bundle_fields using sample_db_rows(1) by blast
  moreover have "\<forall>r \<in> set (sd_compliance sample_db). co_compliance r \<in> {Compliant, NonCompliant, Unknown}"
    using sample_db_rows(2) by blast
  ultimately show ?thesis
    using compliance_is_synced [OF list_sets_laws small_compliance_laws sample_bundle_fields(3)
      sample_statuses_ok, of sample_db rev rev]
    unfolding sample_bundle_fields by blast
qed

text \<open>C8: What a minimal compliance bundle does to the table of aggregated compliance depends on the name of
  the column that holds the policy: the query of the policies and the delete call it \<open>policy_id\<close>, the other
  statements \<open>id\<close>. For a bundle without repeated policies, on a table with at most one row per policy that
  has the column under the names \<open>cols\<close>, the handler returns, other leaf hubs are as before, and each policy
  of the leaf hub has its rows from before or exactly what the bundle reports for it. With both names, success
  means that all policies have what the bundle reports. Without \<open>policy_id\<close>, success means it for the listed
  policies only: rows of all others stay. Without \<open>id\<close>, a bundle that lists a policy always ends in an error
  and nothing is written.\<close>

theorem minimal_compliance_needs_both_columns:
  assumes "sets_laws S members" "aggregated_table_laws conn cols tbl"
    and "msb_Objects b = map Some ps" "distinct (map mpc_PolicyID ps)"
    and "\<forall>q. length (agg_rows (msb_LeafHubName b) q (tbl d)) \<le> 1"
  shows "\<exists>err d'. handleMinimalComplianceBundle (aggregated_db conn S) S (MinimalComplianceStatusBundle b) d =
      Inr (err, d') \<and>
    other_agg_rows (msb_LeafHubName b) (tbl d') = other_agg_rows (msb_LeafHubName b) (tbl d) \<and>
    (\<forall>q. agg_rows (msb_LeafHubName b) q (tbl d') \<in>
       {agg_rows (msb_LeafHubName b) q (tbl d), reported_rows (msb_LeafHubName b) ps q}) \<and>
    (err = None \<longrightarrow> (\<forall>p \<in> set ps. agg_rows (msb_LeafHubName b) (mpc_PolicyID p) (tbl d') =
       [status_row (msb_LeafHubName b) p])) \<and>
    (err = None \<and> ''policy_id'' \<in> cols \<longrightarrow>
       (\<forall>q. agg_rows (msb_LeafHubName b) q (tbl d') = reported_rows (msb_LeafHubName b) ps q)) \<and>
    (''policy_id'' \<notin> cols \<longrightarrow> (\<forall>q. q \<notin> mpc_PolicyID ` set ps \<longrightarrow>
       agg_rows (msb_LeafHubName b) q (tbl d') = agg_rows (msb_LeafHubName b) q (tbl d))) \<and>
    (''id'' \<notin> cols \<and> ps \<noteq> [] \<longrightarrow> err \<noteq> None \<and> d' = d)"
proof -
  let ?lh = "msb_LeafHubName b"
  obtain err d' ks where run: "handleMinimalComplianceBundle (aggregated_db conn S) S
        (MinimalComplianceStatusBundle b) d = Inr (err, d')"
      and step: "agg_step ?lh (reported_rows ?lh ps) ks (tbl d) (tbl d')"
      and ks: "''policy_id'' \<notin> cols \<longrightarrow> ks \<subseteq> mpc_PolicyID ` set ps" "err = None \<longrightarrow> mpc_PolicyID ` set ps \<subseteq> ks"
      and both: "err = None \<and> ''policy_id'' \<in> cols \<longrightarrow> (\<forall>q. agg_rows ?lh q (tbl d') = reported_rows ?lh ps q)"
      and no_id: "''id'' \<notin> cols \<and> ps \<noteq> [] \<longrightarrow> err \<noteq> None \<and> d' = d"
    using minimal_handler_syncs [OF assms] by (elim exE conjE) (rule that)
  have rows: "agg_rows ?lh q (tbl d') = (if q \<in> ks then reported_rows ?lh ps q else agg_rows ?lh q (tbl d))" for q
    using step by (simp add: agg_step_def)
  have listed: "err = None \<longrightarrow> (\<forall>p \<in> set ps. agg_rows ?lh (mpc_PolicyID p) (tbl d') = [status_row ?lh p])"
    using ks(2) reported_rows_eq(1) [OF assms(4)] by (auto simp: rows)
  have others: "''policy_id'' \<notin> cols \<longrightarrow> (\<forall>q. q \<notin> mpc_PolicyID ` set ps \<longrightarrow>
      agg_rows ?lh q (tbl d') = agg_rows ?lh q (tbl d))"
    using ks(1) by (auto simp: rows)
  have in_between: "\<forall>q. agg_rows ?lh q (tbl d') \<in> {agg_rows ?lh q (tbl d), reported_rows ?lh ps q}"
    by (simp add: rows)
  have "other_agg_rows ?lh (tbl d') = other_agg_rows ?lh (tbl d)" using step by (simp add: agg_step_def)
  with run in_between listed both others no_id show ?thesis
    by (intro exI [of _ err] exI [of _ d'] conjI)
qed

text \<open>In the witness the table has \<open>policy_id\<close> only.\<close>

lemma minimal_compliance_needs_both_columns_witness:
  "\<exists>err. handleMinimalComplianceBundle (aggregated_db small_pg list_sets) list_sets
      (MinimalComplianceStatusBundle \<lparr>msb_Objects = [Some \<lparr>mpc_PolicyID = ''q'', mpc_AppliedClusters = 2,
         mpc_NonCompliantClusters = 1\<rparr>], msb_LeafHubName = ''hub1'', msb_Generation = 1\<rparr>) sample_db =
      Inr (Some err, sample_db)"
  using minimal_compliance_needs_both_columns [OF list_sets_laws small_aggregated_laws,
    where b = "\<lparr>msb_Objects = [Some \<lparr>mpc_PolicyID = ''q'', mpc_AppliedClusters = 2,
         mpc_NonCompliantClusters = 1\<rparr>], msb_LeafHubName = ''hub1'', msb_Generation = 1\<rparr>"
      and ps = "[\<lparr>mpc_PolicyID = ''q'', mpc_AppliedClusters = 2, mpc_NonCompliantClusters = 1\<rparr>]"
      and d = sample_db] sample_db_rows(3)
  by auto

end
