(* ===== verification/Batch_Properties.thy ===== *)
theory Batch_Properties
  imports Clusters_Properties Policies_Batch
begin

text \<open>
  Properties of the statements the builders make: the policies builder carries exactly the given rows,
  the numbered placeholders of a statement's text are those of its arguments, and the one kind of
  statement whose number of arguments has no bound.
\<close>

section \<open>Placeholders\<close>

text \<open>The numbers a database reads behind the dollar signs of a statement, from left to right.\<close>

fun placeholders :: "string \<Rightarrow> nat list" where
  "placeholders [] = []"
| "placeholders (c # cs) =
     (if c = CHR ''$'' then digits_value (takeWhile is_digit cs) # placeholders cs else placeholders cs)"

lemma takeWhile_stop: "ys = [] \<or> \<not> P (hd ys) \<Longrightarrow> takeWhile P (xs @ ys) = takeWhile P xs"
  by (induction xs) (cases ys; auto)+

lemma placeholders_append:
  "ys = [] \<or> \<not> is_digit (hd ys) \<Longrightarrow> placeholders (xs @ ys) = placeholders xs @ placeholders ys"
  by (induction xs) (auto simp: takeWhile_stop)

lemma placeholders_none [simp]: "CHR ''$'' \<notin> set xs \<Longrightarrow> placeholders xs = []"
  by (induction xs) auto

lemma not_digits [simp]:
  "\<not> is_digit CHR ''$''" "\<not> is_digit CHR '',''" "\<not> is_digit CHR ''(''" "\<not> is_digit CHR '')''"
  "\<not> is_digit CHR '' ''" "\<not> is_digit CHR '':''"
  by (simp_all add: is_digit_def)

lemma placeholders_itoa:
  assumes "ys = [] \<or> \<not> is_digit (hd ys)"
  shows "placeholders (CHR ''$'' # itoa n @ ys) = n # placeholders ys"
proof -
  have "CHR ''$'' \<notin> set (itoa n)" using itoa_digits by fastforce
  then have "placeholders (itoa n @ ys) = placeholders ys" by (simp add: placeholders_append [OF assms])
  moreover have "takeWhile is_digit (itoa n @ ys) = itoa n"
    using itoa_digits takeWhile_stop [of ys is_digit "itoa n"] assms by (simp add: takeWhile_eq_all_conv)
  ultimately show ?thesis by simp
qed

lemma placeholders_concat:
  assumes "\<forall>i \<in> set is. f i \<noteq> [] \<and> \<not> is_digit (hd (f i))"
  shows "placeholders (concat (map f is)) = concat (map (\<lambda>i. placeholders (f i)) is)"
    and "concat (map f is) = [] \<or> \<not> is_digit (hd (concat (map f is)))"
proof -
  show 2: "concat (map f is) = [] \<or> \<not> is_digit (hd (concat (map f is)))"
    using assms by (cases "is") auto
  show "placeholders (concat (map f is)) = concat (map (\<lambda>i. placeholders (f i)) is)"
    using assms
  proof (induction "is")
    case (Cons i js)
    then have "concat (map f js) = [] \<or> \<not> is_digit (hd (concat (map f js)))" by (cases js) auto
    with Cons show ?case by (simp add: placeholders_append)
  qed simp
qed

definition plain_types :: "(nat \<rightharpoonup> string) \<Rightarrow> bool" where
  "plain_types special \<longleftrightarrow> (\<forall>i t. special i = Some t \<longrightarrow> CHR ''$'' \<notin> set t)"

lemma placeholders_arg:
  assumes "plain_types special"
  shows "placeholders (generateArg n s special i) = [i + s]"
    and "generateArg n s special i \<noteq> []" "hd (generateArg n s special i) = CHR ''$''"
proof -
  let ?t = "(case special (i + 1) of None \<Rightarrow> '''' | Some t \<Rightarrow> ''::'' @ t) @ (if i < n - 1 then '', '' else '''')"
  have "?t = [] \<or> \<not> is_digit (hd ?t)" by (auto split: option.split)
  moreover have "CHR ''$'' \<notin> set ?t" using assms by (auto simp: plain_types_def split: option.split)
  ultimately show "placeholders (generateArg n s special i) = [i + s]"
    using placeholders_itoa [of ?t "i + s"] by (simp add: generateArg_def)
qed (simp_all add: generateArg_def)

lemma placeholders_args:
  assumes "plain_types special"
  shows "placeholders (generateArgsList n s special) = [s..<s + n]"
    and "generateArgsList n s special = [] \<or> \<not> is_digit (hd (generateArgsList n s special))"
proof -
  have "\<forall>i \<in> set [0..<n]. generateArg n s special i \<noteq> [] \<and> \<not> is_digit (hd (generateArg n s special i))"
    using placeholders_arg [OF assms] by simp
  note c = placeholders_concat [OF this]
  have "concat (map (\<lambda>i. [i + s]) [0..<n]) = map (\<lambda>i. i + s) [0..<n]" by simp
  also have "\<dots> = [s..<s + n]" by (simp add: map_add_upt add.commute)
  finally show "placeholders (generateArgsList n s special) = [s..<s + n]"
    using c(1) by (simp add: generateArgsList_def placeholders_arg(1) [OF assms])
  show "generateArgsList n s special = [] \<or> \<not> is_digit (hd (generateArgsList n s special))"
    using c(2) by (simp add: generateArgsList_def)
qed

lemma concat_upt_Suc: "concat (map f [0..<Suc n]) = concat (map f [0..<n]) @ f n"
  by simp

lemma concat_blocks: "concat (map (\<lambda>i. [i * k + 1..<i * k + 1 + k]) [0..<n]) = [1..<n * k + 1]"
proof (induction n)
  case (Suc n)
  have "[1..<n * k + 1 + k] = [1..<n * k + 1] @ [n * k + 1..<n * k + 1 + k]"
    by (rule upt_add_eq_append) simp
  moreover have "Suc n * k + 1 = n * k + 1 + k" by simp
  ultimately show ?case unfolding concat_upt_Suc Suc.IH by metis
qed simp

lemma placeholders_rows:
  assumes "plain_types special"
  shows "placeholders (generateInsertOrUpdateArgs rows columns special) = [1..<rows * columns + 1]"
    and "generateInsertOrUpdateArgs rows columns special = [] \<or>
      \<not> is_digit (hd (generateInsertOrUpdateArgs rows columns special))"
proof -
  let ?f = "\<lambda>i. ''('' @ generateArgsList columns (i * columns + 1) special @ '')'' @
    (if i < rows - 1 then '', '' else '''')"
  have "\<forall>i \<in> set [0..<rows]. ?f i \<noteq> [] \<and> \<not> is_digit (hd (?f i))" by simp
  note c = placeholders_concat [OF this]
  have "placeholders (?f i) = [i * columns + 1..<i * columns + 1 + columns]" for i
  proof -
    let ?a = "generateArgsList columns (i * columns + 1) special"
    have "placeholders (?a @ '')'' @ (if i < rows - 1 then '', '' else '''')) = placeholders ?a"
      by (subst placeholders_append) auto
    then show ?thesis using placeholders_args(1) [OF assms] by simp
  qed
  then show "placeholders (generateInsertOrUpdateArgs rows columns special) = [1..<rows * columns + 1]"
    using c(1) concat_blocks [of columns rows] by (simp add: generateInsertOrUpdateArgs_def)
  show "generateInsertOrUpdateArgs rows columns special = [] \<or>
      \<not> is_digit (hd (generateInsertOrUpdateArgs rows columns special))"
    using c(2) by (simp add: generateInsertOrUpdateArgs_def)
qed

lemma placeholders_prefix [simp]: "CHR ''$'' \<notin> set xs \<Longrightarrow> placeholders (xs @ ys) = placeholders ys"
  by (induction xs) auto

lemma placeholders_closed: "placeholders (xs @ CHR '')'' # ys) = placeholders xs @ placeholders ys"
  using placeholders_append [of "CHR '')'' # ys" xs] by simp

lemma digit_12 [simp]: "is_digit CHR ''1''" "is_digit CHR ''2''"
  "digits_value ''1'' = 1" "digits_value ''2'' = 2"
  by (simp_all add: is_digit_def digits_value_def)

lemma placeholders_texts:
  assumes "CHR ''$'' \<notin> set schema" "CHR ''$'' \<notin> set tableName" "CHR ''$'' \<notin> set key"
  shows "plain_types special \<Longrightarrow> placeholders (insert_sql schema tableName special r c) = [1..<r * c + 1]"
    and "plain_types special \<Longrightarrow> placeholders (mc_update_sql schema tableName special r c) = [1..<r * c + 1]"
    and "placeholders (policy_update_sql schema tableName r c) = [1..<r * c + 1]"
    and "placeholders (cluster_update_sql schema tableName r c) = [1..<r * c + 1]"
    and "placeholders (delete_sql schema tableName key n) = 1 # [2..<2 + n]"
    and "placeholders (cluster_delete_sql schema tableName n) = 1 # 2 # [3..<3 + n]"
proof -
  have plain: "plain_types Map.empty" "plain_types [i \<mapsto> UUID, j \<mapsto> StatusComplianceType]" for i j
    by (auto simp: plain_types_def UUID_def StatusComplianceType_def split: if_splits)
  show "plain_types special \<Longrightarrow> placeholders (insert_sql schema tableName special r c) = [1..<r * c + 1]"
    using assms by (simp add: insert_sql_def placeholders_rows(1))
  show "plain_types special \<Longrightarrow> placeholders (mc_update_sql schema tableName special r c) = [1..<r * c + 1]"
    using assms by (simp add: mc_update_sql_def placeholders_closed placeholders_rows(1))
  show "placeholders (policy_update_sql schema tableName r c) = [1..<r * c + 1]"
    using assms by (simp add: policy_update_sql_def placeholders_closed placeholders_rows(1) [OF plain(2)])
  show "placeholders (cluster_update_sql schema tableName r c) = [1..<r * c + 1]"
    using assms by (simp add: cluster_update_sql_def placeholders_closed placeholders_rows(1) [OF plain(2)])
  show "placeholders (delete_sql schema tableName key n) = 1 # [2..<2 + n]"
    using assms placeholders_args(1) [OF plain(1), of n 2]
    by (simp add: delete_sql_def deleteStartingIndex_def placeholders_closed)
  show "placeholders (cluster_delete_sql schema tableName n) = 1 # 2 # [3..<3 + n]"
    using assms placeholders_args(1) [OF plain(1), of n 3]
    by (simp add: cluster_delete_sql_def deleteClusterCompliancePrefixArgsCount_def placeholders_closed)
qed

lemma placeholders_match_arguments:
  shows "fits (mc_layout StatusSchema ManagedClustersTable lh) s \<Longrightarrow>
    placeholders (fst (render (mc_layout StatusSchema ManagedClustersTable lh) s)) =
      [1..<length (snd (render (mc_layout StatusSchema ManagedClustersTable lh) s)) + 1]"
    and "fits (pb_layout StatusSchema ComplianceTable lh) x \<Longrightarrow>
    placeholders (fst (render (pb_layout StatusSchema ComplianceTable lh) x)) =
      [1..<length (snd (render (pb_layout StatusSchema ComplianceTable lh) x)) + 1]"
proof -
  have names: "CHR ''$'' \<notin> set StatusSchema" "CHR ''$'' \<notin> set ManagedClustersTable"
    "CHR ''$'' \<notin> set ComplianceTable" "CHR ''$'' \<notin> set managedClustersDeleteRowKey"
    "CHR ''$'' \<notin> set policyDeleteRowKey"
    by (simp_all add: StatusSchema_def ManagedClustersTable_def ComplianceTable_def
        managedClustersDeleteRowKey_def policyDeleteRowKey_def)
  have plain: "plain_types [i \<mapsto> Jsonb]" "plain_types [i \<mapsto> UUID]" for i
    by (auto simp: plain_types_def Jsonb_def UUID_def split: if_splits)
  note mc = placeholders_texts [OF names(1,2,4)] and pb = placeholders_texts [OF names(1,3,5)]
  have keys: "1 # [2..<2 + n] = [1..<Suc n + 1]" "1 # 2 # [3..<3 + n] = [1..<Suc (Suc n) + 1]" for n
    by (simp_all add: upt_conv_Cons eval_nat_numeral del: upt_Suc)
  show "placeholders (fst (render (mc_layout StatusSchema ManagedClustersTable lh) s)) =
      [1..<length (snd (render (mc_layout StatusSchema ManagedClustersTable lh) s)) + 1]"
    if "fits (mc_layout StatusSchema ManagedClustersTable lh) s"
  proof (cases s)
    case (SInsert rows)
    have "length (concat (map (l_insertRow (mc_layout StatusSchema ManagedClustersTable lh)) rows)) = length rows * 3"
      by (rule length_concat_rows) (auto simp: mc_layout_def)
    with SInsert show ?thesis using mc(1) [OF plain(1)] by (simp add: mc_layout_def del: upt_Suc)
  next
    case (SUpdate rows)
    have "length (concat (map (l_updateRow (mc_layout StatusSchema ManagedClustersTable lh)) rows)) = length rows * 3"
      by (rule length_concat_rows) (auto simp: mc_layout_def)
    with SUpdate show ?thesis using mc(2) [OF plain(1)] by (simp add: mc_layout_def del: upt_Suc)
  next
    case (SDelete ks)
    then show ?thesis using mc(5) keys(1) by (simp add: mc_layout_def del: upt_Suc)
  qed (use that in \<open>simp add: mc_layout_def\<close>)
  show "placeholders (fst (render (pb_layout StatusSchema ComplianceTable lh) x)) =
      [1..<length (snd (render (pb_layout StatusSchema ComplianceTable lh) x)) + 1]"
    if "fits (pb_layout StatusSchema ComplianceTable lh) x"
  proof (cases x)
    case (SInsert rows)
    have "length (concat (map (l_insertRow (pb_layout StatusSchema ComplianceTable lh)) rows)) = length rows * 5"
      by (rule length_concat_rows) (auto simp: pb_layout_def)
    with SInsert show ?thesis using pb(1) [OF plain(2)] by (simp add: pb_layout_def del: upt_Suc)
  next
    case (SUpdate rows)
    have "length (concat (map (l_updateRow (pb_layout StatusSchema ComplianceTable lh)) rows)) = length rows * 3"
      by (rule length_concat_rows) (auto simp: pb_layout_def)
    with SUpdate show ?thesis using pb(3) by (simp add: pb_layout_def del: upt_Suc)
  next
    case (SDelete ks)
    then show ?thesis using pb(5) keys(1) by (simp add: pb_layout_def del: upt_Suc)
  next
    case (SExtra e)
    then show ?thesis
      using pb(4,6) keys(2) by (cases e) (simp_all add: length_cluster_updates cluster_delete_args_def del: upt_Suc)
  qed
qed

section \<open>Row operations of the policies builder\<close>

datatype policy_op =
    InsertPair string string string string
  | UpdatePolicy string string
  | UpdatePair string string string
  | DeletePolicy string
  | DeletePair string string

fun apply_policy_op :: "policies_batch_builder \<Rightarrow> policy_op \<Rightarrow> policies_batch_builder go" where
  "apply_policy_op b (InsertPair p cl e st) = pb_Insert p cl e st b"
| "apply_policy_op b (UpdatePolicy p st) = pb_UpdatePolicyCompliance p st b"
| "apply_policy_op b (UpdatePair p cl st) = pb_UpdateClusterCompliance p cl st b"
| "apply_policy_op b (DeletePolicy p) = pb_DeletePolicy p b"
| "apply_policy_op b (DeletePair p cl) = pb_DeleteClusterStatus p cl b"

text \<open>The rows asked for, per kind and in order.\<close>

fun record_op :: "policy_changes \<Rightarrow> policy_op \<Rightarrow> policy_changes" where
  "record_op c (InsertPair p cl e st) = c\<lparr>pc_inserted := pc_inserted c @ [(p, cl, e, st)]\<rparr>"
| "record_op c (UpdatePolicy p st) = c\<lparr>pc_updatedPolicies := pc_updatedPolicies c @ [(p, st)]\<rparr>"
| "record_op c (UpdatePair p cl st) = c\<lparr>pc_updatedClusters := pc_updatedClusters c @ [(p, cl, st)]\<rparr>"
| "record_op c (DeletePolicy p) = c\<lparr>pc_deletedPolicies := pc_deletedPolicies c @ [p]\<rparr>"
| "record_op c (DeletePair p cl) =
     c\<lparr>pc_deletedClusters := (pc_deletedClusters c)(p := pc_deletedClusters c p @ [cl])\<rparr>"

lemma apply_policy_op:
  assumes "pb_holds schema tableName lh b c"
  shows "\<exists>b'. apply_policy_op b op = Inr b' \<and> pb_holds schema tableName lh b' (record_op c op)"
  by (cases op)
     (simp_all add: pb.insert [OF assms] pb.update_policy [OF assms] pb.update_cluster [OF assms]
       pb.delete_policy [OF assms] pb.delete_cluster [OF assms])

lemma apply_policy_ops:
  "pb_holds schema tableName lh b c \<Longrightarrow>
    \<exists>b'. fold_go apply_policy_op b ops = Inr b' \<and> pb_holds schema tableName lh b' (foldl record_op c ops)"
proof (induction ops arbitrary: b c)
  case (Cons op ops)
  obtain b1 where b1: "apply_policy_op b op = Inr b1" "pb_holds schema tableName lh b1 (record_op c op)"
    using apply_policy_op [OF Cons.prems] by blast
  from Cons.IH [OF b1(2)] b1(1) show ?case by simp
qed simp

lemma policy_batch:
  obtains b q ss where "fold_go apply_policy_op (NewPoliciesBatchBuilder schema tableName lh) ops = Inr b"
    "pb_Build rng b = Inr q" "q = map (render (pb_layout schema tableName lh)) ss"
    "list_all (fits (pb_layout schema tableName lh)) ss"
    "policy_changes_of ss = foldl record_op no_policy_changes ops"
proof -
  obtain b where b: "fold_go apply_policy_op (NewPoliciesBatchBuilder schema tableName lh) ops = Inr b"
      "pb_holds schema tableName lh b (foldl record_op no_policy_changes ops)"
    using apply_policy_ops [OF pb_holds_new, of schema tableName lh ops] by blast
  obtain q where q: "pb_Build rng b = Inr q" "pb_carries schema tableName lh q (foldl record_op no_policy_changes ops)"
    using pb.build [OF b(2)] by blast
  then obtain ss where ss: "q = map (render (pb_layout schema tableName lh)) ss"
      "list_all (fits (pb_layout schema tableName lh)) ss"
      "policy_changes_of ss = foldl record_op no_policy_changes ops"
    by (auto simp: pb_carries_def)
  show ?thesis by (rule that [OF b(1) q(1) ss])
qed

fun bounded_stmt :: "('i, 'u, policy_extra) stmt \<Rightarrow> bool" where
  "bounded_stmt (SExtra (DeleteClusters _ _)) = False"
| "bounded_stmt _ = True"

lemma pb_fits_args:
  assumes "fits (pb_layout schema tableName lh) s" "bounded_stmt s"
  shows "length (snd (render (pb_layout schema tableName lh) s)) \<le> maxArgsInStatement + 5"
proof (cases s)
  case (SInsert rows)
  have "length (concat (map (l_insertRow (pb_layout schema tableName lh)) rows)) = length rows * 5"
    by (rule length_concat_rows) (auto simp: pb_layout_def)
  with assms SInsert show ?thesis by (simp add: pb_layout_def)
next
  case (SUpdate rows)
  have "length (concat (map (l_updateRow (pb_layout schema tableName lh)) rows)) = length rows * 3"
    by (rule length_concat_rows) (auto simp: pb_layout_def)
  with assms SUpdate show ?thesis by (simp add: pb_layout_def)
next
  case (SExtra e)
  with assms show ?thesis by (cases e) (simp_all add: length_cluster_updates)
qed (use assms in simp)

section \<open>Properties\<close>

text \<open>C17: The policies builder loses, duplicates and reorders nothing. Any sequence of its row operations on
  a new builder and the final \<open>Build\<close> return without a panic, in whatever order Go visits the map of
  clusters to delete; the batch is the rendering of non-empty statements that carry, per kind and in
  order, exactly the given rows; and none but the statements that delete clusters of one policy has more
  than 50005 arguments.\<close>

theorem policy_batch_is_faithful:
  "\<exists>b q ss. fold_go apply_policy_op (NewPoliciesBatchBuilder schema tableName lh) ops = Inr b \<and>
    pb_Build rng b = Inr q \<and> q = map (render (pb_layout schema tableName lh)) ss \<and>
    policy_changes_of ss = foldl record_op no_policy_changes ops \<and>
    list_all (fits (pb_layout schema tableName lh)) ss \<and>
    list_all (\<lambda>s. length (snd (render (pb_layout schema tableName lh) s)) \<le> 50005) (filter bounded_stmt ss)"
proof -
  obtain b q ss where b: "fold_go apply_policy_op (NewPoliciesBatchBuilder schema tableName lh) ops = Inr b"
    "pb_Build rng b = Inr q" "q = map (render (pb_layout schema tableName lh)) ss"
    "list_all (fits (pb_layout schema tableName lh)) ss"
    "policy_changes_of ss = foldl record_op no_policy_changes ops"
    by (rule policy_batch)
  have "list_all (\<lambda>s. length (snd (render (pb_layout schema tableName lh) s)) \<le> 50005) (filter bounded_stmt ss)"
    using b(4) pb_fits_args [of schema tableName lh] by (auto simp: list_all_iff maxArgsInStatement_def)
  with b show ?thesis by blast
qed

text \<open>C19: The text and the arguments of every statement match. In each statement of the two builders'
  batches, whatever row operations they were given, the placeholders are numbered from 1 in the order of
  the text, without a gap or a repetition, up to exactly the number of arguments queued with it.\<close>

theorem statements_are_numbered:
  "(\<exists>b q. fold_go apply_cluster_op (NewManagedClustersBatchBuilder StatusSchema ManagedClustersTable lh) ops = Inr b \<and>
     mc_Build b = Inr q \<and> list_all (\<lambda>x. placeholders (fst x) = [1..<length (snd x) + 1]) q) \<and>
   (\<exists>b q. fold_go apply_policy_op (NewPoliciesBatchBuilder StatusSchema ComplianceTable lh) policyOps = Inr b \<and>
     pb_Build rng b = Inr q \<and> list_all (\<lambda>x. placeholders (fst x) = [1..<length (snd x) + 1]) q)"
proof
  let ?mc = "mc_layout StatusSchema ManagedClustersTable lh" and ?pb = "pb_layout StatusSchema ComplianceTable lh"
  obtain b c where b: "fold_go apply_cluster_op (NewManagedClustersBatchBuilder StatusSchema ManagedClustersTable lh) ops = Inr b"
      "mc_holds StatusSchema ManagedClustersTable lh b c"
    using apply_cluster_ops [OF mc_holds_new, of StatusSchema ManagedClustersTable lh ops] by blast
  obtain q ss where q: "mc_Build b = Inr q" "q = map (render ?mc) ss" "list_all (fits ?mc) ss"
    using mc.build [OF b(2)] by (auto simp: mc_carries_def)
  have "list_all (\<lambda>x. placeholders (fst x) = [1..<length (snd x) + 1]) q"
    using q(3) placeholders_match_arguments(1) [of lh] unfolding q(2) list_all_iff by (simp del: upt_Suc)
  with b(1) q(1) show "\<exists>b q. fold_go apply_cluster_op (NewManagedClustersBatchBuilder StatusSchema ManagedClustersTable lh) ops = Inr b \<and>
     mc_Build b = Inr q \<and> list_all (\<lambda>x. placeholders (fst x) = [1..<length (snd x) + 1]) q" by blast
  obtain b' q' ss' where b': "fold_go apply_policy_op (NewPoliciesBatchBuilder StatusSchema ComplianceTable lh) policyOps = Inr b'"
    "pb_Build rng b' = Inr q'" "q' = map (render ?pb) ss'" "list_all (fits ?pb) ss'"
    by (rule policy_batch)
  have "list_all (\<lambda>x. placeholders (fst x) = [1..<length (snd x) + 1]) q'"
    using b'(4) placeholders_match_arguments(2) [of lh] unfolding b'(3) list_all_iff by (simp del: upt_Suc)
  with b'(1,2) show "\<exists>b q. fold_go apply_policy_op (NewPoliciesBatchBuilder StatusSchema ComplianceTable lh) policyOps = Inr b \<and>
     pb_Build rng b = Inr q \<and> list_all (\<lambda>x. placeholders (fst x) = [1..<length (snd x) + 1]) q" by blast
qed

text \<open>C34: The clusters deleted from one policy all go into one statement. However many there are, \<open>Build\<close>
  queues a single statement with two arguments more than clusters: the bound on arguments that all other
  statements keep does not hold for it.\<close>

theorem cluster_deletes_share_a_statement:
  assumes "cls \<noteq> []"
  shows "\<exists>b args. fold_go (\<lambda>b cl. pb_DeleteClusterStatus p cl b) (NewPoliciesBatchBuilder schema tableName lh) cls = Inr b \<and>
    pb_Build rng b = Inr [(cluster_delete_sql schema tableName (length cls), args)] \<and>
    args = ArgString lh # ArgString p # map ArgString cls \<and> length args = length cls + 2"
proof -
  let ?new = "NewPoliciesBatchBuilder schema tableName lh"
  let ?st = "\<lambda>xs. ?new\<lparr>pb_deleteClusterComplianceArgs := [(p, cluster_delete_args lh p xs)]\<rparr>"
  have lh: "bb_leafHubName (pb_base ?new) = lh" "bb_schema (pb_base ?new) = schema" "bb_tableName (pb_base ?new) = tableName"
      "pb_deleteClusterComplianceArgs ?new = []" "pb_updateClusterComplianceRowsCount ?new = 0"
    by (simp_all add: NewPoliciesBatchBuilder_def newBaseBatchBuilder_def setUpdateStatementFunc_def)
  have more: "fold_go (\<lambda>b cl. pb_DeleteClusterStatus p cl b) (?st xs) ys = Inr (?st (xs @ ys))" for xs ys
  proof (induction ys arbitrary: xs)
    case (Cons y ys)
    have "pb_DeleteClusterStatus p y (?st xs) = Inr (?st (xs @ [y]))"
      by (simp add: pb_DeleteClusterStatus_def cluster_delete_args_def)
    with Cons [of "xs @ [y]"] show ?case by simp
  qed simp
  obtain c cs where cls: "cls = c # cs" using assms by (cases cls) auto
  have "pb_DeleteClusterStatus p c ?new = Inr (?st [c])"
    by (simp add: pb_DeleteClusterStatus_def lh cluster_delete_args_def)
  with more [of "[c]" cs] have fold: "fold_go (\<lambda>b cl. pb_DeleteClusterStatus p cl b) ?new cls = Inr (?st cls)"
    by (simp add: cls)
  have one: "go_range rng [x] = [x]" for x :: "string \<times> db_arg list"
    using length_go_range [of rng "[x]"] set_go_range [of rng "[x]"]
    by (cases "go_range rng [x]") auto
  have base: "base_build (pb_base ?new) = Inr (pb_base ?new)" "bb_batch (pb_base ?new) = []"
    by (simp_all add: base_build_def NewPoliciesBatchBuilder_def newBaseBatchBuilder_def setUpdateStatementFunc_def)
  have "pb_Build rng (?st cls) = Inr [(cluster_delete_sql schema tableName (length cls), cluster_delete_args lh p cls)]"
    by (simp add: pb_Build_def base lh one batch_queue_def generateDeleteClusterComplianceStatement_def
        deleteClusterArgs_def cluster_delete_args_def deleteClusterCompliancePrefixArgsCount_def)
  with fold show ?thesis by (simp add: cluster_delete_args_def)
qed

lemma cluster_deletes_share_a_statement_witness:
  "\<exists>b args. fold_go (\<lambda>b cl. pb_DeleteClusterStatus ''p'' cl b)
      (NewPoliciesBatchBuilder StatusSchema ComplianceTable ''hub1'') (replicate 65536 ''a'') = Inr b \<and>
    pb_Build rev b = Inr [(cluster_delete_sql StatusSchema ComplianceTable 65536, args)] \<and> length args = 65538"
proof -
  have "replicate 65536 ''a'' \<noteq> []" by simp
  from cluster_deletes_share_a_statement [OF this, of "''p''" StatusSchema ComplianceTable "''hub1''" rev]
  show ?thesis unfolding length_replicate by (elim exE conjE) (intro exI conjI, assumption+, simp)
qed

end
