(* ===== verification/Failure_Properties.thy ===== *)
theory Failure_Properties
  imports Policies_Properties Database_System
begin

text \<open>
  What the handlers do not depend on (the order in which Go visits its maps, the library of sets), and
  what they do not notice: a query of the database that fails.
\<close>

section \<open>Queries that fail\<close>

text \<open>
  The driver returns an error and rows without an element; the code drops the error and reads the rows.
\<close>

definition with_failing_queries :: "go_error \<Rightarrow> 'd pg_conn \<Rightarrow> 'd pg_conn" where
  "with_failing_queries e conn =
     conn\<lparr>conn_Query := (\<lambda>_ _ _. (\<lparr>rows_scans = [], rows_err = Some e\<rparr>, Some e))\<rparr>"

lemma SendBatch_failing_queries: "SendBatch (with_failing_queries e conn) = SendBatch conn"
  by (intro ext) (simp add: SendBatch_def with_failing_queries_def split: batch_value.split)

lemma failed_query_result:
  "GetComplianceStatusByLeafHub (with_failing_queries e conn) S schema tableName lh d = Inr []"
  by (simp add: GetComplianceStatusByLeafHub_def with_failing_queries_def)

text \<open>C16: A failed query is not noticed, and the pairs are inserted a second time. When the query for the
  pairs of a leaf hub fails, the handler of a clusters per policy bundle takes the table for empty: if
  the batch then succeeds, every listed pair has one more row, in state unknown, besides those it had,
  and the pairs that are no longer listed keep their rows.\<close>

theorem failed_query_inserts_again:
  assumes "sets_laws S members" "compliance_table_laws conn tbl"
    and "cpb_Objects b = map Some ps" "distinct (map cpp_PolicyID ps)"
      "\<forall>p \<in> set ps. distinct (cpp_Clusters p)"
  shows "\<exists>err d'. handleClustersPerPolicyBundle (policies_db (with_failing_queries e conn) S rng) S rng'
      (ClustersPerPolicyBundle b) StatusSchema ComplianceTable d = Inr (err, d') \<and>
    (if err = None
     then \<forall>p cl. pair_rows (cpb_LeafHubName b) p cl (tbl d') = pair_rows (cpb_LeafHubName b) p cl (tbl d) @
       (if listed ps p cl then [row_of (cpb_LeafHubName b) (p, cl, ErrorNone, Unknown)] else [])
     else tbl d' = tbl d)"
proof (rule clusters_per_policy_statements [OF assms(1,3,4,5),
      of "with_failing_queries e conn" rng rng' "[]"])
  fix ss del
  let ?lh = "cpb_LeafHubName b"
  let ?conn = "with_failing_queries e conn"
  let ?rows = "clusters_per_policy_rows (policies_db ?conn S rng) S rng' (ClustersPerPolicyBundle b)
    StatusSchema ComplianceTable []"
  assume batch: "bind_go ?rows (pdb_Build (policies_db ?conn S rng)) =
      Inr (PgxBatch (map (render (pb_layout StatusSchema ComplianceTable ?lh)) ss))"
    and ss: "inserted_rows ss = concat (map (new_rows (db_clusters members [])) ps)"
      "updated_rows ss = []" "extra_updates (extras ss) = []"
      "deleted_keys ss = map fst (go_range rng' (gone_policies [] (cpp_PolicyID ` set ps)))"
      "extra_deletes (extras ss) = del"
    and del: "\<forall>p \<in> set ps. set (del (cpp_PolicyID p)) =
        db_clusters members [] (cpp_PolicyID p) - set (cpp_Clusters p)"
      "\<forall>k. k \<notin> cpp_PolicyID ` set ps \<longrightarrow> del k = []"
  have run: "handleClustersPerPolicyBundle (policies_db ?conn S rng) S rng' (ClustersPerPolicyBundle b)
      StatusSchema ComplianceTable d =
    bind_go ?rows (\<lambda>b. send_built (pdb_Build (policies_db ?conn S rng)) (SendBatch conn) b d)"
    using failed_query_result [of e conn S StatusSchema ComplianceTable ?lh d]
    by (simp add: handleClustersPerPolicyBundle_def policies_db_def Let_def SendBatch_failing_queries)
  have none: "del k = []" for k using del by (cases "k \<in> cpp_PolicyID ` set ps") (auto simp: db_clusters_def)
  have gone: "deleted_keys ss = []"
    using ss(4) by (simp add: gone_policies_def go_range_def)
  have "pair_rows ?lh p cl (exec_policy_stmts ?lh ss (tbl d)) = pair_rows ?lh p cl (tbl d) @
      (if listed ps p cl then [row_of ?lh (p, cl, ErrorNone, Unknown)] else [])" for p cl
  proof -
    have "stmt_states ss p cl = {}" "\<not> stmt_deletes ss p cl"
      by (simp_all add: stmt_states_def stmt_deletes_def ss(2,3,5) none gone)
    moreover have "stmt_inserts ss p cl = (if listed ps p cl then [(p, cl, ErrorNone, Unknown)] else [])"
      unfolding stmt_inserts_def ss filter_all_new_rows [OF assms(4,5)] by (simp add: db_clusters_def)
    ultimately show ?thesis using pair_rows_insert_delete [of ss p cl ?lh "tbl d"] by simp
  qed
  then show ?thesis
    using send_policy_batch [OF assms(2) batch, of d] unfolding run by metis
qed

lemma failed_query_inserts_again_witness:
  "\<exists>err d'. handleClustersPerPolicyBundle
      (policies_db (with_failing_queries ''no connection'' small_pg) list_sets rev) list_sets rev
      (ClustersPerPolicyBundle sample_clusters_bundle) StatusSchema ComplianceTable sample_db = Inr (err, d') \<and>
    (err = None \<longrightarrow> length (pair_rows ''hub1'' ''p'' ''a'' (sd_compliance d')) = 2)"
proof -
  have "listed sample_clusters ''p'' ''a''" by (simp add: listed_def sample_clusters_def)
  moreover have "length (pair_rows ''hub1'' ''p'' ''a'' (sd_compliance sample_db)) = 1"
    by (simp add: sample_db_def pair_rows_def)
  ultimately show ?thesis
    using failed_query_inserts_again [OF list_sets_laws small_compliance_laws sample_bundle_fields(1)
        sample_clusters_ok, of "''no connection''" rev rev sample_db]
    unfolding sample_bundle_fields by (elim exE conjE) (auto split: if_splits)
qed

section \<open>Orders and sets\<close>

text \<open>C15: The result of a handler depends neither on the order in which Go visits its maps nor on the
  library of sets. Two runs on the same bundle and database both return, and when both succeed or both
  fail they leave every leaf hub's clusters and states the same.\<close>

theorem map_order_is_irrelevant:
  assumes "sets_laws S members" "sets_laws S' members'" "database_laws conn tb" "tables_ok tb d"
    and "well_formed_bundle b"
  shows "\<exists>err d1 err' d2. handler_function conn S ord (handler_of b) b d = Inr (err, d1) \<and>
    handler_function conn S' ord' (handler_of b) b d = Inr (err', d2) \<and>
    ((err = None \<longleftrightarrow> err' = None) \<longrightarrow> (\<forall>lh. view tb d1 lh = view tb d2 lh))"
proof -
  obtain err d1 where 1: "handler_function conn S ord (handler_of b) b d = Inr (err, d1)"
      "clusters_effect b err (tb_clusters tb d) (tb_clusters tb d1)"
      "compliance_effect b err (tb_compliance tb d) (tb_compliance tb d1)"
    using handler_effect [OF assms(1,3-5), of ord] by blast
  obtain err' d2 where 2: "handler_function conn S' ord' (handler_of b) b d = Inr (err', d2)"
      "clusters_effect b err' (tb_clusters tb d) (tb_clusters tb d2)"
      "compliance_effect b err' (tb_compliance tb d) (tb_compliance tb d2)"
    using handler_effect [OF assms(2-5), of ord'] by blast
  have "view tb d1 lh = view tb d2 lh" if "err = None \<longleftrightarrow> err' = None" for lh
    using view_step [OF 1(2) assms(5) 1(3), of lh] view_step [OF 2(2) assms(5) 2(3), of lh] that by simp
  with 1(1) 2(1) show ?thesis by blast
qed

lemma map_order_is_irrelevant_witness:
  "\<exists>err d1 err' d2. handler_function small_pg list_sets
      \<lparr>ord_clusters = rev, ord_policies = rev, ord_statuses = rev, ord_deletes = rev\<rparr>
      ClustersPerPolicyHandler (ClustersPerPolicyBundle sample_clusters_bundle) sample_db = Inr (err, d1) \<and>
    handler_function small_pg list_sets
      \<lparr>ord_clusters = id, ord_policies = id, ord_statuses = id, ord_deletes = id\<rparr>
      ClustersPerPolicyHandler (ClustersPerPolicyBundle sample_clusters_bundle) sample_db = Inr (err', d2) \<and>
    ((err = None \<longleftrightarrow> err' = None) \<longrightarrow> view small_tables d1 ''hub1'' = view small_tables d2 ''hub1'')"
proof -
  have ok: "tables_ok small_tables sample_db"
    by (auto simp: tables_ok_def small_tables_def sample_db_def cluster_rows_def pair_rows_def agg_rows_def)
  have b: "well_formed_bundle (ClustersPerPolicyBundle sample_clusters_bundle)"
    by (simp add: sample_clusters_bundle_def sample_clusters_def)
  from map_order_is_irrelevant [OF list_sets_laws list_sets_laws small_database_laws ok b,
      of "\<lparr>ord_clusters = rev, ord_policies = rev, ord_statuses = rev, ord_deletes = rev\<rparr>"
        "\<lparr>ord_clusters = id, ord_policies = id, ord_statuses = id, ord_deletes = id\<rparr>"]
  show ?thesis unfolding handler_of.simps by blast
qed

end
