(* ===== verification/Spec2Isabelle.thy ===== *)
theory Spec2Isabelle
  imports Process_Properties Interleaved_Properties System_Properties Policies_Properties Transport_Properties Batch_Properties Failure_Properties
begin

text \<open>
  A model of the hub-of-hubs status transport bridge and the theorems that make it correct.

  \<^bold>\<open>The program.\<close> Leaf hubs send bundles of status objects through a sync service. The transport
  (\<open>pkg/transport/sync-service\<close>) decodes each object into one of four bundle types (\<open>pkg/bundle\<close>) and
  inserts it into the conflation manager (\<open>pkg/conflator\<close>), which keeps one conflation unit per leaf hub
  with one slot per bundle type, ordered by priority: a newer generation replaces an older one that has
  not been handed out. Units with a ready bundle wait in a queue. The dispatcher
  (\<open>pkg/controller/dispatcher\<close>) takes a unit and an available worker (\<open>pkg/db/worker-pool\<close>), asks the
  unit for its next bundle and gives the worker a job. The worker calls the handler that the bundle's
  syncer (\<open>pkg/dbsyncer\<close>) has registered, which compares the bundle with the rows of the leaf hub in
  PostgreSQL (\<open>pkg/db/postgresql\<close>) and sends the difference as one batch of generated statements
  (\<open>pkg/db/postgresql/batch\<close>), and reports the result to the unit: a success raises the last processed
  generation, a failure puts the bundle back unless a newer one has arrived. \<open>cmd/manager/main.go\<close> starts
  and stops these parts.

  \<^bold>\<open>Conventions.\<close> A run-time panic is a value: \<open>'a go\<close> is \<open>go_panic + 'a\<close>, with the bind \<open>bind_go\<close>. An
  error is a string; a function that returns only an error gives \<open>go_error option\<close>, one that returns a
  value or an error a sum. A step of a goroutine that may block is an option: \<open>None\<close> is blocked.
  Generations are 64-bit words, the port a 16-bit word, counts naturals. Go maps that are visited by
  \<open>range\<close> are association lists, and the order of the visit is an argument (\<open>go_range\<close>); other maps are
  functions. Pointers that are shared, to bundle metadata and conflation units, are references into a
  store, so that aliasing is visible. Definitions keep the names of the code, with a prefix where two
  types have the same method (\<open>cm_Insert\<close>, \<open>mc_Insert\<close>, \<open>pb_Insert\<close>).

  \<^bold>\<open>Theories.\<close>
  \<^item> \<open>Bridge_Prelude\<close>: panics, errors, loops, \<open>strings.Split\<close>, \<open>strconv.Itoa\<close>; the locale
    \<open>step_invariant\<close> of step functions with an invariant.
  \<^item> \<open>Bundles\<close>: \<open>pkg/bundle\<close> and \<open>pkg/helpers\<close>.
  \<^item> \<open>Ready_Queue\<close>, \<open>Conflation_Unit\<close>, \<open>Conflation_Manager\<close>: \<open>pkg/conflator\<close>, one definition per method.
    \<open>Conflation_Invariant\<close> and \<open>Conflation_Steps\<close> give the invariant of a unit, the abstract meaning of
    its reads and a closed form of each operation; \<open>Conflation_Properties\<close> the properties of one unit.
  \<^item> \<open>Worker_Pool\<close>, \<open>Dispatcher\<close>: the goroutines as programs with explicit program counters over explicit
    channels; \<open>Bridge_System\<close> composes them with the conflation manager into one state, the record
    \<open>bridge\<close>, whose events are the atomic steps of the goroutines in any order. \<open>Bridge_Invariant\<close> proves
    that every step returns and keeps the invariant, \<open>Bridge_Steps\<close> what a step changes, and
    \<open>Bridge_Properties\<close> the properties of all reachable states.
  \<^item> \<open>Batch_Builder\<close>: the three builders with the texts of their statements. \<open>Batch_Contracts\<close> states the
    Go interfaces of \<open>pkg/db/batch_builder.go\<close> as locales in the hierarchy of the interfaces;
    \<open>Batch_Rows\<close> and \<open>Policies_Batch\<close> prove that the PostgreSQL builders provide them and interpret the
    locales; \<open>Batch_Properties\<close> the properties of whole batches.
  \<^item> \<open>Database\<close>: \<open>pkg/db\<close> and \<open>postgresql.go\<close> over a connection pool (\<open>pg_conn\<close>) and a library of sets
    (\<open>go_sets\<close>) that are arguments.
  \<^item> \<open>Clusters_Syncer\<close>, \<open>Policies_Syncer\<close>: the four handlers, over the interfaces of \<open>pkg/db/db.go\<close> as
    records of functions. \<open>Policies_Diff\<close> proves inside the builder's locale which rows a handler asks
    for; \<open>Clusters_Table\<close>, \<open>Compliance_Table\<close>, \<open>Aggregated_Table\<close> say what the statements mean for the
    rows; \<open>Compliance_Sync\<close> puts the two together. \<open>Clusters_Properties\<close> and \<open>Policies_Properties\<close> hold
    the properties of single handlers.
  \<^item> \<open>Sync_Service\<close>, \<open>Setup\<close>, \<open>Entry_Point\<close>: the transport, \<open>pkg/controller\<close> and \<open>cmd/manager/main.go\<close>;
    \<open>Transport_Properties\<close> their properties.
  \<^item> \<open>Handlers\<close>, \<open>Handler_Effects\<close>, \<open>Database_System\<close>: the handlers by registration, what each does to
    the three tables, and the bridge running on a database, with atomic handlers. \<open>Job_History\<close> and
    \<open>System_Properties\<close> hold the invariants of its runs; \<open>Failure_Properties\<close> what the handlers do not
    depend on or do not notice.
  \<^item> \<open>Handler_Runs\<close>: the handlers as trees of database calls (\<open>db_run\<close>), and the proof that a run without
    interruption is the handler function. \<open>Run_Effects\<close>: what a run achieves when others change the rows
    of other leaf hubs between its calls (\<open>run_ok\<close>, a rely/guarantee relation on trees).
    \<open>Interleaved_System\<close> runs the bridge with the calls of all workers interleaved,
    \<open>Interleaved_History\<close> proves what the history says of the database, \<open>Run_Invariants\<close> what holds call by
    call (\<open>run_all\<close>), \<open>Interleaved_Properties\<close> the properties of the runs.
  \<^item> \<open>Process_System\<close>: the whole process while the runtime manager runs, built by \<open>createManager\<close>: the
    rounds of the transport insert into the bridge, the config controller writes the aggregation level
    that the transport's predicates read. \<open>Process_Properties\<close> holds the end-to-end properties.
  \<^item> \<open>Small_Database\<close>: a database that interprets the statements by their text, for the witnesses. Its
    aggregated table has the column \<open>policy_id\<close> and no column \<open>id\<close>.

  \<^bold>\<open>What is proved.\<close> The central theorem is \<open>process_database_follows_history\<close> (for the bridge alone,
  with any bundles inserted, \<open>interleaved_database_follows_history\<close>): in every reachable state the
  database says of each leaf hub that no handler is working on exactly what the bundles say whose jobs
  have succeeded, in their order; \<open>full_level_keeps_aggregated\<close> says that without the minimal level the
  aggregated table is never touched; \<open>interleaved_history_in_generation_order\<close> and
  \<open>interleaved_compliance_after_its_base\<close> say what that order is. Underneath, no step panics
  (\<open>process_never_panics\<close>; for the bridge \<open>interleaved_system_never_panics\<close> with the handlers,
  \<open>running_bridge_never_panics\<close> whatever they return), a job always finishes
  (\<open>interleaved_jobs_finish\<close>), a unit is in one place at a time, jobs and their metadata are not
  disturbed by insertions, a ready unit is queued or in work unless \<open>GetNext\<close> has failed
  (\<open>ready_units_wait_their_turn\<close>) and reaches a worker, and the process stops what it has started in the
  opposite order (\<open>main_stops_what_it_started\<close>). Each handler with a batch is proved to bring its table
  in line with the bundle, or to leave it as it was when it reports an error; for the minimal compliance
  handler, which has no batch, \<open>minimal_compliance_needs_both_columns\<close> says what it achieves under which
  names of the policy's column, and \<open>missing_id_column_blocks_reports\<close> that without the name \<open>id\<close> no
  report ever arrives; the batches carry exactly the rows asked for, and the placeholders of each
  statement are those of its arguments. The theorems on failures (\<open>getnext_error_loses_unit_and_worker\<close>,
  \<open>failed_query_inserts_again\<close>, \<open>stop_during_job_panics\<close>, \<open>stop_during_acquire_panics\<close>,
  \<open>transport_panics\<close>, \<open>nil_cluster_panics\<close>, \<open>cluster_deletes_share_a_statement\<close>,
  \<open>environment_round_trip\<close>) state where the code does not do what it means to.

  \<^bold>\<open>Hypotheses on what is not in the repository.\<close> \<open>sets_laws\<close>: the set library is a library of sets.
  \<open>clusters_table_laws\<close>, \<open>compliance_table_laws\<close>, \<open>aggregated_table_laws\<close>, collected in
  \<open>database_laws\<close>: a query succeeds and returns the rows it names (what happens when it fails is
  \<open>failed_query_inserts_again\<close>), a batch is one implicit transaction whose
  statements take effect in order or, when one of them fails, not at all, a single statement takes effect
  or fails; a table only changes by its own statements. The meaning of a statement is stated on the rows
  its builder rendered. The code has two names for the policy's column of the aggregated table, \<open>id\<close> and
  \<open>policy_id\<close>. Its laws have the names that the table has as a parameter, \<open>cols\<close>: a statement with another
  name is refused and does nothing. \<open>database_laws\<close> asks for \<open>policy_id\<close> among them and leaves \<open>id\<close> open.
  All laws hold of \<open>small_pg\<close>.
  \<open>decodes P\<close>: the unmarshaller keeps the type of the bundle it is given, and what it decodes satisfies \<open>P\<close>
  (well formed, or without null objects); \<open>dotted_ids\<close>: object ids have the form \<open>LH_ID.MSG_ID\<close>.

  \<^bold>\<open>Recursion.\<close> No definition needs fuel. The walk along the dependencies of a bundle
  (\<open>walk_dependencies\<close>) is a \<open>partial_function (option)\<close>: its value is None when the walk does not
  end, which in the code is a stack overflow. A registered dependency has a smaller priority
  (\<open>registrations_ok\<close>), so the walk cannot be a cycle; \<open>dependency_walk_terminates\<close> proves that it
  returns on every unit that satisfies the unit's invariant. All other loops are structural.

  \<^bold>\<open>Atomicity.\<close> A step of the running bridge is what one goroutine does between two calls that can
  block or that others can observe; the operations of a conflation unit run under its lock. In
  \<open>Interleaved_System\<close> a step of a handler is one call of the database client: a query with the rows it
  returns, one statement, or one batch, which is one transaction. Between the calls of a handler the
  handlers of other workers make theirs, bundles arrive and jobs are dispatched. That this is harmless
  rests on two facts that are proved: the jobs of one leaf hub never overlap (\<open>unit_in_one_place\<close>), and a
  handler reads and writes the rows of its leaf hub only (\<open>handler_run_ok\<close>). \<open>Database_System\<close>, where a
  handler and the report of its result are one step, is the special case in which nobody interrupts
  (\<open>atomic_is_interleaved\<close>, by \<open>run_alone_handler\<close>). Closing the pool of connections at a stop waits for
  those in use; between two calls none is, so at this granularity the close is a step that does not wait. A
  round of the transport and an event
  of the configuration are one step each; the code shares the aggregation level between their two
  goroutines without a lock, and the model takes each read and write of it to be atomic.

  \<^bold>\<open>Not modelled.\<close> Logging, command line flags, the version print and the metrics address; the JSON
  decoder, the client of the sync service, the runtime manager and the PostgreSQL driver, whose results
  are arguments; which Kubernetes events there are (the filter on their namespace is modelled); the
  context given to the handlers, which the code only passes on to the driver; the lock and condition
  variable of the ready queue, whose effect is that a dequeue of an empty queue blocks. The build files
  and deployment manifests have no program logic.
\<close>

end
